(* ===== verification/Prelude.thy ===== *)
theory Prelude
  imports Main Complex_Main "HOL-Library.Char_ord"
begin

text \<open>
  Shared vocabulary of the development: results of fallible code as sums (\<open>Inl\<close> the error,
  \<open>Inr\<close> the value), the part of the JavaScript string library the sources use, and the
  generic list lemmas the component theories share.

  A JavaScript string is a list of code units; the model's \<open>string\<close> is a list of characters
  with codes below 256, i.e. the Latin-1 fragment of it.  Every key, identifier, number and
  model name the modelled code compares lies in that fragment; the Russian texts of its error
  messages are represented by constructors instead.
\<close>

named_theorems res_simps "evaluation rules for results"
named_theorems op_defs "definitions of the operations of a component"

section \<open>Results\<close>

definition rbind :: "'e + 'a \<Rightarrow> ('a \<Rightarrow> 'e + 'b) \<Rightarrow> 'e + 'b" where
  "rbind r f = (case r of Inl e \<Rightarrow> Inl e | Inr x \<Rightarrow> f x)"

definition guard_res :: "bool \<Rightarrow> 'e \<Rightarrow> 'e + unit" where
  "guard_res b e = (if b then Inr () else Inl e)"

lemma rbind_Inl [simp, res_simps]: "rbind (Inl e) f = Inl e"
  by (simp add: rbind_def)

lemma rbind_Inr [simp, res_simps]: "rbind (Inr x) f = f x"
  by (simp add: rbind_def)

lemma rbind_eq_Inr [res_simps]: "rbind r f = Inr y \<longleftrightarrow> (\<exists>x. r = Inr x \<and> f x = Inr y)"
  by (cases r) simp_all

lemma rbind_eq_Inl [res_simps]:
  "rbind r f = Inl e \<longleftrightarrow> r = Inl e \<or> (\<exists>x. r = Inr x \<and> f x = Inl e)"
  by (cases r) auto

lemma guard_res_eq [res_simps]:
  "guard_res b e = Inr u \<longleftrightarrow> b"
  "guard_res b e = Inl e' \<longleftrightarrow> \<not> b \<and> e' = e"
  by (auto simp: guard_res_def)

fun mapM_res :: "('a \<Rightarrow> 'e + 'b) \<Rightarrow> 'a list \<Rightarrow> 'e + 'b list" where
  "mapM_res f [] = Inr []"
| "mapM_res f (x # xs) = rbind (f x) (\<lambda>y. rbind (mapM_res f xs) (\<lambda>ys. Inr (y # ys)))"

lemma mapM_res_Inr_iff:
  "mapM_res f xs = Inr ys \<longleftrightarrow> list_all2 (\<lambda>x y. f x = Inr y) xs ys"
proof (induction xs arbitrary: ys)
  case Nil
  then show ?case by auto
next
  case (Cons x xs)
  then show ?case by (cases ys) (auto simp: rbind_eq_Inr)
qed

lemma mapM_res_mem:
  assumes "mapM_res f xs = Inr ys" and "x \<in> set xs"
  shows "\<exists>y \<in> set ys. f x = Inr y"
  using assms by (force simp: mapM_res_Inr_iff in_set_conv_nth list_all2_conv_all_nth)

section \<open>Strings\<close>

text \<open>JavaScript white space (with line terminators) among the codes below 256.\<close>

definition is_ws :: "char \<Rightarrow> bool" where
  "is_ws c \<longleftrightarrow> (of_char c :: int) \<in> {9, 10, 11, 12, 13, 32, 160}"

definition trim_start :: "string \<Rightarrow> string" where
  "trim_start s = dropWhile is_ws s"

definition trim_end :: "string \<Rightarrow> string" where
  "trim_end s = rev (dropWhile is_ws (rev s))"

definition js_trim :: "string \<Rightarrow> string" where
  "js_trim s = trim_end (trim_start s)"

lemma dropWhile_idem [simp]: "dropWhile P (dropWhile P xs) = dropWhile P xs"
  by (induction xs) auto

lemma dropWhile_hd: "dropWhile P xs \<noteq> [] \<Longrightarrow> \<not> P (hd (dropWhile P xs))"
  by (induction xs) auto

lemma trim_id: "s = [] \<or> (\<not> is_ws (hd s) \<and> \<not> is_ws (last s)) \<Longrightarrow> js_trim s = s"
proof -
  assume a: "s = [] \<or> (\<not> is_ws (hd s) \<and> \<not> is_ws (last s))"
  show ?thesis
  proof (cases "s = []")
    case True
    then show ?thesis by (simp add: js_trim_def trim_start_def trim_end_def)
  next
    case False
    with a have h: "\<not> is_ws (hd s)" and l: "\<not> is_ws (last s)" by auto
    from False h have "dropWhile is_ws s = s" by (cases s) auto
    moreover from False l have "dropWhile is_ws (rev s) = rev s"
      by (cases s rule: rev_cases) auto
    ultimately show ?thesis by (simp add: js_trim_def trim_start_def trim_end_def)
  qed
qed

lemma trim_end_hd: "trim_end s \<noteq> [] \<Longrightarrow> hd (trim_end s) = hd s"
proof -
  assume a: "trim_end s \<noteq> []"
  have "rev s = takeWhile is_ws (rev s) @ dropWhile is_ws (rev s)"
    by simp
  then have "s = trim_end s @ rev (takeWhile is_ws (rev s))"
    by (metis rev_append rev_rev_ident trim_end_def)
  with a show ?thesis by (metis hd_append2)
qed

lemma js_trim_idem [simp]: "js_trim (js_trim s) = js_trim s"
proof (cases "js_trim s = []")
  case True
  have "js_trim [] = []" by (simp add: js_trim_def trim_start_def trim_end_def)
  with True show ?thesis by simp
next
  case False
  then have ne: "trim_end (trim_start s) \<noteq> []" by (simp add: js_trim_def)
  then have ne2: "trim_start s \<noteq> []" by (auto simp: trim_end_def)
  then have "\<not> is_ws (hd (trim_start s))"
    by (simp add: trim_start_def dropWhile_hd)
  with trim_end_hd [OF ne] have h: "\<not> is_ws (hd (js_trim s))"
    by (simp add: js_trim_def)
  from ne have "dropWhile is_ws (rev (trim_start s)) \<noteq> []" by (simp add: trim_end_def)
  then have "\<not> is_ws (hd (dropWhile is_ws (rev (trim_start s))))" by (rule dropWhile_hd)
  moreover have "last (js_trim s) = hd (dropWhile is_ws (rev (trim_start s)))"
    using ne by (simp add: js_trim_def trim_end_def last_rev)
  ultimately have l: "\<not> is_ws (last (js_trim s))" by simp
  from h l show ?thesis by (intro trim_id) simp
qed

text \<open>ASCII lower case, as \<open>toLowerCase\<close> acts on the ASCII letters of an identifier.\<close>

definition lower_char :: "char \<Rightarrow> char" where
  "lower_char c = (let n = (of_char c :: int) in
     if 65 \<le> n \<and> n \<le> 90 then char_of (n + 32) else c)"

definition js_lower :: "string \<Rightarrow> string" where
  "js_lower s = map lower_char s"

definition starts_with :: "string \<Rightarrow> string \<Rightarrow> bool" where
  "starts_with p s \<longleftrightarrow> take (length p) s = p"

subsection \<open>Decimal digits\<close>

definition is_digit :: "char \<Rightarrow> bool" where
  "is_digit c \<longleftrightarrow> 48 \<le> (of_char c :: int) \<and> (of_char c :: int) \<le> 57"

definition digit_val :: "char \<Rightarrow> int" where
  "digit_val c = of_char c - 48"

definition digit_char :: "int \<Rightarrow> char" where
  "digit_char d = ''0123456789'' ! nat d"

definition digits_val :: "string \<Rightarrow> int" where
  "digits_val s = foldl (\<lambda>n c. 10 * n + digit_val c) 0 s"

text \<open>The decimal print of a natural number, as \<open>BigInt.prototype.toString\<close> gives it.\<close>

function num_str :: "int \<Rightarrow> string" where
  "num_str n = (if n < 10 then [digit_char n] else num_str (n div 10) @ [digit_char (n mod 10)])"
  by pat_completeness auto
termination
  by (relation "measure nat") auto

declare num_str.simps [simp del]

definition pad_start :: "nat \<Rightarrow> char \<Rightarrow> string \<Rightarrow> string" where
  "pad_start n c s = replicate (n - length s) c @ s"

definition pad_end :: "nat \<Rightarrow> char \<Rightarrow> string \<Rightarrow> string" where
  "pad_end n c s = s @ replicate (n - length s) c"

lemma small_digit_cases:
  "0 \<le> d \<Longrightarrow> d < 10 \<Longrightarrow>
    d = 0 \<or> d = 1 \<or> d = 2 \<or> d = 3 \<or> d = 4 \<or> d = 5 \<or> d = 6 \<or> d = 7 \<or> d = 8 \<or> d = (9 :: int)"
  by presburger

lemma digit_val_char [simp]: "0 \<le> d \<Longrightarrow> d < 10 \<Longrightarrow> digit_val (digit_char d) = d"
  by (drule (1) small_digit_cases) (elim disjE; simp add: digit_val_def digit_char_def)

lemma is_digit_char [simp]: "0 \<le> d \<Longrightarrow> d < 10 \<Longrightarrow> is_digit (digit_char d)"
  by (drule (1) small_digit_cases) (elim disjE; simp add: is_digit_def digit_char_def)

lemma digits_val_Nil [simp]: "digits_val [] = 0"
  by (simp add: digits_val_def)

lemma digits_val_snoc [simp]: "digits_val (s @ [c]) = 10 * digits_val s + digit_val c"
  by (simp add: digits_val_def)

lemma digits_val_append: "digits_val (s @ t) = digits_val s * 10 ^ length t + digits_val t"
proof (induction t rule: rev_induct)
  case Nil
  then show ?case by simp
next
  case (snoc c t)
  have "digits_val (s @ t @ [c]) = 10 * digits_val (s @ t) + digit_val c"
    using digits_val_snoc [of "s @ t" c] by simp
  with snoc show ?case by (simp add: algebra_simps)
qed

lemma digits_val_Cons: "digits_val (c # t) = digit_val c * 10 ^ length t + digits_val t"
  using digits_val_append [of "[c]" t] by (simp add: digits_val_def)

lemma digits_val_zeros [simp]: "digits_val (replicate n CHR ''0'') = 0"
  by (induction n) (simp_all add: digits_val_Cons digit_val_def)

lemma digit_val_bounds: "is_digit c \<Longrightarrow> 0 \<le> digit_val c \<and> digit_val c < 10"
  by (simp add: is_digit_def digit_val_def)

lemma digits_val_bounds: "list_all is_digit s \<Longrightarrow> 0 \<le> digits_val s \<and> digits_val s < 10 ^ length s"
proof (induction s rule: rev_induct)
  case Nil
  then show ?case by simp
next
  case (snoc c s)
  then have "0 \<le> digits_val s" "digits_val s < 10 ^ length s" "0 \<le> digit_val c" "digit_val c < 10"
    by (auto simp: digit_val_bounds)
  then show ?case by simp
qed

lemma num_str_digits: "0 \<le> n \<Longrightarrow> list_all is_digit (num_str n)"
proof (induction n rule: num_str.induct)
  case (1 n)
  then show ?case by (cases "n < 10") (simp_all add: num_str.simps [of n])
qed

lemma num_str_val [simp]: "0 \<le> n \<Longrightarrow> digits_val (num_str n) = n"
proof (induction n rule: num_str.induct)
  case (1 n)
  then show ?case
    by (cases "n < 10") (simp_all add: num_str.simps [of n] digits_val_def)
qed

lemma num_str_nonempty [simp]: "num_str n \<noteq> []"
  by (subst num_str.simps) simp

lemma num_str_length: "0 \<le> n \<Longrightarrow> n < 10 ^ k \<Longrightarrow> 0 < k \<Longrightarrow> length (num_str n) \<le> k"
proof (induction n arbitrary: k rule: num_str.induct)
  case (1 n)
  show ?case
  proof (cases "n < 10")
    case True
    with 1 show ?thesis by (simp add: num_str.simps [of n])
  next
    case False
    with 1(3) have "k \<noteq> 1" by auto
    with 1(4) obtain k' where k: "k = Suc k'" "0 < k'" by (cases k) auto
    with 1(3) have "n < 10 * 10 ^ k'" by simp
    moreover have "n < 10 * m \<Longrightarrow> n div 10 < m" for m :: int by presburger
    ultimately have "n div 10 < 10 ^ k'" by blast
    with 1(1) [OF False] 1(2) k have "length (num_str (n div 10)) \<le> k'" by simp
    with False k show ?thesis by (simp add: num_str.simps [of n])
  qed
qed

lemma digits_val_pad_start [simp]: "digits_val (pad_start n CHR ''0'' s) = digits_val s"
  by (simp add: pad_start_def digits_val_append)

lemma digits_val_pad_end:
  "length s \<le> n \<Longrightarrow> digits_val (pad_end n CHR ''0'' s) = digits_val s * 10 ^ (n - length s)"
  by (simp add: pad_end_def digits_val_append)

section \<open>Lists\<close>

definition max0 :: "int list \<Rightarrow> int" where
  "max0 xs = foldl (\<lambda>m v. if v > m then v else m) 0 xs"

lemma foldl_max_ge:
  fixes m :: int
  shows "m \<le> foldl (\<lambda>m v. if v > m then v else m) m xs
    \<and> (\<forall>x \<in> set xs. x \<le> foldl (\<lambda>m v. if v > m then v else m) m xs)
    \<and> foldl (\<lambda>m v. if v > m then v else m) m xs \<in> insert m (set xs)"
proof (induction xs arbitrary: m)
  case Nil
  then show ?case by simp
next
  case (Cons x xs)
  show ?case
    using Cons.IH [of "if x > m then x else m"] by (cases "x > m") auto
qed

lemma max0_nonneg [simp]: "0 \<le> max0 xs"
  unfolding max0_def using foldl_max_ge [of 0 xs] by simp

lemma max0_ge: "x \<in> set xs \<Longrightarrow> x \<le> max0 xs"
  unfolding max0_def using foldl_max_ge [of 0 xs] by simp

lemma max0_mem: "max0 xs \<in> insert 0 (set xs)"
  unfolding max0_def using foldl_max_ge [of 0 xs] by simp

lemma max0_Cons: "max0 (x # xs) = max (max 0 x) (max0 xs)"
proof (rule antisym)
  show "max0 (x # xs) \<le> max (max 0 x) (max0 xs)"
    using max0_mem [of "x # xs"] max0_ge [of _ xs] by (auto simp: le_max_iff_disj)
next
  have "max0 xs \<le> max0 (x # xs)"
    using max0_mem [of xs] max0_ge [of "max0 xs" "x # xs"] by auto
  moreover have "x \<le> max0 (x # xs)" by (rule max0_ge) simp
  ultimately show "max (max 0 x) (max0 xs) \<le> max0 (x # xs)" by simp
qed

lemma max0_le_iff: "max0 xs \<le> b \<longleftrightarrow> 0 \<le> b \<and> (\<forall>x \<in> set xs. x \<le> b)"
proof
  assume "max0 xs \<le> b"
  with max0_nonneg [of xs] max0_ge [of _ xs] show "0 \<le> b \<and> (\<forall>x \<in> set xs. x \<le> b)"
    by (meson order_trans)
next
  assume "0 \<le> b \<and> (\<forall>x \<in> set xs. x \<le> b)"
  with max0_mem [of xs] show "max0 xs \<le> b" by auto
qed

lemma sum_list_map_update:
  fixes f :: "'a \<Rightarrow> int"
  shows "i < length xs \<Longrightarrow>
    sum_list (map f (xs[i := y])) = sum_list (map f xs) - f (xs ! i) + f y"
proof (induction xs arbitrary: i)
  case Nil
  then show ?case by simp
next
  case (Cons x xs)
  then show ?case by (cases i) simp_all
qed

end
