(* ===== verification/JsNumber.thy ===== *)
theory JsNumber
  imports Prelude "HOL-Library.Log_Nat"
begin

text \<open>
  The JavaScript Number values the sources rely on: IEEE doubles as exact rationals together
  with the infinities and NaN (the two zeros are one value here), rounding of an exact value to
  the nearest double with ties to even, the conversion \<open>Number(text)\<close> and \<open>toFixed(12)\<close>.
  All definitions compute.
\<close>

datatype jsnum = NaN | Infty bool | Fin rat

section \<open>Rounding to the nearest double\<close>

definition pow2 :: "int \<Rightarrow> rat" where
  "pow2 k = (if 0 \<le> k then 2 ^ nat k else 1 / 2 ^ nat (- k))"

definition round_half_even :: "rat \<Rightarrow> int" where
  "round_half_even y = (let f = \<lfloor>y\<rfloor>; d = y - of_int f in
     if d < 1 / 2 then f else if d > 1 / 2 then f + 1 else if even f then f else f + 1)"

text \<open>The binary exponent \<open>k\<close> of a positive rational: \<open>2 ^ k \<le> x < 2 ^ (k + 1)\<close>.\<close>

definition exponent2 :: "rat \<Rightarrow> int" where
  "exponent2 x = (let (n, d) = quotient_of x; k = bitlen n - bitlen d in
     if pow2 k \<le> x then k else k - 1)"

definition round_pos :: "rat \<Rightarrow> rat" where
  "round_pos x = (let e = max (exponent2 x - 52) (- 1074) in
     of_int (round_half_even (x / pow2 e)) * pow2 e)"

definition to_double :: "rat \<Rightarrow> jsnum" where
  "to_double x =
     (if x = 0 then Fin 0
      else let r = round_pos \<bar>x\<bar> in
        if r \<ge> 2 ^ 1024 then Infty (x > 0) else Fin (if x > 0 then r else - r))"

lemma pow2_pos [simp]: "0 < pow2 k"
  by (simp add: pow2_def)

lemma round_half_even_nonneg: "0 \<le> y \<Longrightarrow> 0 \<le> round_half_even y"
  by (auto simp: round_half_even_def Let_def)

lemma round_pos_nonneg: "0 \<le> x \<Longrightarrow> 0 \<le> round_pos x"
  by (simp add: round_pos_def Let_def round_half_even_nonneg less_imp_le)

lemma to_double_nonneg: "0 \<le> x \<Longrightarrow> to_double x = Fin r \<Longrightarrow> 0 \<le> r"
  by (auto simp: to_double_def Let_def round_pos_nonneg split: if_splits)

subsection \<open>Integers that are doubles\<close>

lemma pow2_add: "pow2 (a + b) = pow2 a * pow2 b"
proof (cases "0 \<le> a"; cases "0 \<le> b")
  assume "0 \<le> a" "0 \<le> b"
  then show ?thesis by (simp add: pow2_def nat_add_distrib power_add)
next
  assume a: "0 \<le> a" and b: "\<not> 0 \<le> b"
  then show ?thesis
  proof (cases "0 \<le> a + b")
    case True
    then have "nat a = nat (a + b) + nat (- b)" using a b by linarith
    then show ?thesis using a b True by (simp add: pow2_def power_add)
  next
    case False
    then have "nat (- b) = nat (- (a + b)) + nat a" using a b by linarith
    then show ?thesis using a b False by (simp add: pow2_def power_add)
  qed
next
  assume a: "\<not> 0 \<le> a" and b: "0 \<le> b"
  then show ?thesis
  proof (cases "0 \<le> a + b")
    case True
    then have "nat b = nat (a + b) + nat (- a)" using a b by linarith
    then show ?thesis using a b True by (simp add: pow2_def power_add)
  next
    case False
    then have "nat (- a) = nat (- (a + b)) + nat b" using a b by linarith
    then show ?thesis using a b False by (simp add: pow2_def power_add)
  qed
next
  assume "\<not> 0 \<le> a" "\<not> 0 \<le> b"
  then have "nat (- (a + b)) = nat (- a) + nat (- b)" by linarith
  then show ?thesis using \<open>\<not> 0 \<le> a\<close> \<open>\<not> 0 \<le> b\<close> by (simp add: pow2_def power_add)
qed

lemma pow2_int: "0 \<le> k \<Longrightarrow> pow2 k = of_int (2 ^ nat k)"
  by (simp add: pow2_def)

lemma round_half_even_int [simp]: "round_half_even (of_int n) = n"
  by (simp add: round_half_even_def)

text \<open>An integer with at most 53 significant bits is its own double.\<close>

lemma to_double_dyadic:
  assumes m: "0 < m" "m < 2 ^ 53" and j: "j \<le> 900"
  shows "to_double (of_int (m * 2 ^ j)) = Fin (of_int (m * 2 ^ j))"
proof -
  let ?N = "m * 2 ^ j" and ?x = "of_int (m * 2 ^ j) :: rat"
  have N: "0 < ?N" using m by simp
  have q: "quotient_of ?x = (?N, 1)" by (simp only: of_int_rat quotient_of_Fract normalize_def) simp
  have b: "bitlen m \<le> 53" using m by (simp add: bitlen_le_iff_power)
  have "bitlen (1::int) = 1" by (simp add: compute_bitlen [of 1])
  then have e: "exponent2 ?x \<le> 52 + int j"
    unfolding exponent2_def q using b m by (simp add: Let_def)
  obtain E where E: "E = max (exponent2 ?x - 52) (- 1074)" by simp
  then have Ej: "E \<le> int j" using e by simp
  have nz: "pow2 E \<noteq> 0" using pow2_pos [of E] by linarith
  have "?x = of_int m * (pow2 (int j - E) * pow2 E)"
    unfolding pow2_add [symmetric] by (simp add: pow2_int)
  then have "?x / pow2 E = of_int m * (pow2 (int j - E) * pow2 E) / pow2 E" by (simp only:)
  also have "\<dots> = of_int m * pow2 (int j - E)" using nz by simp
  also have "\<dots> = of_int (m * 2 ^ nat (int j - E))"
    using Ej by (simp add: pow2_int)
  finally have x: "?x / pow2 E = of_int (m * 2 ^ nat (int j - E))" .
  have "round_pos ?x = of_int (round_half_even (?x / pow2 E)) * pow2 E"
    unfolding round_pos_def Let_def E by (rule refl)
  also have "\<dots> = ?x"
    unfolding x round_half_even_int unfolding x [symmetric] using nz by simp
  finally have r: "round_pos ?x = ?x" .
  have "?N < 2 ^ 53 * 2 ^ 900"
    using m j by (intro mult_less_le_imp_less power_increasing) auto
  also have "\<dots> \<le> (2::int) ^ 1024" by (simp flip: power_add)
  finally have "?x < of_int (2 ^ 1024)" by (simp only: of_int_less_iff)
  then have "?x < 2 ^ 1024" by simp
  with N r show ?thesis
    unfolding to_double_def Let_def by (simp del: of_int_mult of_int_power) 
qed

lemma to_double_int:
  assumes "0 \<le> n" "n < 2 ^ 53"
  shows "to_double (of_int n) = Fin (of_int n)"
  using assms to_double_dyadic [of n 0] by (cases "n = 0") (simp_all add: to_double_def)

section \<open>Number(text)\<close>

text \<open>
  The decimal literals of the numeric string grammar, after trimming: an optional sign, digits
  with an optional fraction, an optional exponent; the empty text is zero.  Hexadecimal, octal
  and binary literals take no sign.
\<close>

definition split_exp :: "string \<Rightarrow> (string \<times> int) option" where
  "split_exp s =
     (let m = takeWhile (\<lambda>c. c \<noteq> CHR ''e'' \<and> c \<noteq> CHR ''E'') s;
          r = drop (length m) s in
      case r of
        [] \<Rightarrow> Some (m, 0)
      | _ # t \<Rightarrow>
          (let neg = (t \<noteq> [] \<and> hd t = CHR ''-'');
               ds = (if t \<noteq> [] \<and> (hd t = CHR ''-'' \<or> hd t = CHR ''+'') then tl t else t) in
           if ds \<noteq> [] \<and> list_all is_digit ds
           then Some (m, (if neg then - digits_val ds else digits_val ds))
           else None))"

definition mantissa :: "string \<Rightarrow> (int \<times> int) option" where
  "mantissa s =
     (let w = takeWhile is_digit s; r = dropWhile is_digit s in
      case r of
        [] \<Rightarrow> if w = [] then None else Some (digits_val w, 0)
      | c # f \<Rightarrow>
          if c = CHR ''.'' \<and> list_all is_digit f \<and> (w \<noteq> [] \<or> f \<noteq> [])
          then Some (digits_val (w @ f), int (length f)) else None)"

definition unsigned_decimal :: "string \<Rightarrow> rat option" where
  "unsigned_decimal s =
     (case split_exp s of
        None \<Rightarrow> None
      | Some (m, x) \<Rightarrow>
          (case mantissa m of
             None \<Rightarrow> None
           | Some (n, k) \<Rightarrow>
               Some (let e = x - k in
                 if 0 \<le> e then of_int n * 10 ^ nat e else of_int n / 10 ^ nat (- e))))"

definition radix_digit :: "char \<Rightarrow> int" where
  "radix_digit c = (let n = (of_char (lower_char c) :: int) in
     if 48 \<le> n \<and> n \<le> 57 then n - 48 else if 97 \<le> n \<and> n \<le> 102 then n - 87 else 99)"

definition radix_literal :: "string \<Rightarrow> int option" where
  "radix_literal s =
     (let p = js_lower (take 2 s);
          b = (if p = ''0x'' then 16 else if p = ''0o'' then 8 else if p = ''0b'' then 2 else 0);
          ds = drop 2 s in
      if b = 0 \<or> ds = [] \<or> \<not> list_all (\<lambda>c. radix_digit c < b) ds then None
      else Some (foldl (\<lambda>n c. b * n + radix_digit c) 0 ds))"

definition js_number :: "string \<Rightarrow> jsnum" where
  "js_number text =
     (let s = js_trim text in
      if s = [] then Fin 0
      else case radix_literal s of
        Some n \<Rightarrow> to_double (of_int n)
      | None \<Rightarrow>
          (let neg = (hd s = CHR ''-'');
               u = (if hd s = CHR ''-'' \<or> hd s = CHR ''+'' then tl s else s) in
           if u = ''Infinity'' then Infty (\<not> neg)
           else case unsigned_decimal u of
             None \<Rightarrow> NaN
           | Some q \<Rightarrow> to_double (if neg then - q else q)))"

section \<open>toFixed(12)\<close>

text \<open>
  For a value below \<open>10 ^ 21\<close> the result is the integer nearest to \<open>x * 10 ^ 12\<close>, the larger one
  of two equally near, printed with twelve fraction digits.
\<close>

definition to_fixed12 :: "rat \<Rightarrow> string" where
  "to_fixed12 x =
     (let n = \<lfloor>x * 10 ^ 12 + 1 / 2\<rfloor> in
      num_str (n div 10 ^ 12) @ ''.'' @ pad_start 12 CHR ''0'' (num_str (n mod 10 ^ 12)))"

definition js_is_integer :: "jsnum \<Rightarrow> bool" where
  "js_is_integer v = (case v of Fin q \<Rightarrow> q = of_int \<lfloor>q\<rfloor> | _ \<Rightarrow> False)"

lemmas number_text_defs = js_number_def Let_def radix_literal_def unsigned_decimal_def
  split_exp_def mantissa_def js_lower_def lower_char_def js_trim_def trim_start_def trim_end_def
  is_ws_def is_digit_def digits_val_def digit_val_def

end
