(* ===== verification/Money.thy ===== *)
theory Money
  imports JsNumber
begin

text \<open>
  Money of the LLM ledger, \<^verbatim>\<open>apps/core/src/llm-ledger/llm-ledger.money.ts\<close>: decimal USD text to
  nano-USD and back, the cost of a reservation and of a settlement under a price snapshot, and
  the exposure of a spend row.  A \<open>bigint\<close> is an \<open>int\<close>; every \<open>throw\<close> is an \<open>Inl\<close> of
  \<open>money_error\<close>.  The first lemmas give the decimal arithmetic exactly (\<open>dec_value\<close> is the
  rational a decimal text denotes); the second group bounds settlement costs by reserve costs.
\<close>

section \<open>Protocol enumerations\<close>

datatype consumer = Agents | Bot | Cc | Documents | Embeddings
datatype budget_action = Pause | Downgrade | Ask
datatype settlement_outcome = Success | ProviderError | Unknown
datatype spend_status = Reserved | Settled | Failed | Released | Denied

datatype billing_kind = Metered | Subscription
datatype settlement_kind = Tokens | ProviderReported

record token_usage =
  inputTokens :: int
  outputTokens :: int
  cacheReadInputTokens :: "int option"
  cacheCreationInputTokens :: "int option"
  cacheCreation5mInputTokens :: "int option"
  cacheCreation1hInputTokens :: "int option"
  codeExecutionRequests :: "int option"

datatype money_error =
    BadUsd
  | NegativeUsd
  | NoReservationCeiling
  | CacheSplitMismatch

section \<open>Decimal USD and nano-USD\<close>

definition NANO_USD :: int where
  "NANO_USD = 1000000000"

definition TOKENS_PER_MTOK :: int where
  "TOKENS_PER_MTOK = 1000000"

definition DOCUMENTS_INPUT_OVERHEAD_TOKENS :: int where
  "DOCUMENTS_INPUT_OVERHEAD_TOKENS = 128000"

datatype rounding = Floor | Ceil
datatype usd_value = UsdStr string | UsdNum jsnum

definition replace_comma :: "string \<Rightarrow> string" where
  "replace_comma s =
     (let p = takeWhile (\<lambda>c. c \<noteq> CHR '','') s; r = drop (length p) s in
      case r of [] \<Rightarrow> s | _ # t \<Rightarrow> p @ CHR ''.'' # t)"

text \<open>The match of \<^verbatim>\<open>/^(\d+)(?:\.(\d*))?$/\<close>: the whole part and the fraction (empty if absent).\<close>

definition dec_match :: "string \<Rightarrow> (string \<times> string) option" where
  "dec_match s =
     (let w = takeWhile is_digit s; r = dropWhile is_digit s in
      if w = [] then None
      else case r of
        [] \<Rightarrow> Some (w, [])
      | c # f \<Rightarrow> if c = CHR ''.'' \<and> list_all is_digit f then Some (w, f) else None)"

definition strip_zeros :: "string \<Rightarrow> string" where
  "strip_zeros s = rev (dropWhile (\<lambda>c. c = CHR ''0'') (rev s))"

definition strip_dot :: "string \<Rightarrow> string" where
  "strip_dot s = (if s \<noteq> [] \<and> last s = CHR ''.'' then butlast s else s)"

text \<open>
  From \<open>10 ^ 21\<close> on \<open>toFixed\<close> prints exponent notation, which no decimal pattern matches; the
  text \<open>''e''\<close> stands for it.
\<close>

definition numberAsDecimal :: "jsnum \<Rightarrow> money_error + string" where
  "numberAsDecimal v =
     (case v of
        Fin q \<Rightarrow>
          if q < 0 then Inl BadUsd
          else if q \<ge> 10 ^ 21 then Inr ''e''
          else Inr (strip_dot (strip_zeros (to_fixed12 q)))
      | _ \<Rightarrow> Inl BadUsd)"

definition nano_of_match :: "rounding \<Rightarrow> string \<times> string \<Rightarrow> int" where
  "nano_of_match r dm =
     (let whole = digits_val (fst dm);
          kept = pad_end 9 CHR ''0'' (take 9 (snd dm));
          discarded = drop 9 (snd dm);
          bump = (if r = Ceil \<and> list_ex (\<lambda>c. c \<noteq> CHR ''0'') discarded then 1 else 0)
      in whole * NANO_USD + digits_val kept + bump)"

definition usdToNano :: "rounding \<Rightarrow> usd_value \<Rightarrow> money_error + int" where
  "usdToNano r value =
     (case value of
        UsdNum v \<Rightarrow>
          rbind (numberAsDecimal v) (\<lambda>raw.
            case dec_match raw of None \<Rightarrow> Inl BadUsd | Some dm \<Rightarrow> Inr (nano_of_match r dm))
      | UsdStr s \<Rightarrow>
          (let raw = replace_comma (js_trim s) in
           case dec_match raw of
             Some dm \<Rightarrow> Inr (nano_of_match r dm)
           | None \<Rightarrow>
               (case js_number raw of
                  Fin q \<Rightarrow>
                    if q \<ge> 0
                    then rbind (numberAsDecimal (Fin q)) (\<lambda>raw2.
                      case dec_match raw2 of
                        None \<Rightarrow> Inl BadUsd | Some dm \<Rightarrow> Inr (nano_of_match r dm))
                    else Inl BadUsd
                | _ \<Rightarrow> Inl BadUsd)))"

definition bigint_div :: "int \<Rightarrow> int \<Rightarrow> int" where
  "bigint_div a b = sgn a * sgn b * (\<bar>a\<bar> div \<bar>b\<bar>)"

definition bigint_mod :: "int \<Rightarrow> int \<Rightarrow> int" where
  "bigint_mod a b = a - b * bigint_div a b"

definition nanoToUsd :: "int \<Rightarrow> money_error + string" where
  "nanoToUsd v =
     (if v < 0 then Inl NegativeUsd
      else Inr (num_str (bigint_div v NANO_USD) @ ''.''
        @ pad_start 9 CHR ''0'' (num_str (bigint_mod v NANO_USD))))"

definition nanoToNumber :: "int \<Rightarrow> money_error + jsnum" where
  "nanoToNumber v = rbind (nanoToUsd v) (\<lambda>s. Inr (js_number s))"

definition divideCeil :: "int \<Rightarrow> int \<Rightarrow> int" where
  "divideCeil numerator denominator =
     (if numerator = 0 then 0 else bigint_div (numerator + denominator - 1) denominator)"

section \<open>Costs under a price snapshot\<close>

text \<open>
  The snapshot's \<open>documentsPolicy\<close> is the constant \<open>DOCUMENTS_LEDGER_POLICY\<close>; only its input
  overhead enters a computation.
\<close>

record price_snapshot =
  provider :: string
  model :: string
  billingKind :: billing_kind
  settlementKind :: settlement_kind
  inputUsdPerMtok :: string
  outputUsdPerMtok :: string
  cacheReadUsdPerMtok :: string
  cacheWrite5mUsdPerMtok :: string
  cacheWrite1hUsdPerMtok :: string
  fixedRequestUsd :: string
  reservationCeilingUsd :: "string option"
  codeExecutionUsdPerRequest :: string
  policyInputOverheadTokens :: int
  validFromIso :: string

abbreviation usdCeil :: "string \<Rightarrow> money_error + int" where
  "usdCeil s \<equiv> usdToNano Ceil (UsdStr s)"

definition isDocumentCodeExecution :: "consumer \<Rightarrow> bool" where
  "isDocumentCodeExecution c \<longleftrightarrow> c = Documents"

definition billableInputTokenCeiling :: "price_snapshot \<Rightarrow> consumer \<Rightarrow> int \<Rightarrow> int" where
  "billableInputTokenCeiling p c clientInputTokenCeiling =
     clientInputTokenCeiling + (if isDocumentCodeExecution c then policyInputOverheadTokens p else 0)"

definition reserveCostNano :: "price_snapshot \<Rightarrow> consumer \<Rightarrow> int \<Rightarrow> int \<Rightarrow> money_error + int" where
  "reserveCostNano p c inputTokenCeiling outputTokenCeiling =
     (if billingKind p = Subscription then Inr 0
      else if settlementKind p = ProviderReported then
        (case reservationCeilingUsd p of
           None \<Rightarrow> Inl NoReservationCeiling
         | Some s \<Rightarrow> usdCeil s)
      else
        rbind (usdCeil (inputUsdPerMtok p)) (\<lambda>ri.
        rbind (usdCeil (cacheReadUsdPerMtok p)) (\<lambda>rr.
        rbind (usdCeil (cacheWrite5mUsdPerMtok p)) (\<lambda>r5.
        rbind (usdCeil (cacheWrite1hUsdPerMtok p)) (\<lambda>r1.
        rbind (usdCeil (outputUsdPerMtok p)) (\<lambda>ro.
        (let inputRate = max0 [ri, rr, r5, r1];
             numerator = inputRate * billableInputTokenCeiling p c inputTokenCeiling
               + ro * outputTokenCeiling;
             tokenCost = divideCeil numerator TOKENS_PER_MTOK in
         rbind (if isDocumentCodeExecution c then usdCeil (codeExecutionUsdPerRequest p)
                else Inr 0) (\<lambda>ce.
         rbind (usdCeil (fixedRequestUsd p)) (\<lambda>fx.
         Inr (tokenCost + fx + ce))))))))))"

definition reserveProviderRouteCostNano ::
  "price_snapshot \<Rightarrow> price_snapshot list \<Rightarrow> consumer \<Rightarrow> int \<Rightarrow> int \<Rightarrow> money_error + int" where
  "reserveProviderRouteCostNano requestedPrice activeProviderPrices c inCeil outCeil =
     (let prices = (if c = Agents \<or> c = Embeddings then activeProviderPrices
                    else [requestedPrice]) in
      rbind (mapM_res (\<lambda>p. reserveCostNano p c inCeil outCeil) prices) (\<lambda>cs. Inr (max0 cs)))"

definition orZero :: "int option \<Rightarrow> int" where
  "orZero v = (case v of None \<Rightarrow> 0 | Some n \<Rightarrow> n)"

definition cacheCreationCostNumerator :: "price_snapshot \<Rightarrow> token_usage \<Rightarrow> money_error + int" where
  "cacheCreationCostNumerator p u =
     (let hasBreakdown = (cacheCreation5mInputTokens u \<noteq> None \<or> cacheCreation1hInputTokens u \<noteq> None);
          aggregate = orZero (cacheCreationInputTokens u) in
      rbind (usdCeil (cacheWrite5mUsdPerMtok p)) (\<lambda>rate5m.
      rbind (usdCeil (cacheWrite1hUsdPerMtok p)) (\<lambda>rate1h.
      if \<not> hasBreakdown then Inr (max0 [rate5m, rate1h] * aggregate)
      else
        (let tokens5m = orZero (cacheCreation5mInputTokens u);
             tokens1h = orZero (cacheCreation1hInputTokens u) in
         if cacheCreationInputTokens u \<noteq> None \<and> aggregate \<noteq> tokens5m + tokens1h
         then Inl CacheSplitMismatch
         else Inr (rate5m * tokens5m + rate1h * tokens1h)))))"

definition settlementCostNano ::
  "price_snapshot \<Rightarrow> consumer \<Rightarrow> token_usage option \<Rightarrow> jsnum option \<Rightarrow> money_error + int option" where
  "settlementCostNano p c usage reported =
     (if billingKind p = Subscription then Inr (Some 0)
      else if settlementKind p = ProviderReported then
        (case reported of
           None \<Rightarrow> Inr None
         | Some v \<Rightarrow> rbind (usdToNano Ceil (UsdNum v)) (\<lambda>n. Inr (Some n)))
      else case usage of
        None \<Rightarrow> Inr None
      | Some u \<Rightarrow>
          rbind (cacheCreationCostNumerator p u) (\<lambda>cc.
          rbind (usdCeil (inputUsdPerMtok p)) (\<lambda>ri.
          rbind (usdCeil (outputUsdPerMtok p)) (\<lambda>ro.
          rbind (usdCeil (cacheReadUsdPerMtok p)) (\<lambda>rr.
          (let numerator = ri * inputTokens u + ro * outputTokens u
                 + rr * orZero (cacheReadInputTokens u) + cc in
           rbind (if isDocumentCodeExecution c then usdCeil (codeExecutionUsdPerRequest p)
                  else Inr 0) (\<lambda>ce.
           rbind (usdCeil (fixedRequestUsd p)) (\<lambda>fx.
           Inr (Some (divideCeil numerator TOKENS_PER_MTOK + fx + ce))))))))))"

definition exposureNano ::
  "spend_status \<Rightarrow> settlement_outcome option \<Rightarrow> string \<Rightarrow> string option \<Rightarrow> money_error + int" where
  "exposureNano status outcome reservedUsd actualUsd =
     (if status = Reserved then usdCeil reservedUsd
      else if status = Settled then usdCeil (case actualUsd of None \<Rightarrow> ''0'' | Some a \<Rightarrow> a)
      else if status = Failed \<and> outcome = Some Unknown then
        rbind (usdCeil reservedUsd) (\<lambda>r.
        rbind (usdCeil (case actualUsd of None \<Rightarrow> ''0'' | Some a \<Rightarrow> a)) (\<lambda>a. Inr (max0 [r, a])))
      else if status = Failed then usdCeil (case actualUsd of None \<Rightarrow> reservedUsd | Some a \<Rightarrow> a)
      else Inr 0)"

text \<open>
  The dated suffix of \<open>resolvedModelMatchesCatalogPrice\<close> is \<^verbatim>\<open>/^-\d{8}$/\<close>.
\<close>

definition dated_suffix :: "string \<Rightarrow> bool" where
  "dated_suffix s \<longleftrightarrow> length s = 9 \<and> hd s = CHR ''-'' \<and> list_all is_digit (tl s)"

definition resolvedModelMatchesCatalogPrice :: "string \<Rightarrow> string \<Rightarrow> string \<Rightarrow> bool" where
  "resolvedModelMatchesCatalogPrice prov resolvedModel catalogModel =
     (if catalogModel = [] then False
      else if resolvedModel = catalogModel then True
      else if prov \<noteq> ''anthropic'' \<or> \<not> starts_with catalogModel resolvedModel then False
      else dated_suffix (drop (length catalogModel) resolvedModel))"

text \<open>
  \<open>selectCatalogPrice\<close>: the rows of the exact model sorted by descending \<open>validFrom\<close> (a stable
  sort), the first of them.  The rows are generic in the code; here the two fields it reads are
  parameters.
\<close>

definition selectCatalogPrice ::
  "('r \<Rightarrow> string) \<Rightarrow> ('r \<Rightarrow> int) \<Rightarrow> 'r list \<Rightarrow> string \<Rightarrow> 'r option" where
  "selectCatalogPrice rowModel rowValidFrom rows requestedModel =
     (case sort_key (\<lambda>r. - rowValidFrom r) (filter (\<lambda>r. rowModel r = requestedModel) rows) of
        [] \<Rightarrow> None | r # _ \<Rightarrow> Some r)"

section \<open>Decimal arithmetic is exact\<close>

text \<open>The rational a matched decimal denotes.\<close>

definition dec_value :: "string \<times> string \<Rightarrow> rat" where
  "dec_value dm = of_int (digits_val (fst dm)) + of_int (digits_val (snd dm)) / 10 ^ length (snd dm)"

lemma dec_match_digits:
  assumes "dec_match s = Some (w, f)"
  shows "w \<noteq> [] \<and> list_all is_digit w \<and> list_all is_digit f"
proof -
  have "list_all is_digit (takeWhile is_digit s)"
    by (auto simp: list_all_iff dest: set_takeWhileD)
  with assms show ?thesis
    by (auto simp: dec_match_def Let_def split: if_splits list.splits)
qed

lemma digits_pos_iff:
  assumes "list_all is_digit s"
  shows "list_ex (\<lambda>c. c \<noteq> CHR ''0'') s \<longleftrightarrow> digits_val s \<noteq> 0"
  using assms
proof (induction s rule: rev_induct)
  case Nil
  then show ?case by simp
next
  case (snoc c s)
  then have s: "list_all is_digit s" and c: "is_digit c" by auto
  from s have "0 \<le> digits_val s" by (simp add: digits_val_bounds)
  moreover from c have "0 \<le> digit_val c" by (simp add: digit_val_bounds)
  moreover have "digit_val c = 0 \<longleftrightarrow> c = CHR ''0''"
  proof
    assume "digit_val c = 0"
    then have "(of_char c :: int) = of_char CHR ''0''" by (simp add: digit_val_def)
    then show "c = CHR ''0''" by (simp only: of_char_eq_iff)
  qed (simp add: digit_val_def)
  ultimately show ?case using snoc.IH [OF s] by auto
qed

lemma ceil_split:
  fixes a :: int and d m :: int
  assumes "0 \<le> d" "d < m"
  shows "\<lfloor>of_int a + of_int d / (of_int m :: rat)\<rfloor> = a"
    and "\<lceil>of_int a + of_int d / (of_int m :: rat)\<rceil> = (if d = 0 then a else a + 1)"
proof -
  from assms have m: "0 < (of_int m :: rat)" by simp
  have lo: "0 \<le> of_int d / (of_int m :: rat)" using assms m by simp
  have hi: "of_int d / (of_int m :: rat) < 1" using assms m by simp
  show "\<lfloor>of_int a + of_int d / (of_int m :: rat)\<rfloor> = a"
    using lo hi by (simp add: floor_unique)
  show "\<lceil>of_int a + of_int d / (of_int m :: rat)\<rceil> = (if d = 0 then a else a + 1)"
  proof (cases "d = 0")
    case True
    then show ?thesis by simp
  next
    case False
    with assms m have "0 < of_int d / (of_int m :: rat)" by simp
    with hi False show ?thesis by (simp add: ceiling_unique)
  qed
qed

lemma nano_of_match_exact:
  assumes "list_all is_digit w" and "list_all is_digit f"
  shows "nano_of_match r (w, f) =
    (case r of Floor \<Rightarrow> \<lfloor>dec_value (w, f) * 10 ^ 9\<rfloor> | Ceil \<Rightarrow> \<lceil>dec_value (w, f) * 10 ^ 9\<rceil>)"
proof -
  let ?t = "take 9 f" and ?d = "drop 9 f"
  let ?a = "digits_val w * 10 ^ 9 + digits_val ?t * 10 ^ (9 - length ?t)"
  let ?m = "10 ^ length ?d :: int"
  have d: "list_all is_digit ?d" using assms(2)
    by (metis append_take_drop_id list_all_append)
  have bounds: "0 \<le> digits_val ?d" "digits_val ?d < ?m"
    using digits_val_bounds [OF d] by auto
  have "digits_val f = digits_val ?t * 10 ^ length ?d + digits_val ?d"
    by (metis append_take_drop_id digits_val_append)
  moreover have "length f = length ?t + length ?d" by simp
  ultimately have "dec_value (w, f) * 10 ^ 9 = of_int ?a + of_int (digits_val ?d) / of_int ?m"
  proof (cases "length f \<le> 9")
    case True
    then have "digits_val f = digits_val ?t" "?d = []" "length ?t = length f" by simp_all
    moreover have "(10::rat) ^ 9 = 10 ^ (9 - length f) * 10 ^ length f"
      using True by (simp flip: power_add)
    ultimately show ?thesis
      by (simp add: dec_value_def field_simps)
  next
    case False
    then have "length ?t = 9" by simp
    moreover have "(10::rat) ^ length f = 10 ^ 9 * 10 ^ length ?d"
      using False by (metis append_take_drop_id length_append power_add \<open>length (take 9 f) = 9\<close>)
    ultimately show ?thesis
      using \<open>digits_val f = _\<close> by (simp add: dec_value_def field_simps)
  qed
  moreover have "nano_of_match r (w, f) = ?a +
      (if r = Ceil \<and> digits_val ?d \<noteq> 0 then 1 else 0)"
    using digits_pos_iff [OF d]
    by (simp add: nano_of_match_def Let_def NANO_USD_def digits_val_pad_end)
  ultimately show ?thesis
    using ceil_split [OF bounds, of ?a] by (cases r) auto
qed


lemma usd_from_match:
  assumes "dec_match (replace_comma (js_trim s)) = Some (w, f)"
  shows "usdToNano r (UsdStr s) = Inr (nano_of_match r (w, f))"
  using assms by (simp add: usdToNano_def Let_def)

lemma nano_of_match_nonneg:
  assumes "dec_match s = Some dm"
  shows "0 \<le> nano_of_match r dm"
proof -
  obtain w f where dm: "dm = (w, f)" by (cases dm)
  have d: "list_all is_digit w" "list_all is_digit f"
    using dec_match_digits [of s w f] assms dm by auto
  then have "0 \<le> dec_value (w, f)"
    by (simp add: dec_value_def digits_val_bounds)
  then show ?thesis
    using dm nano_of_match_exact [OF d, of r] by (cases r) (simp_all add: add_increasing)
qed

lemma usd_nonneg: "usdToNano r v = Inr n \<Longrightarrow> 0 \<le> n"
  by (auto simp: usdToNano_def Let_def rbind_eq_Inr nano_of_match_nonneg
    split: usd_value.splits option.splits jsnum.splits if_splits)

subsection \<open>Printing and reading back\<close>

lemma digit_not_special:
  assumes "is_digit c"
  shows "\<not> is_ws c" "c \<noteq> CHR ''.''" "c \<noteq> CHR '',''"
  using assms by (auto simp: is_digit_def is_ws_def)

lemma replace_comma_id: "\<forall>c \<in> set s. c \<noteq> CHR '','' \<Longrightarrow> replace_comma s = s"
  by (simp add: replace_comma_def takeWhile_eq_all_conv [THEN iffD2])

lemma digits_no_comma:
  "list_all is_digit w \<Longrightarrow> list_all is_digit f \<Longrightarrow>
    replace_comma (w @ CHR ''.'' # f) = w @ CHR ''.'' # f"
  by (rule replace_comma_id) (auto simp: list_all_iff dest: digit_not_special(3))

lemma dec_match_print:
  assumes "list_all is_digit w" "w \<noteq> []" "list_all is_digit f"
  shows "dec_match (w @ CHR ''.'' # f) = Some (w, f)"
proof -
  have "takeWhile is_digit (w @ CHR ''.'' # f) = w"
    using assms(1) by (simp add: takeWhile_append list_all_iff is_digit_def)
  moreover have "dropWhile is_digit (w @ CHR ''.'' # f) = CHR ''.'' # f"
    using assms(1) by (simp add: dropWhile_append list_all_iff is_digit_def)
  ultimately show ?thesis using assms by (simp add: dec_match_def)
qed

lemma trim_print:
  assumes "list_all is_digit w" "w \<noteq> []" "list_all is_digit f" "f \<noteq> []"
  shows "js_trim (w @ CHR ''.'' # f) = w @ CHR ''.'' # f"
proof (rule trim_id)
  have "is_digit (hd w)" "is_digit (last f)"
    using assms by (auto simp: list_all_iff)
  then show "w @ CHR ''.'' # f = [] \<or>
      \<not> is_ws (hd (w @ CHR ''.'' # f)) \<and> \<not> is_ws (last (w @ CHR ''.'' # f))"
    using assms by (simp add: digit_not_special)
qed

lemma pad_start_digits:
  "list_all is_digit s \<Longrightarrow> list_all is_digit (pad_start n CHR ''0'' s)"
  by (auto simp: pad_start_def list_all_iff is_digit_def)

lemma length_pad_start: "length s \<le> n \<Longrightarrow> length (pad_start n c s) = n"
  by (simp add: pad_start_def)

lemma bigint_divmod_nonneg:
  assumes "0 \<le> a" "0 < b"
  shows "bigint_div a b = a div b" and "bigint_mod a b = a mod b"
proof -
  show *: "bigint_div a b = a div b"
    using assms by (cases "a = 0") (simp_all add: bigint_div_def)
  show "bigint_mod a b = a mod b"
    unfolding bigint_mod_def * by (simp add: minus_mult_div_eq_mod)
qed

lemma nanoToUsd_text:
  assumes "0 \<le> n"
  obtains w f where "nanoToUsd n = Inr (w @ CHR ''.'' # f)"
    "list_all is_digit w" "w \<noteq> []" "list_all is_digit f" "length f = 9"
    "digits_val w * 10 ^ 9 + digits_val f = n"
proof -
  let ?w = "num_str (n div 10 ^ 9)" and ?m = "n mod 10 ^ 9 :: int"
  let ?f = "pad_start 9 CHR ''0'' (num_str ?m)"
  have m: "0 \<le> ?m" "?m < 10 ^ 9" by simp_all
  have d: "0 \<le> n div 10 ^ 9" using assms by (simp add: pos_imp_zdiv_nonneg_iff)
  have len: "length (num_str ?m) \<le> 9"
    using num_str_length [of ?m 9] m by simp
  have print: "nanoToUsd n = Inr (?w @ CHR ''.'' # ?f)"
    using assms by (simp add: nanoToUsd_def bigint_divmod_nonneg NANO_USD_def)
  have "digits_val ?w * 10 ^ 9 + digits_val ?f = n"
    unfolding digits_val_pad_start num_str_val [OF d] num_str_val [OF m(1)]
    by (rule div_mult_mod_eq)
  then show ?thesis
    using that [OF print num_str_digits [OF d] num_str_nonempty
        pad_start_digits [OF num_str_digits [OF m(1)]] length_pad_start [OF len]]
    by blast
qed

lemma usd_of_nano:
  assumes "0 \<le> n" and "nanoToUsd n = Inr s"
  shows "usdToNano r (UsdStr s) = Inr n"
proof -
  obtain w f where p: "nanoToUsd n = Inr (w @ CHR ''.'' # f)"
    and d: "list_all is_digit w" "w \<noteq> []" "list_all is_digit f" and l: "length f = 9"
    and v: "digits_val w * 10 ^ 9 + digits_val f = n"
    using nanoToUsd_text [OF assms(1)] by blast
  from assms p have s: "s = w @ CHR ''.'' # f" by simp
  from l have "f \<noteq> []" by auto
  with d have "dec_match (replace_comma (js_trim s)) = Some (w, f)"
    by (simp add: s trim_print digits_no_comma dec_match_print)
  moreover have "nano_of_match r (w, f) = n"
    using v l by (simp add: nano_of_match_def Let_def NANO_USD_def pad_end_def)
  ultimately show ?thesis by (simp add: usd_from_match)
qed

lemma nanoToUsd_total: "0 \<le> n \<Longrightarrow> \<exists>s. nanoToUsd n = Inr s"
  by (simp add: nanoToUsd_def)

subsection \<open>Numbers accepted by the configuration panel\<close>

lemma strip_zeros_fraction:
  assumes "list_all is_digit w" "w \<noteq> []" "list_all is_digit f"
  shows "strip_dot (strip_zeros (w @ CHR ''.'' # f)) =
    (if strip_zeros f = [] then w else w @ CHR ''.'' # strip_zeros f)"
proof -
  show ?thesis
  proof (cases "strip_zeros f = []")
    case True
    then have "\<forall>c \<in> set f. c = CHR ''0''" by (simp add: strip_zeros_def)
    then have "strip_zeros (w @ CHR ''.'' # f) = w @ ''.''"
      by (simp add: strip_zeros_def dropWhile_append)
    with True show ?thesis by (simp add: strip_dot_def butlast_append)
  next
    case False
    then have "\<not> (\<forall>c \<in> set f. c = CHR ''0'')" by (simp add: strip_zeros_def)
    then have e: "strip_zeros (w @ CHR ''.'' # f) = w @ CHR ''.'' # strip_zeros f"
      by (auto simp: strip_zeros_def dropWhile_append)
    have "set (strip_zeros f) \<subseteq> set f"
      by (auto simp: strip_zeros_def dest: set_dropWhileD)
    then have "last (strip_zeros f) \<noteq> CHR ''.''"
      using assms(3) last_in_set [OF False] digit_not_special(2) by (auto simp: list_all_iff)
    with False e show ?thesis by (simp add: strip_dot_def)
  qed
qed

lemma to_fixed12_text:
  assumes "0 \<le> q"
  obtains w f where "to_fixed12 q = w @ CHR ''.'' # f"
    "list_all is_digit w" "w \<noteq> []" "list_all is_digit f" "length f = 12"
    "digits_val w * 10 ^ 12 + digits_val f = \<lfloor>q * 10 ^ 12 + 1 / 2\<rfloor>"
proof -
  let ?n = "\<lfloor>q * 10 ^ 12 + 1 / 2\<rfloor>"
  have n: "0 \<le> ?n" using assms by (simp add: add_increasing)
  let ?w = "num_str (?n div 10 ^ 12)" and ?m = "?n mod 10 ^ 12"
  let ?f = "pad_start 12 CHR ''0'' (num_str ?m)"
  have m: "0 \<le> ?m" "?m < 10 ^ 12" by simp_all
  have d: "0 \<le> ?n div 10 ^ 12" using n by (simp add: pos_imp_zdiv_nonneg_iff)
  have len: "length (num_str ?m) \<le> 12"
    using num_str_length [of ?m 12] m by simp
  have print: "to_fixed12 q = ?w @ CHR ''.'' # ?f"
    by (simp add: to_fixed12_def Let_def)
  have "digits_val ?w * 10 ^ 12 + digits_val ?f = ?n"
    unfolding digits_val_pad_start num_str_val [OF d] num_str_val [OF m(1)]
    by (rule div_mult_mod_eq)
  then show ?thesis
    using that [OF print num_str_digits [OF d] num_str_nonempty
        pad_start_digits [OF num_str_digits [OF m(1)]] length_pad_start [OF len]]
    by blast
qed

lemma dec_match_whole: "list_all is_digit w \<Longrightarrow> w \<noteq> [] \<Longrightarrow> dec_match w = Some (w, [])"
  by (simp add: dec_match_def Let_def takeWhile_eq_all_conv [THEN iffD2] list_all_iff
    dropWhile_eq_Nil_conv [THEN iffD2])

lemma strip_zeros_split: "f = strip_zeros f @ replicate (length f - length (strip_zeros f)) CHR ''0''"
proof -
  have "rev f = takeWhile (\<lambda>c. c = CHR ''0'') (rev f) @ dropWhile (\<lambda>c. c = CHR ''0'') (rev f)"
    by simp
  then have f: "f = strip_zeros f @ rev (takeWhile (\<lambda>c. c = CHR ''0'') (rev f))"
    by (metis rev_append rev_rev_ident strip_zeros_def)
  have "\<forall>c \<in> set (rev (takeWhile (\<lambda>c. c = CHR ''0'') (rev f))). c = CHR ''0''"
    by (auto dest: set_takeWhileD)
  then have "rev (takeWhile (\<lambda>c. c = CHR ''0'') (rev f)) =
      replicate (length (rev (takeWhile (\<lambda>c. c = CHR ''0'') (rev f)))) CHR ''0''"
    by (simp only: replicate_length_same)
  with f show ?thesis by (metis add_diff_cancel_left' length_append)
qed

lemma numberAsDecimal_text:
  assumes "0 \<le> q" "q < 10 ^ 21"
  obtains t dm where "numberAsDecimal (Fin q) = Inr t" "dec_match t = Some dm"
    "dec_value dm = of_int \<lfloor>q * 10 ^ 12 + 1 / 2\<rfloor> / 10 ^ 12"
proof -
  obtain w f where t: "to_fixed12 q = w @ CHR ''.'' # f"
    and d: "list_all is_digit w" "w \<noteq> []" "list_all is_digit f" and l: "length f = 12"
    and v: "digits_val w * 10 ^ 12 + digits_val f = \<lfloor>q * 10 ^ 12 + 1 / 2\<rfloor>"
    using to_fixed12_text [OF assms(1)] by blast
  let ?z = "strip_zeros f" and ?t = "strip_dot (strip_zeros (w @ CHR ''.'' # f))"
  have z: "list_all is_digit ?z"
    using d(3) by (auto simp: strip_zeros_def list_all_iff dest: set_dropWhileD)
  have m: "dec_match ?t = Some (w, ?z)"
    using d z by (simp add: strip_zeros_fraction dec_match_print dec_match_whole)
  have lz: "length ?z \<le> 12"
    using l by (metis length_dropWhile_le length_rev strip_zeros_def)
  have "digits_val f = digits_val ?z * 10 ^ (12 - length ?z)"
    using strip_zeros_split [of f] l by (metis digits_val_append digits_val_zeros add.right_neutral length_replicate)
  moreover have "(10::rat) ^ 12 = 10 ^ (12 - length ?z) * 10 ^ length ?z"
    using lz by (simp flip: power_add)
  ultimately have "dec_value (w, ?z) = of_int (digits_val w * 10 ^ 12 + digits_val f) / 10 ^ 12"
    by (simp add: dec_value_def field_simps)
  then have "dec_value (w, ?z) = of_int \<lfloor>q * 10 ^ 12 + 1 / 2\<rfloor> / 10 ^ 12"
    by (simp only: v)
  moreover have "numberAsDecimal (Fin q) = Inr ?t"
    using assms t by (simp add: numberAsDecimal_def)
  ultimately show ?thesis using that m by blast
qed

subsection \<open>Costs\<close>

lemma divideCeil_nonneg:
  assumes "0 \<le> n" "0 < d"
  shows "divideCeil n d = (n + d - 1) div d"
  using assms by (cases "n = 0") (simp_all add: divideCeil_def bigint_divmod_nonneg)

lemma divideCeil_mono:
  assumes "0 \<le> m" "m \<le> n" "0 < d"
  shows "divideCeil m d \<le> divideCeil n d"
  using assms by (simp add: divideCeil_nonneg zdiv_mono1)

lemma divideCeil_bounds:
  assumes "0 \<le> n" "0 < d"
  shows "n \<le> divideCeil n d * d" and "divideCeil n d * d < n + d"
proof -
  have e: "divideCeil n d * d = n + d - 1 - (n + d - 1) mod d"
    using assms by (simp add: divideCeil_nonneg minus_mod_eq_div_mult)
  show "n \<le> divideCeil n d * d" "divideCeil n d * d < n + d"
    unfolding e using pos_mod_bound [OF assms(2), of "n + d - 1"]
      pos_mod_sign [OF assms(2), of "n + d - 1"] by linarith+
qed

definition usage_nonneg :: "token_usage \<Rightarrow> bool" where
  "usage_nonneg u \<longleftrightarrow> 0 \<le> inputTokens u \<and> 0 \<le> outputTokens u
     \<and> 0 \<le> orZero (cacheReadInputTokens u) \<and> 0 \<le> orZero (cacheCreationInputTokens u)
     \<and> 0 \<le> orZero (cacheCreation5mInputTokens u) \<and> 0 \<le> orZero (cacheCreation1hInputTokens u)"

text \<open>The cache-creation tokens a usage is billed for: the split if there is one.\<close>

definition cache_creation_tokens :: "token_usage \<Rightarrow> int" where
  "cache_creation_tokens u =
     (if cacheCreation5mInputTokens u \<noteq> None \<or> cacheCreation1hInputTokens u \<noteq> None
      then orZero (cacheCreation5mInputTokens u) + orZero (cacheCreation1hInputTokens u)
      else orZero (cacheCreationInputTokens u))"

lemma cacheCreationCost_bound:
  assumes "cacheCreationCostNumerator p u = Inr cc" "usage_nonneg u"
    "usdCeil (cacheWrite5mUsdPerMtok p) = Inr r5" "usdCeil (cacheWrite1hUsdPerMtok p) = Inr r1"
    "r5 \<le> R" "r1 \<le> R"
  shows "0 \<le> cc \<and> cc \<le> R * cache_creation_tokens u"
proof -
  have nn: "0 \<le> r5" "0 \<le> r1" using assms(3,4) by (auto dest: usd_nonneg)
  show ?thesis
  proof (cases "cacheCreation5mInputTokens u \<noteq> None \<or> cacheCreation1hInputTokens u \<noteq> None")
    case True
    then have "cc = r5 * orZero (cacheCreation5mInputTokens u)
        + r1 * orZero (cacheCreation1hInputTokens u)"
      using assms(1,3,4) by (simp add: cacheCreationCostNumerator_def Let_def split: if_splits)
    moreover have "r5 * orZero (cacheCreation5mInputTokens u) \<le> R * orZero (cacheCreation5mInputTokens u)"
      "r1 * orZero (cacheCreation1hInputTokens u) \<le> R * orZero (cacheCreation1hInputTokens u)"
      using assms by (auto simp: usage_nonneg_def intro: mult_right_mono)
    ultimately show ?thesis
      using True nn assms(2) by (auto simp: cache_creation_tokens_def usage_nonneg_def distrib_left)
  next
    case False
    then have "cc = max0 [r5, r1] * orZero (cacheCreationInputTokens u)"
      using assms(1,3,4) by (simp add: cacheCreationCostNumerator_def Let_def)
    moreover have "max0 [r5, r1] \<le> R" using assms nn by (simp add: max0_le_iff)
    ultimately show ?thesis
      using False assms(2)
      by (auto simp: cache_creation_tokens_def usage_nonneg_def intro: mult_right_mono)
  qed
qed

lemma numerator_bound:
  fixes R :: int
  assumes "0 \<le> R" "ri \<le> R" "rr \<le> R" "0 \<le> ri" "0 \<le> rr" "0 \<le> ro"
    and "0 \<le> i" "0 \<le> c" "0 \<le> k" "0 \<le> ot" "cc \<le> R * k" "0 \<le> cc"
    and "i + c + k \<le> B" "ot \<le> oc"
  shows "0 \<le> ri * i + ro * ot + rr * c + cc" "ri * i + ro * ot + rr * c + cc \<le> R * B + ro * oc"
proof -
  show "0 \<le> ri * i + ro * ot + rr * c + cc" using assms by simp
  have "ri * i \<le> R * i" "rr * c \<le> R * c" using assms by (auto intro: mult_right_mono)
  moreover have "R * (i + c + k) \<le> R * B" using assms by (intro mult_left_mono) auto
  moreover have "ro * ot \<le> ro * oc" using assms by (intro mult_left_mono) auto
  ultimately show "ri * i + ro * ot + rr * c + cc \<le> R * B + ro * oc"
    using assms by (simp add: distrib_left)
qed

lemma reserveCostNano_tokensE:
  assumes "reserveCostNano p c inC outC = Inr r" "billingKind p \<noteq> Subscription"
    "settlementKind p = Tokens"
  obtains ri rr r5 r1 ro ce fx where
    "usdCeil (inputUsdPerMtok p) = Inr ri" "usdCeil (cacheReadUsdPerMtok p) = Inr rr"
    "usdCeil (cacheWrite5mUsdPerMtok p) = Inr r5" "usdCeil (cacheWrite1hUsdPerMtok p) = Inr r1"
    "usdCeil (outputUsdPerMtok p) = Inr ro"
    "(if isDocumentCodeExecution c then usdCeil (codeExecutionUsdPerRequest p) else Inr 0) = Inr ce"
    "usdCeil (fixedRequestUsd p) = Inr fx"
    "r = divideCeil (max0 [ri, rr, r5, r1] * billableInputTokenCeiling p c inC + ro * outC)
        TOKENS_PER_MTOK + fx + ce"
proof -
  have "settlementKind p \<noteq> ProviderReported" using assms(3) by simp
  with assms(1,2) show ?thesis
    unfolding reserveCostNano_def Let_def
    by (simp only: if_False rbind_eq_Inr) (elim exE conjE, rule that, (assumption | simp)+)
qed

lemma settlementCostNano_tokensE:
  assumes "settlementCostNano p c (Some u) rep = Inr (Some a)" "billingKind p \<noteq> Subscription"
    "settlementKind p = Tokens"
  obtains cc ri ro rr ce fx where
    "cacheCreationCostNumerator p u = Inr cc"
    "usdCeil (inputUsdPerMtok p) = Inr ri" "usdCeil (outputUsdPerMtok p) = Inr ro"
    "usdCeil (cacheReadUsdPerMtok p) = Inr rr"
    "(if isDocumentCodeExecution c then usdCeil (codeExecutionUsdPerRequest p) else Inr 0) = Inr ce"
    "usdCeil (fixedRequestUsd p) = Inr fx"
    "a = divideCeil (ri * inputTokens u + ro * outputTokens u
        + rr * orZero (cacheReadInputTokens u) + cc) TOKENS_PER_MTOK + fx + ce"
proof -
  have "settlementKind p \<noteq> ProviderReported" using assms(3) by simp
  with assms(1,2) show ?thesis
    unfolding settlementCostNano_def Let_def
    by (simp only: if_False option.case rbind_eq_Inr) (elim exE conjE, rule that, (assumption | simp)+)
qed

lemma code_execution_nonneg:
  "(if isDocumentCodeExecution c then usdCeil s else Inr 0) = Inr ce \<Longrightarrow> 0 \<le> ce"
  by (auto split: if_splits dest: usd_nonneg)

lemma reserveCostNano_nonneg:
  assumes "reserveCostNano p c inC outC = Inr r" "0 \<le> inC" "0 \<le> outC" "0 \<le> policyInputOverheadTokens p"
  shows "0 \<le> r"
proof (cases "billingKind p = Subscription")
  case True
  with assms(1) show ?thesis by (simp add: reserveCostNano_def)
next
  case ns: False
  show ?thesis
  proof (cases "settlementKind p = Tokens")
    case False
    then have "settlementKind p = ProviderReported" by (cases "settlementKind p") auto
    with assms(1) ns show ?thesis
      by (auto simp: reserveCostNano_def dest: usd_nonneg split: option.splits)
  next
    case True
    from assms(1) ns True obtain ri rr r5 r1 ro ce fx where
      u: "usdCeil (outputUsdPerMtok p) = Inr ro" "usdCeil (fixedRequestUsd p) = Inr fx"
        "(if isDocumentCodeExecution c then usdCeil (codeExecutionUsdPerRequest p) else Inr 0) = Inr ce"
      and r: "r = divideCeil (max0 [ri, rr, r5, r1] * billableInputTokenCeiling p c inC + ro * outC)
        TOKENS_PER_MTOK + fx + ce"
      by (rule reserveCostNano_tokensE) blast
    have B: "0 \<le> billableInputTokenCeiling p c inC"
      using assms by (simp add: billableInputTokenCeiling_def)
    have "0 \<le> ro" "0 \<le> fx" "0 \<le> ce"
      using u usd_nonneg code_execution_nonneg by blast+
    moreover have "0 \<le> divideCeil (R * billableInputTokenCeiling p c inC + ro * outC) TOKENS_PER_MTOK"
      if "0 \<le> R" for R
      using that B assms(3) \<open>0 \<le> ro\<close>
      by (simp add: divideCeil_nonneg TOKENS_PER_MTOK_def pos_imp_zdiv_nonneg_iff)
    ultimately show ?thesis unfolding r by (simp add: add_nonneg_nonneg)
  qed
qed

subsection \<open>Properties\<close>

text \<open>A decimal USD text is converted exactly: the floor of the value times \<open>10 ^ 9\<close>, or
  its ceiling, with no rounding in between, whatever the number of fraction digits.\<close>

theorem usd_decimal_exact:
  assumes "dec_match (replace_comma (js_trim s)) = Some dm"
  shows "usdToNano r (UsdStr s) = Inr (case r of
      Floor \<Rightarrow> \<lfloor>dec_value dm * 10 ^ 9\<rfloor> | Ceil \<Rightarrow> \<lceil>dec_value dm * 10 ^ 9\<rceil>)"
proof -
  obtain w f where dm: "dm = (w, f)" by (cases dm)
  with dec_match_digits [of _ w f] assms show ?thesis
    by (simp add: dm usd_from_match nano_of_match_exact cong: rounding.case_cong)
qed

theorem usd_decimal_exact_witness:
  "usdToNano Ceil (UsdStr '' 1,5 '') = Inr \<lceil>dec_value (''1'', ''5'') * 10 ^ 9\<rceil>"
proof -
  have "dec_match (replace_comma (js_trim '' 1,5 '')) = Some (''1'', ''5'')" by code_simp
  from usd_decimal_exact [OF this, of Ceil] show ?thesis by simp
qed

text \<open>C39. Printing a nano-USD amount and reading the text back, with either rounding, gives the
  amount: the nine-digit text the ledger stores loses nothing.\<close>

theorem nano_usd_roundtrip:
  assumes "0 \<le> n"
  shows "rbind (nanoToUsd n) (\<lambda>s. usdToNano r (UsdStr s)) = Inr n"
  using nanoToUsd_total [OF assms] usd_of_nano [OF assms] by auto

theorem nano_usd_roundtrip_witness:
  "rbind (nanoToUsd 1500000007) (\<lambda>s. usdToNano Ceil (UsdStr s)) = Inr 1500000007"
  by (rule nano_usd_roundtrip) simp

text \<open>A USD amount given as a finite number goes through twelve decimal places before it is
  rounded up, so the nano amount never exceeds the next nano by more than half of a thousandth
  and never falls short of the amount by more than half of a thousandth of a nano.\<close>

theorem usd_number_bounds:
  assumes "0 \<le> q" and "q < 10 ^ 21"
  shows "\<exists>n. usdToNano Ceil (UsdNum (Fin q)) = Inr n
    \<and> q * 10 ^ 9 - 1 / 2000 < of_int n \<and> of_int n < q * 10 ^ 9 + 1 + 1 / 2000"
proof -
  obtain t w f where t: "numberAsDecimal (Fin q) = Inr t" "dec_match t = Some (w, f)"
    and v: "dec_value (w, f) = of_int \<lfloor>q * 10 ^ 12 + 1 / 2\<rfloor> / 10 ^ 12"
    using numberAsDecimal_text [OF assms] by (metis surj_pair)
  let ?k = "\<lfloor>q * 10 ^ 12 + 1 / 2\<rfloor>" and ?n = "\<lceil>dec_value (w, f) * 10 ^ 9\<rceil>"
  have n: "usdToNano Ceil (UsdNum (Fin q)) = Inr ?n"
    using t dec_match_digits [OF t(2)] by (simp add: usdToNano_def nano_of_match_exact)
  obtain N :: rat where N: "N = of_int ?n" by simp
  obtain K :: rat where K: "K = of_int ?k" by simp
  have k: "K \<le> q * 10 ^ 12 + 1 / 2" "q * 10 ^ 12 + 1 / 2 < K + 1" unfolding K by linarith+
  have d: "dec_value (w, f) * 10 ^ 9 = K / 1000" by (simp add: v K)
  have "K / 1000 \<le> N" "N < K / 1000 + 1" unfolding d [symmetric] N by linarith+
  with k have "q * 10 ^ 9 - 1 / 2000 < N \<and> N < q * 10 ^ 9 + 1 + 1 / 2000"
    by (simp add: field_simps)
  then have "q * 10 ^ 9 - 1 / 2000 < of_int ?n \<and> of_int ?n < q * 10 ^ 9 + 1 + 1 / 2000"
    by (simp only: N)
  with n show ?thesis by blast
qed

theorem usd_number_bounds_witness:
  "\<exists>n. usdToNano Ceil (UsdNum (Fin (1 / 10))) = Inr n
    \<and> 1 / 10 * 10 ^ 9 - 1 / 2000 < (of_int n :: rat) \<and> of_int n < (1 / 10 * 10 ^ 9 + 1 + 1 / 2000 :: rat)"
  by (rule usd_number_bounds) simp_all

lemma settlement_le_reserve:
  assumes res: "reserveCostNano p c inC outC = Inr r"
    and stl: "settlementCostNano p c (Some u) rep = Inr (Some a)"
    and kind: "settlementKind p = Tokens"
    and nn: "usage_nonneg u"
    and inB: "inputTokens u + orZero (cacheReadInputTokens u) + cache_creation_tokens u
      \<le> billableInputTokenCeiling p c inC"
    and outB: "outputTokens u \<le> outC"
  shows "a \<le> r"
proof (cases "billingKind p = Subscription")
  case True
  with res stl show ?thesis by (simp add: reserveCostNano_def settlementCostNano_def)
next
  case False
  from res False kind obtain ri rr r5 r1 ro ce fx where
    u: "usdCeil (inputUsdPerMtok p) = Inr ri" "usdCeil (cacheReadUsdPerMtok p) = Inr rr"
      "usdCeil (cacheWrite5mUsdPerMtok p) = Inr r5" "usdCeil (cacheWrite1hUsdPerMtok p) = Inr r1"
      "usdCeil (outputUsdPerMtok p) = Inr ro" "usdCeil (fixedRequestUsd p) = Inr fx"
      "(if isDocumentCodeExecution c then usdCeil (codeExecutionUsdPerRequest p) else Inr 0) = Inr ce"
    and r: "r = divideCeil (max0 [ri, rr, r5, r1] * billableInputTokenCeiling p c inC + ro * outC)
        TOKENS_PER_MTOK + fx + ce"
    by (rule reserveCostNano_tokensE) blast
  from stl False kind u obtain cc where cc: "cacheCreationCostNumerator p u = Inr cc"
    and a: "a = divideCeil (ri * inputTokens u + ro * outputTokens u
        + rr * orZero (cacheReadInputTokens u) + cc) TOKENS_PER_MTOK + fx + ce"
    by (elim settlementCostNano_tokensE) auto
  let ?R = "max0 [ri, rr, r5, r1]"
  have R: "ri \<le> ?R" "rr \<le> ?R" "r5 \<le> ?R" "r1 \<le> ?R" by (auto intro: max0_ge)
  have c: "0 \<le> cc \<and> cc \<le> ?R * cache_creation_tokens u"
    by (rule cacheCreationCost_bound [OF cc nn u(3,4) R(3,4)])
  have k: "0 \<le> cache_creation_tokens u"
    using nn by (auto simp: usage_nonneg_def cache_creation_tokens_def)
  have "0 \<le> ri" "0 \<le> rr" "0 \<le> ro" using u by (auto dest: usd_nonneg)
  then have "0 \<le> ri * inputTokens u + ro * outputTokens u + rr * orZero (cacheReadInputTokens u) + cc"
    and "ri * inputTokens u + ro * outputTokens u + rr * orZero (cacheReadInputTokens u) + cc
      \<le> ?R * billableInputTokenCeiling p c inC + ro * outC"
    using numerator_bound [where R = ?R and k = "cache_creation_tokens u", of ri rr ro
        "inputTokens u" "orZero (cacheReadInputTokens u)" "outputTokens u" cc] nn c k R inB outB
    by (simp_all add: usage_nonneg_def)
  then show ?thesis
    unfolding a r by (simp add: divideCeil_mono TOKENS_PER_MTOK_def)
qed

text \<open>A concrete catalogue price, used by the witnesses.\<close>

definition sample_price :: price_snapshot where
  "sample_price = \<lparr>provider = ''anthropic'', model = ''m'', billingKind = Metered,
     settlementKind = Tokens, inputUsdPerMtok = ''3'', outputUsdPerMtok = ''15'',
     cacheReadUsdPerMtok = ''0.3'', cacheWrite5mUsdPerMtok = ''3.75'', cacheWrite1hUsdPerMtok = ''6'',
     fixedRequestUsd = ''0'', reservationCeilingUsd = None, codeExecutionUsdPerRequest = ''0.05'',
     policyInputOverheadTokens = DOCUMENTS_INPUT_OVERHEAD_TOKENS, validFromIso = []\<rparr>"

definition sample_usage :: token_usage where
  "sample_usage = \<lparr>inputTokens = 800, outputTokens = 50, cacheReadInputTokens = Some 100,
     cacheCreationInputTokens = None, cacheCreation5mInputTokens = Some 40,
     cacheCreation1hInputTokens = Some 60, codeExecutionRequests = None\<rparr>"

text \<open>The prices a provider route is reserved for.\<close>

definition route_prices :: "price_snapshot \<Rightarrow> price_snapshot list \<Rightarrow> consumer \<Rightarrow> price_snapshot set" where
  "route_prices requested active c =
     (if c \<in> {Agents, Embeddings} then set active else {requested})"

lemma route_reserve_dominates:
  assumes "reserveProviderRouteCostNano q ps c inC outC = Inr r" "p \<in> route_prices q ps c"
  shows "\<exists>k. reserveCostNano p c inC outC = Inr k \<and> k \<le> r"
proof -
  let ?l = "if c = Agents \<or> c = Embeddings then ps else [q]"
  obtain cs where cs: "mapM_res (\<lambda>p. reserveCostNano p c inC outC) ?l = Inr cs" and r: "r = max0 cs"
    using assms(1) unfolding reserveProviderRouteCostNano_def Let_def by (auto simp only: rbind_eq_Inr)
  have "p \<in> set ?l" using assms(2) by (auto simp: route_prices_def split: if_splits)
  from mapM_res_mem [OF cs this] r show ?thesis by (auto intro: max0_ge)
qed

text \<open>C4. A granted route reserve covers the settlement whichever active price of the route the
  provider bills (of the requested price alone for the direct consumers): if the tokens it reports
  stay below the ceilings the reserve was computed from, the settled amount never exceeds the
  reserved amount, however the input splits into fresh, cached and cache-creation tokens.\<close>

theorem reserve_covers_settlement:
  assumes "reserveProviderRouteCostNano q ps c inC outC = Inr r"
    and "p \<in> route_prices q ps c" and "settlementKind p = Tokens"
    and "settlementCostNano p c (Some u) rep = Inr (Some a)"
    and "usage_nonneg u"
    and "inputTokens u + orZero (cacheReadInputTokens u) + cache_creation_tokens u
      \<le> billableInputTokenCeiling p c inC"
    and "outputTokens u \<le> outC"
  shows "a \<le> r"
proof -
  obtain k where "reserveCostNano p c inC outC = Inr k" "k \<le> r"
    using route_reserve_dominates [OF assms(1,2)] by blast
  with settlement_le_reserve [OF _ assms(4,3,5,6,7)] show ?thesis by force
qed

lemma sample_route_reserve:
  "reserveProviderRouteCostNano sample_price
     [sample_price\<lparr>outputUsdPerMtok := ''75''\<rparr>, sample_price] Agents 1000 100 = Inr 13500000"
  by code_simp

lemma sample_settlement_agents:
  "settlementCostNano sample_price Agents (Some sample_usage) None = Inr (Some 3690000)"
  by code_simp

theorem reserve_covers_settlement_witness: "(3690000 :: int) \<le> 13500000"
  by (rule reserve_covers_settlement [OF sample_route_reserve _ _ sample_settlement_agents])
    (simp_all add: sample_price_def sample_usage_def usage_nonneg_def orZero_def route_prices_def
      cache_creation_tokens_def billableInputTokenCeiling_def isDocumentCodeExecution_def)

end
