(* ===== verification/Config.thy ===== *)
theory Config
  imports Money
begin

text \<open>
  The white list of system settings and their effective values,
  \<^verbatim>\<open>apps/core/src/system/config-spec.ts\<close>, and the two daily-cap selectors of
  \<^verbatim>\<open>llm-ledger.money.ts\<close>.  A \<open>Record<string, string | undefined>\<close> is a partial map from
  strings.  A validator returns \<open>None\<close> for an accepted value; labels, help and placeholder texts
  are not represented.  The one entry left out is \<open>PARTS_TEMPLATE_COFFEE\<close>, whose validator
  parses JSON.
\<close>

type_synonym kv = "string \<Rightarrow> string option"

datatype config_kind = KSelect | KText | KNumber | KBool

datatype config_error =
    UnknownKey
  | NotAllowed
  | NeedNonNegNumber
  | NeedPosNumber
  | NeedInRange
  | NeedAtLeast
  | NeedUrl
  | TooLong
  | NeedProviderId
  | NeedRoute

record config_spec =
  spec_key :: string
  spec_kind :: config_kind
  spec_options :: "string list option"
  spec_fallback :: "string option"
  spec_validate :: "string \<Rightarrow> config_error option"

section \<open>Validators\<close>

definition accept_if :: "bool \<Rightarrow> config_error \<Rightarrow> config_error option" where
  "accept_if b e = (if b then None else Some e)"

definition number_ok :: "(rat \<Rightarrow> bool) \<Rightarrow> string \<Rightarrow> bool" where
  "number_ok p v = (case js_number (replace_comma v) of Fin n \<Rightarrow> p n | _ \<Rightarrow> False)"

definition oneOf :: "string list \<Rightarrow> string \<Rightarrow> config_error option" where
  "oneOf opts v = accept_if (v \<in> set opts) NotAllowed"

definition nonNegNumber :: "string \<Rightarrow> config_error option" where
  "nonNegNumber v = accept_if (number_ok (\<lambda>n. n \<ge> 0) v) NeedNonNegNumber"

definition posNumber :: "string \<Rightarrow> config_error option" where
  "posNumber v = accept_if (number_ok (\<lambda>n. n \<ge> 1) v) NeedPosNumber"

definition inRange :: "rat \<Rightarrow> rat \<Rightarrow> string \<Rightarrow> config_error option" where
  "inRange lo hi v = accept_if (number_ok (\<lambda>n. n \<ge> lo \<and> n \<le> hi) v) NeedInRange"

definition atLeast :: "rat \<Rightarrow> string \<Rightarrow> config_error option" where
  "atLeast lo v = accept_if (number_ok (\<lambda>n. n \<ge> lo) v) NeedAtLeast"

text \<open>\<^verbatim>\<open>/^https?:\/\/\S+$/\<close>\<close>

definition url_text :: "string \<Rightarrow> bool" where
  "url_text v =
     (let r = (if starts_with ''https://'' v then drop 8 v
               else if starts_with ''http://'' v then drop 7 v else []) in
      r \<noteq> [] \<and> list_all (\<lambda>c. \<not> is_ws c) r)"

definition urlOrEmpty :: "string \<Rightarrow> config_error option" where
  "urlOrEmpty v = accept_if (url_text v) NeedUrl"

definition shortText :: "nat \<Rightarrow> string \<Rightarrow> config_error option" where
  "shortText n v = accept_if (length v \<le> n) TooLong"

definition is_lower_or_digit :: "char \<Rightarrow> bool" where
  "is_lower_or_digit c \<longleftrightarrow> is_digit c \<or> 97 \<le> (of_char c :: int) \<and> (of_char c :: int) \<le> 122"

text \<open>\<^verbatim>\<open>/^[a-z0-9][a-z0-9._-]{0,63}$/\<close>\<close>

definition priceProviderId :: "string \<Rightarrow> config_error option" where
  "priceProviderId v =
     accept_if (v \<noteq> [] \<and> length v \<le> 64 \<and> is_lower_or_digit (hd v)
       \<and> list_all (\<lambda>c. is_lower_or_digit c \<or> c \<in> set ''._-'') (tl v)) NeedProviderId"

text \<open>\<^verbatim>\<open>/^\s*\d{6,}(\s*,\s*\d{6,})*\s*$/\<close>: the comma-separated pieces, trimmed, are runs of at
  least six digits.\<close>

fun split_comma :: "string \<Rightarrow> string list" where
  "split_comma [] = [[]]"
| "split_comma (c # s) =
     (if c = CHR '','' then [] # split_comma s
      else case split_comma s of [] \<Rightarrow> [[c]] | p # ps \<Rightarrow> (c # p) # ps)"

definition routeOrder :: "string \<Rightarrow> config_error option" where
  "routeOrder v = accept_if
     (list_all (\<lambda>p. 6 \<le> length (js_trim p) \<and> list_all is_digit (js_trim p)) (split_comma v)) NeedRoute"

section \<open>The white list\<close>

definition LLM_PROVIDERS :: "string list" where
  "LLM_PROVIDERS = ['''', ''claude-cli'', ''claude-subscription'']"

definition LLM_PROFILE_KEYS :: "string list" where
  "LLM_PROFILE_KEYS = [''LLM_ENABLED'', ''LLM_ROUTE'', ''LLM_MODEL'', ''LLM_BASE_URL'',
     ''LLM_PRICE_PROVIDER_ID'', ''LLM_FALLBACK_MODELS'', ''LLM_GLOBAL_DAILY_BUDGET_USD'',
     ''LLM_MAX_RESERVATION_USD'']"

definition isLlmProfileKey :: "string \<Rightarrow> bool" where
  "isLlmProfileKey k \<longleftrightarrow> k \<in> set LLM_PROFILE_KEYS"

definition LLM_ROUTES :: "string list" where
  "LLM_ROUTES = [''codex-subscription'', ''openai-api'']"

definition OPENAI_LLM_BASE_URL :: string where
  "OPENAI_LLM_BASE_URL = ''https://api.openai.com/v1''"

definition OPENAI_LLM_PRICE_PROVIDER_ID :: string where
  "OPENAI_LLM_PRICE_PROVIDER_ID = ''openai''"

definition METERED_LLM_ROUTES :: "string list" where
  "METERED_LLM_ROUTES = [''openai-api'']"

definition meteredLlmRouteEnabled :: "string \<Rightarrow> string \<Rightarrow> bool" where
  "meteredLlmRouteEnabled enabled route \<longleftrightarrow> enabled = ''1'' \<and> route \<in> set METERED_LLM_ROUTES"

definition mk_spec ::
  "string \<Rightarrow> config_kind \<Rightarrow> string list option \<Rightarrow> string option
    \<Rightarrow> (string \<Rightarrow> config_error option) \<Rightarrow> config_spec" where
  "mk_spec k kd opts fb v = \<lparr>spec_key = k, spec_kind = kd, spec_options = opts,
     spec_fallback = fb, spec_validate = v\<rparr>"

definition CORE_SPECS :: "config_spec list" where
  "CORE_SPECS =
    [mk_spec ''PARTS_COUNT_PHOTO_REQUIRED'' KBool None (Some ''1'') (oneOf [''0'', ''1'']),
     mk_spec ''PARTS_DRYING_STAGE'' KBool None (Some ''1'') (oneOf [''0'', ''1'']),
     mk_spec ''COFFEE_REFILL_CONSUMES'' KBool None (Some ''1'') (oneOf [''0'', ''1'']),
     mk_spec ''VENDING_STOCK_SOURCE'' KSelect (Some [''table'', ''ledger'']) (Some ''table'') (oneOf [''table'', ''ledger'']),
     mk_spec ''OWNER_IDENTITY_ENFORCED'' KBool None (Some ''0'') (oneOf [''0'', ''1'']),
     mk_spec ''AGENT_AUTONOMY_MAX'' KSelect (Some [''T0'', ''T1'', ''T2'', ''T3'', ''T4'']) (Some ''T0'') (oneOf [''T0'', ''T1'', ''T2'', ''T3'', ''T4'']),
     mk_spec ''AGENTS_SCHEDULES_PAUSED'' KBool None (Some ''1'') (oneOf [''0'', ''1'']),
     mk_spec ''AGENTS_TASKS_PAUSED'' KBool None (Some ''1'') (oneOf [''0'', ''1'']),
     mk_spec ''AGENT_DAILY_BUDGET_USD'' KNumber None (Some ''5'') (nonNegNumber)]"

definition LLM_SPECS :: "config_spec list" where
  "LLM_SPECS =
    [mk_spec ''LLM_ENABLED'' KBool None (Some ''0'') (oneOf [''0'', ''1'']),
     mk_spec ''LLM_ROUTE'' KSelect (Some LLM_ROUTES) (Some ''openai-api'') (oneOf LLM_ROUTES),
     mk_spec ''LLM_MODEL'' KText None (Some ''gpt-5.6-sol'') (shortText 128),
     mk_spec ''LLM_BASE_URL'' KText None (Some OPENAI_LLM_BASE_URL) (urlOrEmpty),
     mk_spec ''LLM_PRICE_PROVIDER_ID'' KText None (Some OPENAI_LLM_PRICE_PROVIDER_ID) (priceProviderId),
     mk_spec ''LLM_FALLBACK_MODELS'' KText None None (shortText 512),
     mk_spec ''LLM_GLOBAL_DAILY_BUDGET_USD'' KNumber None (Some ''10'') (nonNegNumber),
     mk_spec ''LLM_MAX_RESERVATION_USD'' KNumber None (Some ''3'') (nonNegNumber),
     mk_spec ''AGENT_GLOBAL_BUDGET_USD'' KNumber None (Some ''5'') (nonNegNumber),
     mk_spec ''LLM_PROVIDER'' KSelect (Some LLM_PROVIDERS) None (oneOf LLM_PROVIDERS),
     mk_spec ''EMBED_BASE_URL'' KText None None (urlOrEmpty),
     mk_spec ''EMBED_PRICE_PROVIDER_ID'' KText None None (priceProviderId),
     mk_spec ''EMBED_MODEL'' KText None None (shortText 128)]"

definition VENDING_SPECS :: "config_spec list" where
  "VENDING_SPECS =
    [mk_spec ''VENDING_ROUTE_ORDER'' KText None None (routeOrder),
     mk_spec ''SHRINK_ALERT_UZS'' KNumber None (Some ''30000'') (nonNegNumber),
     mk_spec ''REFILL_DETECT_MIN_UNITS'' KNumber None (Some ''10'') (nonNegNumber),
     mk_spec ''SNACK_CANCEL_WINDOW_HOURS'' KNumber None (Some ''24'') (inRange 1 720),
     mk_spec ''TASK_BRIDGE_ENABLED'' KBool None (Some ''1'') (oneOf [''0'', ''1'']),
     mk_spec ''TASK_BRIDGE_MAX_PER_RUN'' KNumber None (Some ''20'') (inRange 1 200),
     mk_spec ''DEAD_STOCK_DAYS'' KNumber None (Some ''21'') (posNumber),
     mk_spec ''PRICE_CHANGE_PCT'' KNumber None (Some ''5'') (nonNegNumber),
     mk_spec ''PRICE_GAP_PCT'' KNumber None (Some ''5'') (nonNegNumber),
     mk_spec ''COST_WINDOW_DAYS'' KNumber None (Some ''90'') (posNumber),
     mk_spec ''MARGIN_LOW_PCT'' KNumber None (Some ''15'') (nonNegNumber),
     mk_spec ''SYNC_STALE_HOURS'' KNumber None (Some ''6'') (posNumber),
     mk_spec ''COFFEE_ORDERS_STALE_DAYS'' KNumber None (Some ''3'') (posNumber)]"

definition ACCOUNTING_SPECS :: "config_spec list" where
  "ACCOUNTING_SPECS =
    [mk_spec ''OURVEND_ACCOUNTING_SOURCE'' KSelect (Some ['''', ''stock'', ''own'']) (Some ''stock'') (oneOf ['''', ''stock'', ''own'']),
     mk_spec ''CUTOVER_GREEN_DAYS'' KNumber None (Some ''7'') (inRange 1 60),
     mk_spec ''STOCK_PARITY_TOLERANCE'' KNumber None (Some ''3'') (nonNegNumber),
     mk_spec ''SNAPSHOT_STALE_HOURS'' KNumber None (Some ''36'') (posNumber),
     mk_spec ''SNAPSHOT_RETENTION_DAYS'' KNumber None (Some ''180'') (atLeast 180),
     mk_spec ''STOCK_COUNT_RETENTION_DAYS'' KNumber None (Some ''730'') (atLeast 730),
     mk_spec ''GR_COMMISSION_METHOD'' KSelect (Some [''flat_bonus'', ''margin_rate'', ''tiers'']) (Some ''flat_bonus'') (oneOf [''flat_bonus'', ''margin_rate'', ''tiers'']),
     mk_spec ''GR_COMMISSION_RATE_PCT'' KNumber None (Some ''8'') (nonNegNumber)]"

definition CONFIG_SPECS :: "config_spec list" where
  "CONFIG_SPECS = CORE_SPECS @ LLM_SPECS @ VENDING_SPECS @ ACCOUNTING_SPECS"

definition specFor :: "string \<Rightarrow> config_spec option" where
  "specFor k = find (\<lambda>s. spec_key s = k) CONFIG_SPECS"

definition validateConfig :: "string \<Rightarrow> string \<Rightarrow> config_error option" where
  "validateConfig k value =
     (case specFor k of
        None \<Rightarrow> Some UnknownKey
      | Some s \<Rightarrow> if js_trim value = [] then None else spec_validate s (js_trim value))"

section \<open>Effective values\<close>

datatype value_source = FromDb | FromEnv | FromDefault

definition text_at :: "kv \<Rightarrow> string \<Rightarrow> string" where
  "text_at m k = js_trim (case m k of None \<Rightarrow> [] | Some v \<Rightarrow> v)"

text \<open>The \<open>value\<close> and \<open>source\<close> of the effective item; its other fields copy the spec.\<close>

definition resolveEffective :: "config_spec \<Rightarrow> kv \<Rightarrow> kv \<Rightarrow> string \<times> value_source" where
  "resolveEffective s db env =
     (let dbVal = text_at db (spec_key s);
          envVal = text_at env (spec_key s);
          isCap = (spec_key s = ''LLM_GLOBAL_DAILY_BUDGET_USD'');
          legacyDbVal = (if isCap then text_at db ''AGENT_GLOBAL_BUDGET_USD'' else []);
          legacyEnvVal = (if isCap then text_at env ''AGENT_GLOBAL_BUDGET_USD'' else []) in
      if dbVal \<noteq> [] then (dbVal, FromDb)
      else if envVal \<noteq> [] then (envVal, FromEnv)
      else if legacyDbVal \<noteq> [] then (legacyDbVal, FromDb)
      else if legacyEnvVal \<noteq> [] then (legacyEnvVal, FromEnv)
      else ((case spec_fallback s of None \<Rightarrow> [] | Some f \<Rightarrow> f), FromDefault))"

definition resolveConfigValue :: "string \<Rightarrow> kv \<Rightarrow> kv \<Rightarrow> config_error + string" where
  "resolveConfigValue k db env =
     (case specFor k of
        None \<Rightarrow> Inl UnknownKey
      | Some s \<Rightarrow> Inr (fst (resolveEffective s db env)))"

definition resolveAll :: "kv \<Rightarrow> kv \<Rightarrow> (string \<times> string \<times> value_source) list" where
  "resolveAll db env = map (\<lambda>s. (spec_key s, resolveEffective s db env)) CONFIG_SPECS"

section \<open>Reading a setting\<close>

definition settingValue :: "kv \<Rightarrow> kv \<Rightarrow> string \<Rightarrow> string" where
  "settingValue db env k =
     (case specFor k of None \<Rightarrow> [] | Some s \<Rightarrow> fst (resolveEffective s db env))"

text \<open>The logged warning has no effect on the result.\<close>

definition readIntSetting :: "kv \<Rightarrow> kv \<Rightarrow> string \<Rightarrow> rat \<Rightarrow> rat" where
  "readIntSetting db env k fallback =
     (let raw = js_trim (settingValue db env k) in
      if raw = [] then fallback
      else case js_number (replace_comma raw) of
        Fin n \<Rightarrow> if n \<ge> 0 then n else fallback
      | _ \<Rightarrow> fallback)"

section \<open>Daily caps\<close>

fun firstNonEmpty :: "string option list \<Rightarrow> string" where
  "firstNonEmpty [] = []"
| "firstNonEmpty (v # vs) =
     (let trimmed = (case v of None \<Rightarrow> [] | Some s \<Rightarrow> js_trim s) in
      if trimmed \<noteq> [] then trimmed else firstNonEmpty vs)"

definition globalCapValue :: "kv \<Rightarrow> kv \<Rightarrow> string" where
  "globalCapValue db env = firstNonEmpty
     [db ''LLM_GLOBAL_DAILY_BUDGET_USD'', env ''LLM_GLOBAL_DAILY_BUDGET_USD'',
      db ''AGENT_GLOBAL_BUDGET_USD'', env ''AGENT_GLOBAL_BUDGET_USD'', Some ''10'']"

definition agentCapValue :: "string option \<Rightarrow> kv \<Rightarrow> kv \<Rightarrow> string" where
  "agentCapValue cardValue db env = firstNonEmpty
     [cardValue, db ''AGENT_DAILY_BUDGET_USD'', env ''AGENT_DAILY_BUDGET_USD'', Some ''5'']"

section \<open>Lookups in the white list\<close>

lemma specFor_key: "specFor k = Some s \<Longrightarrow> spec_key s = k \<and> s \<in> set CONFIG_SPECS"
  by (auto simp: specFor_def find_Some_iff in_set_conv_nth)

lemma specFor_cap:
  "specFor ''LLM_GLOBAL_DAILY_BUDGET_USD'' =
    Some (mk_spec ''LLM_GLOBAL_DAILY_BUDGET_USD'' KNumber None (Some ''10'') nonNegNumber)"
  by (simp add: specFor_def CONFIG_SPECS_def CORE_SPECS_def LLM_SPECS_def mk_spec_def)

lemma specFor_legacy_cap:
  "specFor ''AGENT_GLOBAL_BUDGET_USD'' =
    Some (mk_spec ''AGENT_GLOBAL_BUDGET_USD'' KNumber None (Some ''5'') nonNegNumber)"
  by (simp add: specFor_def CONFIG_SPECS_def CORE_SPECS_def LLM_SPECS_def mk_spec_def)

lemma specFor_agent_cap:
  "specFor ''AGENT_DAILY_BUDGET_USD'' =
    Some (mk_spec ''AGENT_DAILY_BUDGET_USD'' KNumber None (Some ''5'') nonNegNumber)"
  by (simp add: specFor_def CONFIG_SPECS_def CORE_SPECS_def LLM_SPECS_def mk_spec_def)

lemma specFor_max_reservation:
  "specFor ''LLM_MAX_RESERVATION_USD'' =
    Some (mk_spec ''LLM_MAX_RESERVATION_USD'' KNumber None (Some ''3'') nonNegNumber)"
  by (simp add: specFor_def CONFIG_SPECS_def CORE_SPECS_def LLM_SPECS_def mk_spec_def)

lemmas specFor_money = specFor_cap specFor_legacy_cap specFor_agent_cap specFor_max_reservation

lemma nonNeg_usd:
  assumes "js_number (replace_comma (js_trim v)) = Fin q" "0 \<le> q" "q < 10 ^ 21"
  shows "\<exists>n. usdToNano r (UsdStr v) = Inr n"
proof (cases "dec_match (replace_comma (js_trim v))")
  case (Some dm)
  then show ?thesis by (simp add: usdToNano_def Let_def)
next
  case None
  obtain t dm where "numberAsDecimal (Fin q) = Inr t" "dec_match t = Some dm"
    using numberAsDecimal_text [OF assms(2,3)] by metis
  with None assms show ?thesis by (simp add: usdToNano_def Let_def)
qed

lemma js_trim_Nil [simp]: "js_trim [] = []"
  by (rule trim_id) simp

lemma firstNonEmpty_at:
  "firstNonEmpty (m k # vs) = (if text_at m k \<noteq> [] then text_at m k else firstNonEmpty vs)"
  by (cases "m k") (simp_all add: text_at_def Let_def)

lemma firstNonEmpty_None: "firstNonEmpty (None # vs) = firstNonEmpty vs"
  by (simp add: Let_def)

lemma firstNonEmpty_default: "firstNonEmpty [Some ''10''] = ''10''" "firstNonEmpty [Some ''5''] = ''5''"
  by (simp_all add: Let_def js_trim_def trim_start_def trim_end_def is_ws_def)

lemma number_1e3: "js_number ''1e3'' = Fin 1000"
  using to_double_int [of 1000] by (simp add: number_text_defs)

lemma number_1e21: "js_number ''1e21'' = Fin (10 ^ 21)"
  using to_double_dyadic [of "5 ^ 21" 21] by (simp add: number_text_defs)

section \<open>Properties\<close>

text \<open>The cap the ledger enforces is the value the settings panel shows: the two selectors,
  written separately in the code, give the same text for every database and environment.\<close>

theorem cap_agrees_with_panel:
  "resolveConfigValue ''LLM_GLOBAL_DAILY_BUDGET_USD'' db env = Inr (globalCapValue db env)
   \<and> resolveConfigValue ''AGENT_DAILY_BUDGET_USD'' db env = Inr (agentCapValue None db env)"
  by (simp add: resolveConfigValue_def specFor_money resolveEffective_def mk_spec_def Let_def
      globalCapValue_def agentCapValue_def firstNonEmpty_at [of db] firstNonEmpty_at [of env]
      firstNonEmpty_None firstNonEmpty_default
      del: firstNonEmpty.simps)

text \<open>A budget the panel accepts is a budget the ledger can use: every non-empty accepted value
  below \<open>10 ^ 21\<close> is converted to nano-USD, exponent notation included.\<close>

theorem panel_budget_usable:
  assumes "k \<in> {''LLM_GLOBAL_DAILY_BUDGET_USD'', ''AGENT_GLOBAL_BUDGET_USD'',
      ''AGENT_DAILY_BUDGET_USD'', ''LLM_MAX_RESERVATION_USD''}"
    and "validateConfig k v = None" and "js_trim v \<noteq> []"
    and "\<forall>q. js_number (replace_comma (js_trim v)) = Fin q \<longrightarrow> q < 10 ^ 21"
  shows "\<exists>n. usdToNano r (UsdStr v) = Inr n"
proof -
  have "nonNegNumber (js_trim v) = None"
    using assms(1-3) by (auto simp: validateConfig_def specFor_money mk_spec_def)
  then obtain q where "js_number (replace_comma (js_trim v)) = Fin q" "0 \<le> q"
    by (auto simp: nonNegNumber_def accept_if_def number_ok_def split: if_splits jsnum.splits)
  with assms(4) show ?thesis by (intro nonNeg_usd) auto
qed

theorem panel_budget_usable_witness:
  "\<exists>n. usdToNano Floor (UsdStr ''1e3'') = Inr n"
proof (rule panel_budget_usable [where k = "''LLM_MAX_RESERVATION_USD''"])
  have t: "js_trim ''1e3'' = ''1e3''" "replace_comma ''1e3'' = ''1e3''" by code_simp+
  show "validateConfig ''LLM_MAX_RESERVATION_USD'' ''1e3'' = None"
    by (simp add: validateConfig_def specFor_money mk_spec_def t nonNegNumber_def accept_if_def
        number_ok_def number_1e3)
  show "\<forall>q. js_number (replace_comma (js_trim ''1e3'')) = Fin q \<longrightarrow> q < 10 ^ 21"
    by (simp add: t number_1e3)
  show "js_trim ''1e3'' \<noteq> []" by (simp add: t)
qed simp

text \<open>The bound is needed: the panel accepts \<open>1e21\<close>, and the ledger's conversion rejects it
  (\<open>toFixed\<close> prints such numbers in exponent notation).\<close>

theorem panel_accepts_unusable_budget:
  "validateConfig ''LLM_GLOBAL_DAILY_BUDGET_USD'' ''1e21'' = None
   \<and> usdToNano Floor (UsdStr ''1e21'') = Inl BadUsd"
proof
  have t: "js_trim ''1e21'' = ''1e21''" "replace_comma ''1e21'' = ''1e21''"
    "dec_match ''1e21'' = None" "dec_match ''e'' = None" by code_simp+
  show "validateConfig ''LLM_GLOBAL_DAILY_BUDGET_USD'' ''1e21'' = None"
    by (simp add: validateConfig_def specFor_money mk_spec_def t nonNegNumber_def accept_if_def
        number_ok_def number_1e21)
  show "usdToNano Floor (UsdStr ''1e21'') = Inl BadUsd"
    by (simp add: usdToNano_def t number_1e21 numberAsDecimal_def)
qed

end
