(* ===== verification/Json.thy ===== *)
theory Json
  imports JsNumber "HOL-Library.List_Lexorder" "HOL-Library.Multiset"
begin

text \<open>
  JSON values as the ledger stores and hashes them, and \<open>canonical\<close> of
  \<^verbatim>\<open>llm-ledger.money.ts\<close>.  An object is the association list of its own enumerable
  properties in insertion order; an absent or \<open>undefined\<close> property is not in the list.
\<close>

datatype json =
    JNull
  | JBool bool
  | JNum jsnum
  | JStr string
  | JArr "json list"
  | JObj "(string \<times> json) list"

abbreviation JInt :: "int \<Rightarrow> json" where
  "JInt n \<equiv> JNum (Fin (of_int n))"

definition obj_of :: "json \<Rightarrow> (string \<times> json) list" where
  "obj_of j = (case j of JObj kvs \<Rightarrow> kvs | _ \<Rightarrow> [])"

text \<open>A property of a value that may not be an object; assignment of a property.\<close>

definition get_prop :: "json \<Rightarrow> string \<Rightarrow> json option" where
  "get_prop j k = map_of (obj_of j) k"

definition obj_put :: "string \<Rightarrow> json \<Rightarrow> (string \<times> json) list \<Rightarrow> (string \<times> json) list" where
  "obj_put k v kvs =
     (if k \<in> fst ` set kvs then map (\<lambda>p. if fst p = k then (k, v) else p) kvs else kvs @ [(k, v)])"

definition obj_del :: "string \<Rightarrow> (string \<times> json) list \<Rightarrow> (string \<times> json) list" where
  "obj_del k kvs = filter (\<lambda>p. fst p \<noteq> k) kvs"

text \<open>An optional property of an object literal, \<open>...(v ? { k: v } : {})\<close>.\<close>

definition opt_prop :: "string \<Rightarrow> ('a \<Rightarrow> json) \<Rightarrow> 'a option \<Rightarrow> (string \<times> json) list" where
  "opt_prop k f v = (case v of None \<Rightarrow> [] | Some x \<Rightarrow> [(k, f x)])"

lemma json_size_prop: "p \<in> set kvs \<Longrightarrow> size (snd p) < Suc (size_list (size_prod (\<lambda>_. 0) size) kvs)"
  by (induction kvs) auto

fun canonical :: "json \<Rightarrow> json" where
  "canonical (JArr vs) = JArr (map canonical vs)"
| "canonical (JObj kvs) = JObj (sort_key fst (map (\<lambda>p. (fst p, canonical (snd p))) kvs))"
| "canonical v = v"

lemma map_of_obj_put: "map_of (obj_put k v kvs) = (map_of kvs)(k \<mapsto> v)"
proof -
  have "map_of (map (\<lambda>p. if fst p = k then (k, v) else p) kvs) k' =
      (if k' = k \<and> k \<in> fst ` set kvs then Some v else map_of kvs k')" for k'
    by (induction kvs) force+
  moreover have "map_of (kvs @ [(k, v)]) = (map_of kvs)(k \<mapsto> v)" if "k \<notin> fst ` set kvs"
    using that by (induction kvs) auto
  ultimately show ?thesis by (auto simp: obj_put_def fun_eq_iff)
qed

lemma get_prop_put [simp]: "get_prop (JObj (obj_put k v kvs)) k' = (if k' = k then Some v else get_prop (JObj kvs) k')"
  by (simp add: get_prop_def obj_of_def map_of_obj_put)

lemma map_of_obj_del: "map_of (obj_del k kvs) k' = (if k' = k then None else map_of kvs k')"
  by (induction kvs) (auto simp: obj_del_def)

section \<open>Key order does not matter\<close>

text \<open>Two values that differ only in the order of object keys, at any depth.\<close>

inductive same_json :: "json \<Rightarrow> json \<Rightarrow> bool" where
  same_refl: "same_json v v"
| same_arr: "list_all2 same_json vs ws \<Longrightarrow> same_json (JArr vs) (JArr ws)"
| same_obj: "mset kvs' = mset kvs \<Longrightarrow> distinct (map fst kvs)
    \<Longrightarrow> list_all2 (\<lambda>p q. fst p = fst q \<and> same_json (snd p) (snd q)) kvs ws
    \<Longrightarrow> same_json (JObj kvs') (JObj ws)"
monos list_all2_mono

lemma sort_distinct_keys:
  fixes xs ys :: "(string \<times> 'a) list"
  assumes "mset xs = mset ys" "distinct (map fst ys)"
  shows "sort_key fst xs = sort_key fst ys"
  using assms by (intro sort_key_eq_sort_key)
    (auto simp: distinct_map dest: mset_eq_setD)

text \<open>The payload that is hashed does not depend on the order in which a client lists object
  keys, at any depth: a retry with reordered metadata has the same canonical form.\<close>

theorem canonical_ignores_key_order:
  assumes "same_json v w"
  shows "canonical v = canonical w"
  using assms
proof induction
  case (same_refl v)
  show ?case by simp
next
  case (same_arr vs ws)
  then have "map canonical vs = map canonical ws"
    by (auto simp: list_all2_conv_all_nth list_eq_iff_nth_eq)
  then show ?case by simp
next
  case (same_obj kvs' kvs ws)
  let ?f = "\<lambda>p. (fst p, canonical (snd p))"
  have "map ?f kvs = map ?f ws"
    using same_obj(3) by (auto simp: list_all2_conv_all_nth list_eq_iff_nth_eq)
  moreover have "sort_key fst (map ?f kvs') = sort_key fst (map ?f kvs)"
    using same_obj(1,2) by (intro sort_distinct_keys) (simp_all add: o_def)
  ultimately show ?case by simp
qed

theorem canonical_ignores_key_order_witness:
  "canonical (JObj [(''b'', JNull), (''a'', JInt 1)]) = canonical (JObj [(''a'', JInt 1), (''b'', JNull)])"
  by (rule canonical_ignores_key_order, rule same_obj [where kvs = "[(''a'', JInt 1), (''b'', JNull)]"])
    (simp_all add: same_refl)

end
