(* ===== verification/TashkentTime.thy ===== *)
theory TashkentTime
  imports Prelude
begin

text \<open>
  Tashkent time, \<^verbatim>\<open>packages/shared/src/tashkent-time.ts\<close>.  A \<open>Date\<close> is its epoch time in
  milliseconds.  The code names a calendar day by the text \<open>YYYY-MM-DD\<close> of the shifted instant;
  here a day is the number of that day since the epoch and \<open>day_text\<close> prints it, likewise a
  minute.  The lemmas say that the day intervals tile the time line.
\<close>

definition TASHKENT_OFFSET_MS :: int where
  "TASHKENT_OFFSET_MS = 5 * 3600000"

definition DAY_MS :: int where
  "DAY_MS = 86400000"

definition tashkentDay :: "int \<Rightarrow> int" where
  "tashkentDay t = (t + TASHKENT_OFFSET_MS) div DAY_MS"

text \<open>\<open>T00:00:00.000+05:00\<close> and \<open>T23:59:59.999+05:00\<close> of a calendar day.\<close>

definition tashkentDayStart :: "int \<Rightarrow> int" where
  "tashkentDayStart day = day * DAY_MS - TASHKENT_OFFSET_MS"

definition tashkentDayEnd :: "int \<Rightarrow> int" where
  "tashkentDayEnd day = tashkentDayStart day + (DAY_MS - 1)"

definition tashkentDayStartOf :: "int \<Rightarrow> int" where
  "tashkentDayStartOf t = tashkentDayStart (tashkentDay t)"

definition tashkentHour :: "int \<Rightarrow> int" where
  "tashkentHour t = (t + TASHKENT_OFFSET_MS) mod DAY_MS div 3600000"

definition tashkentMinute :: "int \<Rightarrow> int" where
  "tashkentMinute t = (t + TASHKENT_OFFSET_MS) div 60000"

section \<open>Printing an instant\<close>

text \<open>Year, month and day of a day number, in the proleptic Gregorian calendar.\<close>

definition civil :: "int \<Rightarrow> int \<times> int \<times> int" where
  "civil days =
     (let z = days + 719468; era = z div 146097; doe = z mod 146097;
          yoe = (doe - doe div 1460 + doe div 36524 - doe div 146096) div 365;
          doy = doe - (365 * yoe + yoe div 4 - yoe div 100);
          mp = (5 * doy + 2) div 153;
          d = doy - (153 * mp + 2) div 5 + 1;
          m = (if mp < 10 then mp + 3 else mp - 9)
      in (yoe + era * 400 + (if m \<le> 2 then 1 else 0), m, d))"

definition pad_num :: "nat \<Rightarrow> int \<Rightarrow> string" where
  "pad_num n v = pad_start n CHR ''0'' (num_str v)"

definition year_text :: "int \<Rightarrow> string" where
  "year_text y =
     (if 0 \<le> y \<and> y \<le> 9999 then pad_num 4 y
      else (if y < 0 then ''-'' else ''+'') @ pad_num 6 \<bar>y\<bar>)"

definition day_text :: "int \<Rightarrow> string" where
  "day_text day = (case civil day of (y, m, d) \<Rightarrow>
     year_text y @ ''-'' @ pad_num 2 m @ ''-'' @ pad_num 2 d)"

definition iso_text :: "int \<Rightarrow> string" where
  "iso_text t =
     (let ms = t mod DAY_MS in
      day_text (t div DAY_MS) @ ''T'' @ pad_num 2 (ms div 3600000) @ '':''
        @ pad_num 2 (ms div 60000 mod 60) @ '':'' @ pad_num 2 (ms div 1000 mod 60) @ ''.''
        @ pad_num 3 (ms mod 1000) @ ''Z'')"

section \<open>Day intervals\<close>

lemma day_unique:
  "tashkentDay t = day \<longleftrightarrow> tashkentDayStart day \<le> t \<and> t \<le> tashkentDayEnd day"
proof -
  let ?z = "t + TASHKENT_OFFSET_MS"
  have e: "?z div DAY_MS * DAY_MS + ?z mod DAY_MS = ?z" by (rule div_mult_mod_eq)
  have m: "0 \<le> ?z mod DAY_MS" "?z mod DAY_MS < DAY_MS" by (simp_all add: DAY_MS_def)
  show ?thesis
  proof
    assume "tashkentDay t = day"
    with e m show "tashkentDayStart day \<le> t \<and> t \<le> tashkentDayEnd day"
      unfolding tashkentDayEnd_def tashkentDayStart_def tashkentDay_def by auto
  next
    assume "tashkentDayStart day \<le> t \<and> t \<le> tashkentDayEnd day"
    then have "0 \<le> ?z - day * DAY_MS" "?z - day * DAY_MS < DAY_MS"
      unfolding tashkentDayEnd_def tashkentDayStart_def by auto
    then have "(?z - day * DAY_MS) div DAY_MS = 0" by (rule div_pos_pos_trivial)
    moreover have "?z div DAY_MS = day + (?z - day * DAY_MS) div DAY_MS"
      using div_mult_self1 [of DAY_MS "?z - day * DAY_MS" day] by (simp add: DAY_MS_def)
    ultimately show "tashkentDay t = day" unfolding tashkentDay_def by simp
  qed
qed

lemma day_bounds:
  "tashkentDayStart (tashkentDay t) \<le> t" "t \<le> tashkentDayEnd (tashkentDay t)"
  using day_unique [of t "tashkentDay t"] by simp_all

lemma day_mono: "a \<le> b \<Longrightarrow> tashkentDay a \<le> tashkentDay b"
  unfolding tashkentDay_def DAY_MS_def by (rule zdiv_mono1) simp_all

lemma day_start_end: "tashkentDayStart (day + 1) = tashkentDayEnd day + 1"
  by (simp add: tashkentDayStart_def tashkentDayEnd_def DAY_MS_def)

end
