(* ===== verification/LedgerState.thy ===== *)
theory LedgerState
  imports Config Json TashkentTime
begin

text \<open>
  The tables of the LLM ledger (\<^verbatim>\<open>packages/db/src/schema.ts\<close>: \<open>llm_model_price\<close>,
  \<open>llm_spend\<close>, the agent columns the ledger reads) and the helpers of
  \<^verbatim>\<open>apps/core/src/llm-ledger/llm-ledger.service.ts\<close> that read them.

  A money column of scale 9 holds a whole number of nano-USD; the code prints the number with
  \<open>nanoToUsd\<close> when it writes and converts the text with \<open>usdToNano\<close> when it reads, which is the
  identity by \<open>nano_usd_roundtrip\<close>, so a column is the \<open>int\<close> of nano-USD.  Error messages are
  constructors.  SHA-256 with JSON serialization is the parameter \<open>H\<close>, applied to the canonical
  value.  A transaction that throws changes nothing: it is an \<open>Inl\<close> without a state.
\<close>

section \<open>Rows\<close>

datatype anomaly_kind = MissingResolvedModel | ResolvedModelMismatch | MissingUsageOrCost

record anomaly =
  an_kind :: anomaly_kind
  an_circuitOpen :: bool
  an_requestedModel :: string
  an_resolvedModel :: "string option"

datatype denial =
    LlmDisabled
  | BadReservationCap
  | TierBlocked
  | BadGlobalCap
  | BadAgentCap
  | AgentRequired consumer
  | AgentNotFound string
  | ProviderCircuitOpen string
  | NoActivePrice
  | PriceUnusable money_error
  | OverReservationCap int int
  | OverGlobalCap int
  | OverAgentCap string
  | OtherDay int int
  | GlobalExposureOverCap int int
  | AgentExposureOverCap
  | PayloadDiffers
  | AlreadyClosed spend_status
  | PriceGone
  | StoredSnapshotBroken
  | PriceChanged
  | RouteReserveHigher int int

datatype spend_reason = Text string | Denial denial | Anomaly anomaly

record spend =
  sp_id :: string
  sp_requestKey :: string
  sp_requestHash :: string
  sp_settlementHash :: "string option"
  sp_traceKey :: "string option"
  sp_consumer :: consumer
  sp_feature :: string
  sp_agentId :: "string option"
  sp_agentName :: "string option"
  sp_provider :: string
  sp_model :: string
  sp_resolvedModel :: "string option"
  sp_priceId :: "string option"
  sp_priceSnapshot :: json
  sp_status :: spend_status
  sp_outcome :: "settlement_outcome option"
  sp_day :: int
  sp_inputTokenCeiling :: int
  sp_outputTokenCeiling :: int
  sp_reserved :: int
  sp_actual :: "int option"
  sp_usage :: "token_usage option"
  sp_providerRequestId :: "string option"
  sp_reason :: "spend_reason option"
  sp_metadata :: json
  sp_reservedAt :: "int option"
  sp_settledAt :: "int option"
  sp_failedAt :: "int option"
  sp_releasedAt :: "int option"
  sp_deniedAt :: "int option"
  sp_createdAt :: int
  sp_updatedAt :: int

record price_row =
  pr_id :: string
  pr_price :: price_snapshot
  pr_validFrom :: int
  pr_validTo :: "int option"

record agent_row =
  ag_id :: string
  ag_name :: string
  ag_archived :: bool
  ag_budgetPerDayUsd :: "string option"
  ag_budgetOnExceeded :: "string option"

text \<open>\<open>db_taskSpends\<close>: the spend ids the task LLM jobs (\<open>agent_task_llm_job\<close>) link to.\<close>

record ledger_db =
  db_spends :: "spend list"
  db_prices :: "price_row list"
  db_agents :: "agent_row list"
  db_config :: "kv"
  db_taskSpends :: "string list"

datatype ledger_error =
    SpendNotFound
  | ClosedByOtherSettlement
  | WrongStatus spend_status
  | TaskJobSpend
  | SnapshotInvalid
  | CacheSplitRejected
  | TariffError money_error
  | ConfigError config_error
  | UniqueViolation
  | NumericOverflow
  | CheckViolation
  | ClockExhausted

datatype lock_key = ProviderLock string | RequestLock string | BudgetLock int

definition of_money :: "money_error + 'a \<Rightarrow> ledger_error + 'a" where
  "of_money r = (case r of Inl e \<Rightarrow> Inl (TariffError e) | Inr x \<Rightarrow> Inr x)"

definition of_config :: "config_error + 'a \<Rightarrow> ledger_error + 'a" where
  "of_config r = (case r of Inl e \<Rightarrow> Inl (ConfigError e) | Inr x \<Rightarrow> Inr x)"

lemma of_money_Inr [simp]: "of_money r = Inr x \<longleftrightarrow> r = Inr x"
  by (cases r) (simp_all add: of_money_def)

lemma of_config_Inr [simp]: "of_config r = Inr x \<longleftrightarrow> r = Inr x"
  by (cases r) (simp_all add: of_config_def)

section \<open>Table access\<close>

definition spend_where :: "(spend \<Rightarrow> bool) \<Rightarrow> ledger_db \<Rightarrow> spend option" where
  "spend_where p db = find p (db_spends db)"

definition update_spend :: "string \<Rightarrow> (spend \<Rightarrow> spend) \<Rightarrow> ledger_db \<Rightarrow> ledger_db" where
  "update_spend i f db =
     db\<lparr>db_spends := map (\<lambda>r. if sp_id r = i then f r else r) (db_spends db)\<rparr>"

text \<open>The numeric(24, 9) range, the integer range and the check constraints of \<open>llm_spend\<close>.\<close>

definition NUMERIC_LIMIT :: int where
  "NUMERIC_LIMIT = 10 ^ 24"

definition INTEGER_LIMIT :: int where
  "INTEGER_LIMIT = 2 ^ 31"

definition usage_columns :: "token_usage \<Rightarrow> int list" where
  "usage_columns u = [inputTokens u, outputTokens u] @ concat (map (\<lambda>c. case c of None \<Rightarrow> [] | Some n \<Rightarrow> [n])
     [cacheReadInputTokens u, cacheCreationInputTokens u, cacheCreation5mInputTokens u,
      cacheCreation1hInputTokens u, codeExecutionRequests u])"

definition spend_columns :: "spend \<Rightarrow> int list" where
  "spend_columns r = [sp_inputTokenCeiling r, sp_outputTokenCeiling r]
     @ (case sp_usage r of None \<Rightarrow> [] | Some u \<Rightarrow> usage_columns u)"

definition spend_money :: "spend \<Rightarrow> int list" where
  "spend_money r = sp_reserved r # (case sp_actual r of None \<Rightarrow> [] | Some a \<Rightarrow> [a])"

definition row_checks :: "spend \<Rightarrow> ledger_error + unit" where
  "row_checks r =
     (if \<not> list_all (\<lambda>n. n < NUMERIC_LIMIT) (spend_money r)
         \<or> \<not> list_all (\<lambda>n. n < INTEGER_LIMIT) (spend_columns r) then Inl NumericOverflow
      else if \<not> list_all (\<lambda>n. 0 \<le> n) (spend_money r) \<or> \<not> list_all (\<lambda>n. 0 \<le> n) (spend_columns r)
      then Inl CheckViolation
      else Inr ())"

definition same_provider_request :: "spend \<Rightarrow> spend \<Rightarrow> bool" where
  "same_provider_request r s \<longleftrightarrow> sp_providerRequestId r \<noteq> None
     \<and> sp_provider r = sp_provider s \<and> sp_providerRequestId r = sp_providerRequestId s"

definition insert_spend :: "spend \<Rightarrow> ledger_db \<Rightarrow> ledger_error + ledger_db" where
  "insert_spend r db =
     rbind (row_checks r) (\<lambda>_.
     if list_ex (\<lambda>s. sp_id s = sp_id r \<or> sp_requestKey s = sp_requestKey r
          \<or> same_provider_request r s) (db_spends db)
     then Inl UniqueViolation
     else Inr (db\<lparr>db_spends := db_spends db @ [r]\<rparr>))"

text \<open>An update of the row \<open>i\<close> that sets columns, with the constraints the new row must meet.\<close>

definition set_spend :: "string \<Rightarrow> (spend \<Rightarrow> spend) \<Rightarrow> ledger_db \<Rightarrow> ledger_error + ledger_db" where
  "set_spend i f db =
     (case spend_where (\<lambda>r. sp_id r = i) db of
        None \<Rightarrow> Inr db
      | Some r \<Rightarrow>
          rbind (row_checks (f r)) (\<lambda>_.
          if list_ex (\<lambda>s. sp_id s \<noteq> i \<and> same_provider_request (f r) s) (db_spends db)
          then Inl UniqueViolation
          else Inr (update_spend i f db)))"

end
