(* ===== verification/LedgerPolicy.thy ===== *)
theory LedgerPolicy
  imports LedgerState
begin

text \<open>
  The helpers of \<^verbatim>\<open>llm-ledger.service.ts\<close> below the service class: admission policy, agent
  resolution, active prices, the provider circuit, exposure sums, settlement anomalies, the
  stored price snapshot and the ledger-owned part of the metadata.
\<close>

section \<open>Admission\<close>

record cap_value =
  cap_nano :: int
  cap_error :: bool

definition parseCap :: "string \<Rightarrow> cap_value" where
  "parseCap raw = (case usdToNano Floor (UsdStr raw) of
     Inr n \<Rightarrow> \<lparr>cap_nano = n, cap_error = False\<rparr>
   | Inl _ \<Rightarrow> \<lparr>cap_nano = 0, cap_error = True\<rparr>)"

record admission_policy =
  ap_enabled :: bool
  ap_reservationCap :: int
  ap_denial :: "denial option"

definition resolveLlmAdmissionPolicy :: "kv \<Rightarrow> kv \<Rightarrow> config_error + admission_policy" where
  "resolveLlmAdmissionPolicy config env =
     rbind (resolveConfigValue ''LLM_ENABLED'' config env) (\<lambda>en.
     rbind (resolveConfigValue ''LLM_MAX_RESERVATION_USD'' config env) (\<lambda>mx.
     (let enabled = (en = ''1''); cap = parseCap mx in
      Inr \<lparr>ap_enabled = enabled, ap_reservationCap = cap_nano cap,
        ap_denial = (if \<not> enabled then Some LlmDisabled
                     else if cap_error cap then Some BadReservationCap else None)\<rparr>)))"

definition flatOpenAiPriceTierDenial :: "string \<Rightarrow> string \<Rightarrow> int \<Rightarrow> denial option" where
  "flatOpenAiPriceTierDenial prov mdl inCeil =
     (if prov = ''openai'' \<and> mdl = ''gpt-5.6-sol'' \<and> inCeil > 272000 then Some TierBlocked
      else None)"

definition reservationLimitDenial :: "int \<Rightarrow> int \<Rightarrow> denial option" where
  "reservationLimitDenial reserveNano capNano =
     (if reserveNano > capNano then Some (OverReservationCap reserveNano capNano) else None)"

text \<open>A chain of \<open>??\<close>.\<close>

fun first_some :: "'a option list \<Rightarrow> 'a option" where
  "first_some [] = None"
| "first_some (x # xs) = (case x of None \<Rightarrow> first_some xs | Some v \<Rightarrow> Some v)"

lemma first_some_None [simp]: "first_some xs = None \<longleftrightarrow> (\<forall>x \<in> set xs. x = None)"
  by (induction xs) (auto split: option.splits)

section \<open>Agents\<close>

definition consumerRequiresAgent :: "consumer \<Rightarrow> bool" where
  "consumerRequiresAgent c \<longleftrightarrow> c = Agents \<or> c = Embeddings"

definition resolveAgent ::
  "ledger_db \<Rightarrow> consumer \<Rightarrow> string option \<Rightarrow> agent_row option \<times> denial option" where
  "resolveAgent db c agentName =
     (case agentName of
        Some n \<Rightarrow>
          if n = [] then (None, if consumerRequiresAgent c then Some (AgentRequired c) else None)
          else (case find (\<lambda>a. ag_name a = n \<and> \<not> ag_archived a) (db_agents db) of
            Some a \<Rightarrow> (Some a, None)
          | None \<Rightarrow> (None, Some (AgentNotFound n)))
      | None \<Rightarrow> (None, if consumerRequiresAgent c then Some (AgentRequired c) else None))"

definition agentById :: "ledger_db \<Rightarrow> string \<Rightarrow> agent_row option" where
  "agentById db i = find (\<lambda>a. ag_id a = i) (db_agents db)"

definition budgetAction :: "string option \<Rightarrow> budget_action" where
  "budgetAction v =
     (if v = Some ''downgrade'' then Downgrade else if v = Some ''ask'' then Ask else Pause)"

section \<open>Prices\<close>

definition activeProviderPrices :: "ledger_db \<Rightarrow> string \<Rightarrow> int \<Rightarrow> price_row list" where
  "activeProviderPrices db prov t =
     filter (\<lambda>p. provider (pr_price p) = prov \<and> pr_validFrom p \<le> t
       \<and> (case pr_validTo p of None \<Rightarrow> True | Some e \<Rightarrow> e > t)) (db_prices db)"

definition selectPriceRow :: "price_row list \<Rightarrow> string \<Rightarrow> price_row option" where
  "selectPriceRow = selectCatalogPrice (\<lambda>p. model (pr_price p)) pr_validFrom"

definition findActiveCatalogPrice :: "ledger_db \<Rightarrow> string \<Rightarrow> string \<Rightarrow> int \<Rightarrow> price_row option" where
  "findActiveCatalogPrice db prov mdl t = selectPriceRow (activeProviderPrices db prov t) mdl"

definition snapshotOf :: "price_row \<Rightarrow> price_snapshot" where
  "snapshotOf p = (pr_price p)\<lparr>policyInputOverheadTokens := DOCUMENTS_INPUT_OVERHEAD_TOKENS,
     validFromIso := iso_text (pr_validFrom p)\<rparr>"

definition documentsPolicyJson :: "int \<Rightarrow> json" where
  "documentsPolicyJson overhead = JObj
     [(''version'', JInt 1), (''inputOverheadTokens'', JInt overhead),
      (''codeExecution'', JObj [(''exact'', JBool False), (''basis'', JStr ''container_5m_minimum''),
        (''monthlyFreePoolApplied'', JBool False)])]"

definition billingText :: "billing_kind \<Rightarrow> string" where
  "billingText b = (case b of Metered \<Rightarrow> ''metered'' | Subscription \<Rightarrow> ''subscription'')"

definition settlementText :: "settlement_kind \<Rightarrow> string" where
  "settlementText s = (case s of Tokens \<Rightarrow> ''tokens'' | ProviderReported \<Rightarrow> ''provider_reported'')"

definition snapshotJson :: "price_snapshot \<Rightarrow> json" where
  "snapshotJson p = JObj
     [(''version'', JInt 2), (''provider'', JStr (provider p)), (''model'', JStr (model p)),
      (''billingKind'', JStr (billingText (billingKind p))),
      (''settlementKind'', JStr (settlementText (settlementKind p))),
      (''inputUsdPerMtok'', JStr (inputUsdPerMtok p)),
      (''outputUsdPerMtok'', JStr (outputUsdPerMtok p)),
      (''cacheReadUsdPerMtok'', JStr (cacheReadUsdPerMtok p)),
      (''cacheWrite5mUsdPerMtok'', JStr (cacheWrite5mUsdPerMtok p)),
      (''cacheWrite1hUsdPerMtok'', JStr (cacheWrite1hUsdPerMtok p)),
      (''fixedRequestUsd'', JStr (fixedRequestUsd p)),
      (''reservationCeilingUsd'', case reservationCeilingUsd p of None \<Rightarrow> JNull | Some s \<Rightarrow> JStr s),
      (''codeExecutionUsdPerRequest'', JStr (codeExecutionUsdPerRequest p)),
      (''documentsPolicy'', documentsPolicyJson (policyInputOverheadTokens p)),
      (''validFrom'', JStr (validFromIso p))]"

definition str_prop :: "json \<Rightarrow> string \<Rightarrow> string option" where
  "str_prop j k = (case get_prop j k of Some (JStr s) \<Rightarrow> Some s | _ \<Rightarrow> None)"

definition isDocumentsPolicy :: "json \<Rightarrow> bool" where
  "isDocumentsPolicy v =
     (case v of JObj _ \<Rightarrow>
        (case get_prop v ''codeExecution'' of
           Some (JObj ce) \<Rightarrow>
             get_prop v ''version'' = Some (JInt 1)
             \<and> get_prop v ''inputOverheadTokens'' = Some (JInt DOCUMENTS_INPUT_OVERHEAD_TOKENS)
             \<and> get_prop (JObj ce) ''exact'' = Some (JBool False)
             \<and> get_prop (JObj ce) ''basis'' = Some (JStr ''container_5m_minimum'')
             \<and> get_prop (JObj ce) ''monthlyFreePoolApplied'' = Some (JBool False)
         | _ \<Rightarrow> False)
      | _ \<Rightarrow> False)"

text \<open>
  \<open>String(raw.billingKind)\<close> is compared with two constants; the model accepts strings only (an
  array holding one such string prints alike, but no ledger operation writes one).
\<close>

definition parseSnapshot :: "json \<Rightarrow> ledger_error + price_snapshot" where
  "parseSnapshot v =
     (case (str_prop v ''provider'', str_prop v ''model'', str_prop v ''inputUsdPerMtok'',
            str_prop v ''outputUsdPerMtok'', str_prop v ''cacheReadUsdPerMtok'',
            str_prop v ''cacheWrite5mUsdPerMtok'', str_prop v ''cacheWrite1hUsdPerMtok'',
            str_prop v ''fixedRequestUsd'', str_prop v ''codeExecutionUsdPerRequest'',
            str_prop v ''validFrom'') of
        (Some p, Some m, Some i, Some out, Some cr, Some c5, Some c1, Some fx, Some ce, Some vf) \<Rightarrow>
          if get_prop v ''version'' \<noteq> Some (JInt 2)
             \<or> str_prop v ''billingKind'' \<notin> {Some ''metered'', Some ''subscription''}
             \<or> str_prop v ''settlementKind'' \<notin> {Some ''tokens'', Some ''provider_reported''}
             \<or> get_prop v ''reservationCeilingUsd'' \<noteq> Some JNull
               \<and> str_prop v ''reservationCeilingUsd'' = None
             \<or> \<not> isDocumentsPolicy (case get_prop v ''documentsPolicy'' of None \<Rightarrow> JNull | Some d \<Rightarrow> d)
          then Inl SnapshotInvalid
          else Inr \<lparr>provider = p, model = m,
            billingKind = (if str_prop v ''billingKind'' = Some ''metered'' then Metered else Subscription),
            settlementKind = (if str_prop v ''settlementKind'' = Some ''tokens'' then Tokens
                              else ProviderReported),
            inputUsdPerMtok = i, outputUsdPerMtok = out, cacheReadUsdPerMtok = cr,
            cacheWrite5mUsdPerMtok = c5, cacheWrite1hUsdPerMtok = c1, fixedRequestUsd = fx,
            reservationCeilingUsd = str_prop v ''reservationCeilingUsd'',
            codeExecutionUsdPerRequest = ce,
            policyInputOverheadTokens = DOCUMENTS_INPUT_OVERHEAD_TOKENS, validFromIso = vf\<rparr>
      | _ \<Rightarrow> Inl SnapshotInvalid)"

section \<open>Exposure\<close>

text \<open>The SQL expression the admission and the monitoring sum.\<close>

definition exposureCase :: "spend \<Rightarrow> int" where
  "exposureCase r =
     (if sp_status r = Reserved then sp_reserved r
      else if sp_status r = Settled then (case sp_actual r of None \<Rightarrow> 0 | Some a \<Rightarrow> a)
      else if sp_status r = Failed \<and> sp_outcome r = Some Unknown
        then max (sp_reserved r) (case sp_actual r of None \<Rightarrow> 0 | Some a \<Rightarrow> a)
      else if sp_status r = Failed then (case sp_actual r of None \<Rightarrow> sp_reserved r | Some a \<Rightarrow> a)
      else 0)"

definition sumExposure :: "ledger_db \<Rightarrow> int \<Rightarrow> string option \<Rightarrow> int" where
  "sumExposure db day agentId =
     sum_list (map exposureCase (filter (\<lambda>r. sp_day r = day
       \<and> (case agentId of None \<Rightarrow> True | Some a \<Rightarrow> sp_agentId r = Some a)) (db_spends db)))"

record exposure =
  ex_global :: int
  ex_agent :: "int option"

definition readExposure :: "ledger_db \<Rightarrow> int \<Rightarrow> string option \<Rightarrow> exposure" where
  "readExposure db day agentId =
     \<lparr>ex_global = sumExposure db day None,
      ex_agent = (case agentId of None \<Rightarrow> None | Some a \<Rightarrow> Some (sumExposure db day (Some a)))\<rparr>"

definition remainingOf :: "int \<Rightarrow> int \<Rightarrow> int" where
  "remainingOf cap used = (if cap > used then cap - used else 0)"

text \<open>The budget part of every reserve response; the code prints each amount with
  \<open>nanoToNumber\<close>.\<close>

record budget_snapshot =
  bs_day :: int
  bs_globalCap :: int
  bs_globalExposure :: int
  bs_remaining :: int
  bs_agent :: "(int \<times> int) option"

definition budgetOf :: "int \<Rightarrow> int \<Rightarrow> exposure \<Rightarrow> int option \<Rightarrow> budget_snapshot" where
  "budgetOf day globalCap ex agentCap =
     \<lparr>bs_day = day, bs_globalCap = globalCap, bs_globalExposure = ex_global ex,
      bs_remaining = remainingOf globalCap (ex_global ex),
      bs_agent = (case agentCap of None \<Rightarrow> None
        | Some c \<Rightarrow> Some (c, case ex_agent ex of None \<Rightarrow> 0 | Some a \<Rightarrow> a))\<rparr>"

section \<open>The provider circuit\<close>

definition providerCircuitWindow :: "int \<Rightarrow> int \<times> int" where
  "providerCircuitWindow t = (let start = tashkentDayStartOf t in (start, start + DAY_MS))"

text \<open>\<^verbatim>\<open>metadata -> '_llmLedger' ->> 'circuitOpen' = 'true'\<close>\<close>

definition circuitMark :: "json \<Rightarrow> bool" where
  "circuitMark m =
     (case get_prop m ''_llmLedger'' of
        None \<Rightarrow> False
      | Some i \<Rightarrow> (case get_prop i ''circuitOpen'' of
          Some (JBool b) \<Rightarrow> b
        | Some (JStr s) \<Rightarrow> s = ''true''
        | _ \<Rightarrow> False))"

definition in_window :: "int \<times> int \<Rightarrow> int option \<Rightarrow> bool" where
  "in_window w t = (case t of None \<Rightarrow> False | Some v \<Rightarrow> fst w \<le> v \<and> v < snd w)"

definition opensCircuit :: "int \<Rightarrow> string \<Rightarrow> spend \<Rightarrow> bool" where
  "opensCircuit t prov r \<longleftrightarrow> sp_provider r = prov \<and> sp_status r = Failed
     \<and> sp_outcome r = Some Unknown \<and> in_window (providerCircuitWindow t) (sp_failedAt r)
     \<and> circuitMark (sp_metadata r)"

definition anomalyReason :: "anomaly \<Rightarrow> string" where
  "anomalyReason a =
     (case an_kind a of
        MissingResolvedModel \<Rightarrow> ''missing resolvedModel for '' @ an_requestedModel a
      | ResolvedModelMismatch \<Rightarrow>
          (case an_resolvedModel a of None \<Rightarrow> ''unknown'' | Some m \<Rightarrow> m)
            @ '' instead of '' @ an_requestedModel a
      | MissingUsageOrCost \<Rightarrow> ''missing usage or cost for '' @ an_requestedModel a)"

definition reasonText :: "spend_reason option \<Rightarrow> string" where
  "reasonText r = (case r of
     None \<Rightarrow> ''resolved model anomaly'' | Some (Text s) \<Rightarrow> s | Some (Anomaly a) \<Rightarrow> anomalyReason a
   | Some (Denial _) \<Rightarrow> ''denied'')"

definition providerCircuit :: "ledger_db \<Rightarrow> int \<Rightarrow> string \<Rightarrow> string option" where
  "providerCircuit db t prov =
     map_option (\<lambda>r. reasonText (sp_reason r)) (spend_where (opensCircuit t prov) db)"

section \<open>Requests and settlements\<close>

record reserve_dto =
  rd_requestKey :: string
  rd_traceKey :: "string option"
  rd_consumer :: consumer
  rd_feature :: string
  rd_agentName :: "string option"
  rd_provider :: string
  rd_model :: string
  rd_inputTokenCeiling :: int
  rd_outputTokenCeiling :: int
  rd_metadata :: "(string \<times> json) list option"

record reserve_request =
  rq_requestKey :: string
  rq_traceKey :: "string option"
  rq_consumer :: consumer
  rq_feature :: string
  rq_agentName :: "string option"
  rq_provider :: string
  rq_model :: string
  rq_inputTokenCeiling :: int
  rq_outputTokenCeiling :: int
  rq_metadata :: "(string \<times> json) list"

text \<open>An optional text that is kept only when it is not empty.\<close>

definition truthy_trim :: "string option \<Rightarrow> string option" where
  "truthy_trim v = (case v of Some s \<Rightarrow> if s = [] then None else Some (js_trim s) | None \<Rightarrow> None)"

definition normalizeReserve :: "reserve_dto \<Rightarrow> reserve_request" where
  "normalizeReserve d =
     \<lparr>rq_requestKey = js_trim (rd_requestKey d), rq_traceKey = truthy_trim (rd_traceKey d),
      rq_consumer = rd_consumer d, rq_feature = js_trim (rd_feature d),
      rq_agentName = truthy_trim (rd_agentName d),
      rq_provider = js_lower (js_trim (rd_provider d)), rq_model = js_trim (rd_model d),
      rq_inputTokenCeiling = rd_inputTokenCeiling d,
      rq_outputTokenCeiling = rd_outputTokenCeiling d,
      rq_metadata = (case rd_metadata d of None \<Rightarrow> [] | Some m \<Rightarrow> m)\<rparr>"

definition consumerText :: "consumer \<Rightarrow> string" where
  "consumerText c = (case c of Agents \<Rightarrow> ''agents'' | Bot \<Rightarrow> ''bot'' | Cc \<Rightarrow> ''cc''
     | Documents \<Rightarrow> ''documents'' | Embeddings \<Rightarrow> ''embeddings'')"

definition requestJson :: "reserve_request \<Rightarrow> json" where
  "requestJson r = JObj ([(''requestKey'', JStr (rq_requestKey r))]
     @ opt_prop ''traceKey'' JStr (rq_traceKey r)
     @ [(''consumer'', JStr (consumerText (rq_consumer r))), (''feature'', JStr (rq_feature r))]
     @ opt_prop ''agentName'' JStr (rq_agentName r)
     @ [(''provider'', JStr (rq_provider r)), (''model'', JStr (rq_model r)),
        (''inputTokenCeiling'', JInt (rq_inputTokenCeiling r)),
        (''outputTokenCeiling'', JInt (rq_outputTokenCeiling r)),
        (''metadata'', JObj (rq_metadata r))])"

definition hashLedgerPayload :: "(json \<Rightarrow> string) \<Rightarrow> json \<Rightarrow> string" where
  "hashLedgerPayload H v = H (canonical v)"

text \<open>A settlement body; the same record holds it after normalization.\<close>

record settlement =
  st_outcome :: settlement_outcome
  st_usage :: "token_usage option"
  st_providerRequestId :: "string option"
  st_resolvedModel :: "string option"
  st_providerReportedUsd :: "jsnum option"
  st_reason :: "string option"
  st_metadata :: "(string \<times> json) list option"

definition normalizeUsage :: "token_usage \<Rightarrow> ledger_error + token_usage" where
  "normalizeUsage u =
     (let hasCacheBreakdown =
            (cacheCreation5mInputTokens u \<noteq> None \<or> cacheCreation1hInputTokens u \<noteq> None);
          splitTotal = orZero (cacheCreation5mInputTokens u) + orZero (cacheCreation1hInputTokens u) in
      if hasCacheBreakdown \<and> cacheCreationInputTokens u \<noteq> None
         \<and> cacheCreationInputTokens u \<noteq> Some splitTotal
      then Inl CacheSplitRejected
      else Inr (u\<lparr>cacheReadInputTokens := Some (orZero (cacheReadInputTokens u)),
        codeExecutionRequests := Some (orZero (codeExecutionRequests u))\<rparr>))"

definition normalizeSettlement :: "settlement \<Rightarrow> ledger_error + settlement" where
  "normalizeSettlement d =
     rbind (case st_usage d of None \<Rightarrow> Inr None
            | Some u \<Rightarrow> rbind (normalizeUsage u) (\<lambda>v. Inr (Some v))) (\<lambda>us.
     Inr (d\<lparr>st_usage := us, st_providerRequestId := truthy_trim (st_providerRequestId d),
       st_resolvedModel := truthy_trim (st_resolvedModel d),
       st_reason := map_option js_trim (st_reason d),
       st_metadata := Some (case st_metadata d of None \<Rightarrow> [] | Some m \<Rightarrow> m)\<rparr>))"

definition outcomeText :: "settlement_outcome \<Rightarrow> string" where
  "outcomeText v = (case v of Success \<Rightarrow> ''success'' | ProviderError \<Rightarrow> ''provider_error''
     | Unknown \<Rightarrow> ''unknown'')"

definition usageJson :: "token_usage \<Rightarrow> json" where
  "usageJson u = JObj ([(''inputTokens'', JInt (inputTokens u)), (''outputTokens'', JInt (outputTokens u))]
     @ opt_prop ''cacheReadInputTokens'' JInt (cacheReadInputTokens u)
     @ opt_prop ''cacheCreationInputTokens'' JInt (cacheCreationInputTokens u)
     @ opt_prop ''cacheCreation5mInputTokens'' JInt (cacheCreation5mInputTokens u)
     @ opt_prop ''cacheCreation1hInputTokens'' JInt (cacheCreation1hInputTokens u)
     @ opt_prop ''codeExecutionRequests'' JInt (codeExecutionRequests u))"

definition settlementJson :: "settlement \<Rightarrow> json" where
  "settlementJson s = JObj ([(''outcome'', JStr (outcomeText (st_outcome s)))]
     @ opt_prop ''usage'' usageJson (st_usage s)
     @ opt_prop ''providerRequestId'' JStr (st_providerRequestId s)
     @ opt_prop ''resolvedModel'' JStr (st_resolvedModel s)
     @ opt_prop ''providerReportedUsd'' JNum (st_providerReportedUsd s)
     @ opt_prop ''reason'' JStr (st_reason s)
     @ opt_prop ''metadata'' JObj (st_metadata s))"

section \<open>Settlement anomalies\<close>

definition nonempty_text :: "string option \<Rightarrow> string option" where
  "nonempty_text v = (case v of Some s \<Rightarrow> if s = [] then None else Some s | None \<Rightarrow> None)"

definition classifySettlementAnomaly ::
  "price_snapshot \<Rightarrow> settlement_outcome \<Rightarrow> string option \<Rightarrow> int option \<Rightarrow> anomaly option" where
  "classifySettlementAnomaly price outcome resolvedModel actualNano =
     (case nonempty_text resolvedModel of
        Some m \<Rightarrow>
          if \<not> resolvedModelMatchesCatalogPrice (provider price) m (model price)
          then Some \<lparr>an_kind = ResolvedModelMismatch, an_circuitOpen = True,
            an_requestedModel = model price, an_resolvedModel = Some m\<rparr>
          else if outcome \<noteq> Success then None
          else if actualNano = None
          then Some \<lparr>an_kind = MissingUsageOrCost, an_circuitOpen = False,
            an_requestedModel = model price, an_resolvedModel = Some m\<rparr>
          else None
      | None \<Rightarrow>
          if outcome \<noteq> Success then None
          else Some \<lparr>an_kind = MissingResolvedModel, an_circuitOpen = True,
            an_requestedModel = model price, an_resolvedModel = None\<rparr>)"

definition zero_usage :: token_usage where
  "zero_usage = \<lparr>inputTokens = 0, outputTokens = 0, cacheReadInputTokens = None,
     cacheCreationInputTokens = None, cacheCreation5mInputTokens = None,
     cacheCreation1hInputTokens = None, codeExecutionRequests = None\<rparr>"

definition somes :: "'a option list \<Rightarrow> 'a list" where
  "somes xs = concat (map (\<lambda>x. case x of None \<Rightarrow> [] | Some v \<Rightarrow> [v]) xs)"

definition anomalyActualNano ::
  "ledger_db \<Rightarrow> spend \<Rightarrow> settlement \<Rightarrow> int option \<Rightarrow> money_error + int option" where
  "anomalyActualNano db r s snapshotActual =
     (let t = (case sp_reservedAt r of Some v \<Rightarrow> v | None \<Rightarrow> sp_createdAt r);
          rows = activeProviderPrices db (sp_provider r) t;
          matching = (case nonempty_text (st_resolvedModel s) of
              None \<Rightarrow> []
            | Some m \<Rightarrow> filter (\<lambda>c. resolvedModelMatchesCatalogPrice (sp_provider r) m
                (model (pr_price c))) rows);
          candidates = (if matching \<noteq> [] then matching else rows);
          usage = (case st_usage s of None \<Rightarrow> zero_usage | Some u \<Rightarrow> u) in
      rbind (mapM_res (\<lambda>c. settlementCostNano (snapshotOf c) (sp_consumer r) (Some usage) None)
        candidates) (\<lambda>cs.
      rbind (case st_providerReportedUsd s of
          None \<Rightarrow> Inr []
        | Some v \<Rightarrow> rbind (usdToNano Ceil (UsdNum v)) (\<lambda>n. Inr [n])) (\<lambda>reported.
      (let costs = somes cs @ reported @ somes [snapshotActual] in
       Inr (if costs \<noteq> [] then Some (max0 costs) else None)))))"

section \<open>Ledger-owned metadata\<close>

definition actionText :: "budget_action \<Rightarrow> string" where
  "actionText a = (case a of Pause \<Rightarrow> ''pause'' | Downgrade \<Rightarrow> ''downgrade'' | Ask \<Rightarrow> ''ask'')"

definition codeExecutionJson :: json where
  "codeExecutionJson = JObj [(''exact'', JBool False), (''basis'', JStr ''container_5m_minimum''),
     (''monthlyFreePoolApplied'', JBool False)]"

definition reserveMetadata ::
  "(string \<times> json) list \<Rightarrow> consumer \<Rightarrow> budget_action option \<Rightarrow> string list option \<Rightarrow> json" where
  "reserveMetadata metadata c denialAction routedModels =
     (let clientMetadata = obj_del ''_llmLedger'' metadata;
          internal =
            (if c = Documents
             then [(''documentsPolicy'', documentsPolicyJson DOCUMENTS_INPUT_OVERHEAD_TOKENS),
                   (''codeExecution'', codeExecutionJson)] else [])
            @ opt_prop ''routeReserve'' (\<lambda>ms. JObj [(''basis'', JStr ''max_active_provider_sku''),
                (''models'', JArr (map JStr ms))]) routedModels
            @ opt_prop ''denialAction'' (\<lambda>a. JStr (actionText a)) denialAction in
      JObj (if internal \<noteq> [] then clientMetadata @ [(''_llmLedger'', JObj internal)]
            else clientMetadata))"

definition storedDenialAction :: "json \<Rightarrow> budget_action \<Rightarrow> budget_action" where
  "storedDenialAction metadata fallback =
     (case get_prop metadata ''_llmLedger'' of
        None \<Rightarrow> fallback
      | Some i \<Rightarrow>
          (let v = str_prop i ''denialAction'' in
           if v = Some ''pause'' then Pause else if v = Some ''downgrade'' then Downgrade
           else if v = Some ''ask'' then Ask else fallback))"

definition anomalyKindText :: "anomaly_kind \<Rightarrow> string" where
  "anomalyKindText k = (case k of MissingResolvedModel \<Rightarrow> ''missing_resolved_model''
     | ResolvedModelMismatch \<Rightarrow> ''resolved_model_mismatch''
     | MissingUsageOrCost \<Rightarrow> ''missing_usage_or_cost'')"

definition anomalyJson :: "anomaly \<Rightarrow> json" where
  "anomalyJson a = JObj ([(''kind'', JStr (anomalyKindText (an_kind a))),
     (''circuitOpen'', JBool (an_circuitOpen a)),
     (''requestedModel'', JStr (an_requestedModel a))]
     @ opt_prop ''resolvedModel'' JStr (an_resolvedModel a))"

definition mergeSettlementMetadata ::
  "json \<Rightarrow> (string \<times> json) list option \<Rightarrow> bool \<Rightarrow> anomaly option \<Rightarrow> json" where
  "mergeSettlementMetadata existing settlement lowerBound anomaly =
     (let base = obj_of existing;
          existingInternal = (case get_prop existing ''_llmLedger'' of None \<Rightarrow> [] | Some i \<Rightarrow> obj_of i);
          withBound = (if lowerBound then obj_put ''lowerBound'' (JBool True) existingInternal
                       else existingInternal);
          internal = (case anomaly of
              None \<Rightarrow> withBound
            | Some a \<Rightarrow>
                (let k = obj_put ''anomaly'' (anomalyJson a) withBound in
                 if an_circuitOpen a then obj_put ''circuitOpen'' (JBool True) k else k));
          withInternal = (if existingInternal \<noteq> [] \<or> lowerBound \<or> anomaly \<noteq> None
                          then obj_put ''_llmLedger'' (JObj internal) base else base) in
      JObj (obj_put ''settlement'' (JObj (case settlement of None \<Rightarrow> [] | Some m \<Rightarrow> m)) withInternal))"

end
