(* ===== verification/LedgerReserve.thy ===== *)
theory LedgerReserve
  imports LedgerPolicy
begin

text \<open>
  \<open>reserveInTx\<close> and \<open>stabilizeLedgerDay\<close> of \<^verbatim>\<open>llm-ledger.service.ts\<close>.  The readings of the
  process clock during a call are a list; a loop that consumes it all without settling on a day
  has not returned (\<open>None\<close>, resp. \<open>ClockExhausted\<close>).  Every advisory lock a call takes is
  recorded in order.
\<close>

section \<open>The day of a reservation\<close>

record day_choice =
  dc_now :: int
  dc_day :: int
  dc_locks :: "lock_key list"

definition more_locks :: "lock_key list \<Rightarrow> day_choice \<Rightarrow> day_choice" where
  "more_locks ls c = c\<lparr>dc_locks := ls @ dc_locks c\<rparr>"

fun stabilizeLedgerDay :: "int list \<Rightarrow> day_choice option" where
  "stabilizeLedgerDay (beforeLock # afterLock # clock) =
     (let candidateDay = tashkentDay beforeLock in
      if tashkentDay afterLock = candidateDay
      then Some \<lparr>dc_now = afterLock, dc_day = candidateDay, dc_locks = [BudgetLock candidateDay]\<rparr>
      else map_option (more_locks [BudgetLock candidateDay]) (stabilizeLedgerDay (afterLock # clock)))"
| "stabilizeLedgerDay _ = None"

text \<open>The loop of the task jobs, whose request key depends on the day.\<close>

fun stabilizeTaskDay :: "(int \<Rightarrow> string) \<Rightarrow> int list \<Rightarrow> (day_choice \<times> string) option" where
  "stabilizeTaskDay keyForDay (cursor # afterRequestLock # clock) =
     (let candidateDay = tashkentDay cursor; requestKey = js_trim (keyForDay candidateDay) in
      if tashkentDay afterRequestLock \<noteq> candidateDay
      then map_option (map_prod (more_locks [RequestLock requestKey]) id)
        (stabilizeTaskDay keyForDay (afterRequestLock # clock))
      else case clock of
        [] \<Rightarrow> None
      | afterBudgetLock # rest \<Rightarrow>
          if tashkentDay afterBudgetLock = candidateDay
          then Some (\<lparr>dc_now = afterBudgetLock, dc_day = candidateDay,
            dc_locks = [RequestLock requestKey, BudgetLock candidateDay]\<rparr>, requestKey)
          else map_option (map_prod (more_locks [RequestLock requestKey, BudgetLock candidateDay]) id)
            (stabilizeTaskDay keyForDay (afterBudgetLock # rest)))"
| "stabilizeTaskDay _ _ = None"

section \<open>Responses\<close>

record reservation =
  rs_id :: string
  rs_requestKey :: string
  rs_day :: int
  rs_reserved :: int
  rs_replay :: bool

record reserve_response =
  rr_allowed :: bool
  rr_status :: spend_status
  rr_action :: budget_action
  rr_reason :: "spend_reason option"
  rr_replayBlocked :: bool
  rr_reservation :: "reservation option"
  rr_budget :: budget_snapshot

definition allowedResponse ::
  "spend \<Rightarrow> bool \<Rightarrow> budget_snapshot \<Rightarrow> budget_action \<Rightarrow> reserve_response" where
  "allowedResponse row replay snapshot action =
     \<lparr>rr_allowed = True, rr_status = Reserved, rr_action = action, rr_reason = None,
      rr_replayBlocked = False,
      rr_reservation = Some \<lparr>rs_id = sp_id row, rs_requestKey = sp_requestKey row, rs_day = sp_day row,
        rs_reserved = sp_reserved row, rs_replay = replay\<rparr>,
      rr_budget = snapshot\<rparr>"

definition refusal ::
  "spend_status \<Rightarrow> budget_action \<Rightarrow> spend_reason \<Rightarrow> bool \<Rightarrow> budget_snapshot \<Rightarrow> reserve_response" where
  "refusal status action reason blocked snapshot =
     \<lparr>rr_allowed = False, rr_status = status, rr_action = action, rr_reason = Some reason,
      rr_replayBlocked = blocked, rr_reservation = None, rr_budget = snapshot\<rparr>"

section \<open>A request key that has a row\<close>

text \<open>The price checks of a replay, down to the reason the replay is refused for, if any.\<close>

definition replayPriceDenial ::
  "(json \<Rightarrow> string) \<Rightarrow> ledger_db \<Rightarrow> reserve_request \<Rightarrow> int \<Rightarrow> spend \<Rightarrow> denial option" where
  "replayPriceDenial H db rq now prior =
     (let priceRows = activeProviderPrices db (rq_provider rq) now in
      case selectPriceRow priceRows (rq_model rq) of
        None \<Rightarrow> Some PriceGone
      | Some activeRow \<Rightarrow>
          (let activePrice = snapshotOf activeRow in
           case parseSnapshot (sp_priceSnapshot prior) of
             Inl _ \<Rightarrow> Some StoredSnapshotBroken
           | Inr storedPrice \<Rightarrow>
               if sp_priceId prior \<noteq> Some (pr_id activeRow)
                  \<or> hashLedgerPayload H (snapshotJson storedPrice)
                    \<noteq> hashLedgerPayload H (snapshotJson activePrice)
               then Some PriceChanged
               else case reserveProviderRouteCostNano activePrice (map snapshotOf priceRows)
                   (rq_consumer rq) (rq_inputTokenCeiling rq) (rq_outputTokenCeiling rq) of
                 Inl e \<Rightarrow> Some (PriceUnusable e)
               | Inr currentRouteReserve \<Rightarrow>
                   if currentRouteReserve > sp_reserved prior
                   then Some (RouteReserveHigher currentRouteReserve (sp_reserved prior))
                   else None))"

text \<open>The agent, its cap and its action as the tables have them now.\<close>

definition priorAgent :: "ledger_db \<Rightarrow> spend \<Rightarrow> agent_row option" where
  "priorAgent db prior = (case sp_agentId prior of None \<Rightarrow> None | Some a \<Rightarrow> agentById db a)"

definition priorAgentCap :: "kv \<Rightarrow> ledger_db \<Rightarrow> spend \<Rightarrow> cap_value option" where
  "priorAgentCap env db prior = (case sp_agentId prior of
     None \<Rightarrow> None
   | Some _ \<Rightarrow> Some (parseCap (agentCapValue
       (case priorAgent db prior of None \<Rightarrow> None | Some a \<Rightarrow> ag_budgetPerDayUsd a) (db_config db) env)))"

text \<open>The first current policy the replay would break.\<close>

definition replayPolicyDenial ::
  "reserve_request \<Rightarrow> int \<Rightarrow> admission_policy \<Rightarrow> cap_value \<Rightarrow> cap_value option \<Rightarrow> exposure \<Rightarrow> spend
    \<Rightarrow> denial option" where
  "replayPolicyDenial rq day admission globalCap perAgentCap exposure prior = first_some
     [ap_denial admission,
      flatOpenAiPriceTierDenial (rq_provider rq) (rq_model rq) (rq_inputTokenCeiling rq),
      (if cap_error globalCap then Some BadGlobalCap else None),
      (case perAgentCap of Some c \<Rightarrow> if cap_error c then Some BadAgentCap else None | None \<Rightarrow> None),
      (if sp_day prior \<noteq> day then Some (OtherDay (sp_day prior) day) else None),
      (if ex_global exposure > cap_nano globalCap
       then Some (GlobalExposureOverCap (ex_global exposure) (cap_nano globalCap)) else None),
      (case perAgentCap of
         Some c \<Rightarrow> if orZero (ex_agent exposure) > cap_nano c then Some AgentExposureOverCap else None
       | None \<Rightarrow> None),
      reservationLimitDenial (sp_reserved prior) (ap_reservationCap admission)]"

definition reserveReplay ::
  "(json \<Rightarrow> string) \<Rightarrow> kv \<Rightarrow> ledger_db \<Rightarrow> reserve_request \<Rightarrow> int \<Rightarrow> int \<Rightarrow> admission_policy
    \<Rightarrow> spend \<Rightarrow> reserve_response" where
  "reserveReplay H env db rq now day admission prior =
     (let globalCap = parseCap (globalCapValue (db_config db) env);
          perAgentCap = priorAgentCap env db prior;
          exposure = readExposure db day (sp_agentId prior);
          snapshot = budgetOf day (cap_nano globalCap) exposure (map_option cap_nano perAgentCap);
          currentAction = budgetAction
            (case priorAgent db prior of None \<Rightarrow> None | Some a \<Rightarrow> ag_budgetOnExceeded a) in
      case replayPolicyDenial rq day admission globalCap perAgentCap exposure prior of
        Some d \<Rightarrow> refusal (sp_status prior) currentAction (Denial d) True snapshot
      | None \<Rightarrow>
          if sp_requestHash prior \<noteq> hashLedgerPayload H (requestJson rq)
          then refusal (sp_status prior) currentAction (Denial PayloadDiffers) True snapshot
          else if sp_status prior = Denied
          then refusal Denied (storedDenialAction (sp_metadata prior) currentAction)
            (case sp_reason prior of Some r \<Rightarrow> r | None \<Rightarrow> Text ''denied'') False snapshot
          else if sp_status prior \<noteq> Reserved
          then refusal (sp_status prior) currentAction (Denial (AlreadyClosed (sp_status prior))) True snapshot
          else case replayPriceDenial H db rq now prior of
            Some d \<Rightarrow> refusal (sp_status prior) currentAction (Denial d) True snapshot
          | None \<Rightarrow> allowedResponse prior True snapshot currentAction)"

section \<open>A new request key\<close>

record call_ctx =
  cx_env :: kv
  cx_clock :: "int list"
  cx_newId :: string
  cx_createdAt :: int

text \<open>The denial of a new request with the reserve computed on the way.\<close>

definition newDenial ::
  "ledger_db \<Rightarrow> reserve_request \<Rightarrow> admission_policy \<Rightarrow> cap_value \<Rightarrow> cap_value option \<Rightarrow> denial option
    \<Rightarrow> string option \<Rightarrow> price_snapshot option \<Rightarrow> price_row list \<Rightarrow> exposure \<Rightarrow> string
    \<Rightarrow> denial option \<times> int" where
  "newDenial db rq admission globalCap perAgentCap agentError openCircuit price priceRows exposure agentName =
     (let d0 = first_some
            [ap_denial admission,
             flatOpenAiPriceTierDenial (rq_provider rq) (rq_model rq) (rq_inputTokenCeiling rq),
             (if cap_error globalCap then Some BadGlobalCap else None),
             (case perAgentCap of Some c \<Rightarrow> if cap_error c then Some BadAgentCap else None | None \<Rightarrow> None),
             agentError,
             map_option ProviderCircuitOpen openCircuit];
          d1 = (if d0 = None \<and> price = None then Some NoActivePrice else d0);
          (d2, reserveNano) =
            (case (d1, price) of
               (None, Some p) \<Rightarrow>
                 (case reserveProviderRouteCostNano p (map snapshotOf priceRows) (rq_consumer rq)
                     (rq_inputTokenCeiling rq) (rq_outputTokenCeiling rq) of
                    Inl e \<Rightarrow> (Some (PriceUnusable e), 0)
                  | Inr n \<Rightarrow> (None, n))
             | _ \<Rightarrow> (d1, 0));
          d3 = (if d2 = None then reservationLimitDenial reserveNano (ap_reservationCap admission) else d2);
          d4 = (if d3 = None \<and> ex_global exposure + reserveNano > cap_nano globalCap
                then Some (OverGlobalCap reserveNano) else d3);
          d5 = (case perAgentCap of
              Some c \<Rightarrow> if d4 = None \<and> orZero (ex_agent exposure) + reserveNano > cap_nano c
                then Some (OverAgentCap agentName) else d4
            | None \<Rightarrow> d4)
      in (d5, reserveNano))"

definition newSpend ::
  "(json \<Rightarrow> string) \<Rightarrow> call_ctx \<Rightarrow> reserve_request \<Rightarrow> int \<Rightarrow> int \<Rightarrow> agent_row option \<Rightarrow> price_row option
    \<Rightarrow> string list option \<Rightarrow> budget_action \<Rightarrow> denial option \<Rightarrow> int \<Rightarrow> spend" where
  "newSpend H ctx rq now day agentRow priceRow routedModels action denial reserveNano =
     (let price = map_option snapshotOf priceRow in
      \<lparr>sp_id = cx_newId ctx, sp_requestKey = rq_requestKey rq,
       sp_requestHash = hashLedgerPayload H (requestJson rq), sp_settlementHash = None,
       sp_traceKey = rq_traceKey rq, sp_consumer = rq_consumer rq, sp_feature = rq_feature rq,
       sp_agentId = map_option ag_id agentRow,
       sp_agentName = (case agentRow of Some a \<Rightarrow> Some (ag_name a) | None \<Rightarrow> rq_agentName rq),
       sp_provider = rq_provider rq, sp_model = rq_model rq, sp_resolvedModel = None,
       sp_priceId = map_option pr_id priceRow,
       sp_priceSnapshot = (case price of Some p \<Rightarrow> snapshotJson p | None \<Rightarrow> JObj []),
       sp_status = (if denial = None then Reserved else Denied), sp_outcome = None, sp_day = day,
       sp_inputTokenCeiling = (case price of
           Some p \<Rightarrow> billableInputTokenCeiling p (rq_consumer rq) (rq_inputTokenCeiling rq)
         | None \<Rightarrow> rq_inputTokenCeiling rq),
       sp_outputTokenCeiling = rq_outputTokenCeiling rq, sp_reserved = reserveNano, sp_actual = None,
       sp_usage = None, sp_providerRequestId = None, sp_reason = map_option Denial denial,
       sp_metadata = reserveMetadata (rq_metadata rq) (rq_consumer rq)
         (if denial = None then None else Some action) routedModels,
       sp_reservedAt = (if denial = None then Some now else None), sp_settledAt = None,
       sp_failedAt = None, sp_releasedAt = None,
       sp_deniedAt = (if denial = None then None else Some now),
       sp_createdAt = cx_createdAt ctx, sp_updatedAt = now\<rparr>)"

definition reserveNew ::
  "(json \<Rightarrow> string) \<Rightarrow> call_ctx \<Rightarrow> ledger_db \<Rightarrow> reserve_request \<Rightarrow> int \<Rightarrow> int \<Rightarrow> admission_policy
    \<Rightarrow> ledger_error + ledger_db \<times> reserve_response" where
  "reserveNew H ctx db rq now day admission =
     (let config = db_config db; env = cx_env ctx;
          globalCap = parseCap (globalCapValue config env);
          (agentRow, agentError) = resolveAgent db (rq_consumer rq) (rq_agentName rq);
          perAgentCap = map_option (\<lambda>a. parseCap (agentCapValue (ag_budgetPerDayUsd a) config env)) agentRow;
          exposure = readExposure db day (map_option ag_id agentRow);
          priceRows = activeProviderPrices db (rq_provider rq) now;
          priceRow = selectPriceRow priceRows (rq_model rq);
          routedModels = (if rq_consumer rq = Agents \<or> rq_consumer rq = Embeddings
            then Some (sort (map (\<lambda>p. model (pr_price p)) priceRows)) else None);
          openCircuit = providerCircuit db now (rq_provider rq);
          (denial, reserveNano) = newDenial db rq admission globalCap perAgentCap agentError openCircuit
            (map_option snapshotOf priceRow) priceRows exposure
            (case agentRow of None \<Rightarrow> [] | Some a \<Rightarrow> ag_name a);
          action = budgetAction (case agentRow of None \<Rightarrow> None | Some a \<Rightarrow> ag_budgetOnExceeded a);
          row = newSpend H ctx rq now day agentRow priceRow routedModels action denial reserveNano;
          after = \<lparr>ex_global = ex_global exposure + reserveNano,
            ex_agent = map_option (\<lambda>a. a + reserveNano) (ex_agent exposure)\<rparr> in
      rbind (insert_spend row db) (\<lambda>db'.
      Inr (db', case denial of
          Some d \<Rightarrow> refusal Denied action (Denial d) False
            (budgetOf day (cap_nano globalCap) exposure (map_option cap_nano perAgentCap))
        | None \<Rightarrow> allowedResponse row False
            (budgetOf day (cap_nano globalCap) after (map_option cap_nano perAgentCap)) action)))"

section \<open>Reserve\<close>

definition reserveInTx ::
  "(json \<Rightarrow> string) \<Rightarrow> (int \<Rightarrow> string) option \<Rightarrow> call_ctx \<Rightarrow> reserve_dto \<Rightarrow> ledger_db
    \<Rightarrow> ledger_error + ledger_db \<times> reserve_response \<times> lock_key list" where
  "reserveInTx H requestKeyForDay ctx dto db =
     (let request0 = normalizeReserve dto;
          choice = (case requestKeyForDay of
              Some f \<Rightarrow> map_option (\<lambda>(c, k). (c, request0\<lparr>rq_requestKey := k\<rparr>))
                (stabilizeTaskDay f (cx_clock ctx))
            | None \<Rightarrow> map_option (\<lambda>c. (more_locks [RequestLock (rq_requestKey request0)] c, request0))
                (stabilizeLedgerDay (cx_clock ctx))) in
      case choice of
        None \<Rightarrow> Inl ClockExhausted
      | Some (c, request) \<Rightarrow>
          rbind (of_config (resolveLlmAdmissionPolicy (db_config db) (cx_env ctx))) (\<lambda>admission.
          rbind (case spend_where (\<lambda>r. sp_requestKey r = rq_requestKey request) db of
              Some prior \<Rightarrow> Inr (db, reserveReplay H (cx_env ctx) db request (dc_now c) (dc_day c) admission prior)
            | None \<Rightarrow> reserveNew H ctx db request (dc_now c) (dc_day c) admission) (\<lambda>(db', resp).
          Inr (db', resp, ProviderLock (rq_provider request0) # dc_locks c))))"

end
