(* ===== verification/LedgerClose.thy ===== *)
theory LedgerClose
  imports LedgerReserve
begin

text \<open>
  The operations that close a reservation, \<^verbatim>\<open>llm-ledger.service.ts\<close>: \<open>settleInTx\<close>,
  \<open>releaseInTx\<close> and \<open>recoverPreDispatchInTx\<close>.  \<open>t\<close> is the clock reading of the call.
\<close>

definition close_locks :: "string \<Rightarrow> string \<Rightarrow> int \<Rightarrow> lock_key list" where
  "close_locks prov key day = [ProviderLock prov, RequestLock key, BudgetLock day]"

definition assertNotTaskJobSpend :: "ledger_db \<Rightarrow> string \<Rightarrow> ledger_error + unit" where
  "assertNotTaskJobSpend db i = guard_res (i \<notin> set (db_taskSpends db)) TaskJobSpend"

definition LLM_PRE_DISPATCH_RECOVERY_REASON :: string where
  "LLM_PRE_DISPATCH_RECOVERY_REASON =
     ''settlement_outbox_reserve_uncertain_before_provider_dispatch''"

section \<open>Settlement\<close>

record settle_result =
  sr_status :: spend_status
  sr_replay :: bool

definition settledRow ::
  "settlement \<Rightarrow> string \<Rightarrow> anomaly option \<Rightarrow> int option \<Rightarrow> int \<Rightarrow> spend \<Rightarrow> spend" where
  "settledRow s settlementHash anomaly actual t r =
     (let success = (st_outcome s = Success \<and> anomaly = None);
          storedOutcome = (if anomaly \<noteq> None then Unknown else st_outcome s) in
      r\<lparr>sp_status := (if success then Settled else Failed), sp_outcome := Some storedOutcome,
        sp_settlementHash := Some settlementHash, sp_actual := actual, sp_usage := st_usage s,
        sp_providerRequestId := st_providerRequestId s, sp_resolvedModel := st_resolvedModel s,
        sp_reason := (case anomaly of Some a \<Rightarrow> Some (Anomaly a) | None \<Rightarrow> map_option Text (st_reason s)),
        sp_metadata := mergeSettlementMetadata (sp_metadata r) (st_metadata s)
          (storedOutcome = Unknown \<and> actual \<noteq> None) anomaly,
        sp_settledAt := (if success then Some t else None),
        sp_failedAt := (if success then None else Some t), sp_updatedAt := t\<rparr>)"

definition settleReserved ::
  "settlement \<Rightarrow> string \<Rightarrow> int \<Rightarrow> spend \<Rightarrow> ledger_db \<Rightarrow> ledger_error + ledger_db \<times> settle_result" where
  "settleReserved s settlementHash t row db =
     rbind (parseSnapshot (sp_priceSnapshot row)) (\<lambda>price.
     rbind (of_money (settlementCostNano price (sp_consumer row) (st_usage s)
       (st_providerReportedUsd s))) (\<lambda>snapshotActual.
     (let anomaly = classifySettlementAnomaly price (st_outcome s) (st_resolvedModel s) snapshotActual in
      rbind (if anomaly \<noteq> None then of_money (anomalyActualNano db row s snapshotActual)
             else Inr snapshotActual) (\<lambda>actual.
      rbind (set_spend (sp_id row) (settledRow s settlementHash anomaly actual t) db) (\<lambda>db'.
      Inr (db', \<lparr>sr_status = (if st_outcome s = Success \<and> anomaly = None then Settled else Failed),
        sr_replay = False\<rparr>))))))"

definition settleInTx ::
  "(json \<Rightarrow> string) \<Rightarrow> bool \<Rightarrow> int \<Rightarrow> string \<Rightarrow> settlement \<Rightarrow> ledger_db
    \<Rightarrow> ledger_error + ledger_db \<times> settle_result \<times> lock_key list" where
  "settleInTx H allowTaskJobSpend t i dto db =
     rbind (normalizeSettlement dto) (\<lambda>s.
     (let settlementHash = hashLedgerPayload H (settlementJson s) in
      case spend_where (\<lambda>r. sp_id r = i) db of
        None \<Rightarrow> Inl SpendNotFound
      | Some row \<Rightarrow>
          rbind (if allowTaskJobSpend then Inr () else assertNotTaskJobSpend db i) (\<lambda>_.
          rbind (if sp_status row = Settled \<or> sp_status row = Failed
                 then (if sp_settlementHash row = Some settlementHash
                       then Inr (db, \<lparr>sr_status = sp_status row, sr_replay = True\<rparr>)
                       else Inl ClosedByOtherSettlement)
                 else if sp_status row \<noteq> Reserved then Inl (WrongStatus (sp_status row))
                 else settleReserved s settlementHash t row db) (\<lambda>(db', res).
          Inr (db', res, close_locks (sp_provider row) (sp_requestKey row) (sp_day row))))))"

section \<open>Release and recovery\<close>

definition releasedRow :: "string \<Rightarrow> int \<Rightarrow> spend \<Rightarrow> spend" where
  "releasedRow reason t r = r\<lparr>sp_status := Released, sp_reason := Some (Text reason),
     sp_releasedAt := Some t, sp_updatedAt := t\<rparr>"

text \<open>The result is the \<open>replay\<close> flag.\<close>

definition releaseInTx ::
  "bool \<Rightarrow> int \<Rightarrow> string \<Rightarrow> string \<Rightarrow> ledger_db
    \<Rightarrow> ledger_error + ledger_db \<times> bool \<times> lock_key list" where
  "releaseInTx allowTaskJobSpend t i reason0 db =
     (let reason = js_trim reason0 in
      case spend_where (\<lambda>r. sp_id r = i) db of
        None \<Rightarrow> Inl SpendNotFound
      | Some row \<Rightarrow>
          rbind (if allowTaskJobSpend then Inr () else assertNotTaskJobSpend db i) (\<lambda>_.
          (let locks = close_locks (sp_provider row) (sp_requestKey row) (sp_day row) in
           if sp_status row = Released \<and> sp_reason row = Some (Text reason)
           then Inr (db, True, locks)
           else if sp_status row \<noteq> Reserved then Inl (WrongStatus (sp_status row))
           else rbind (set_spend i (releasedRow reason t) db) (\<lambda>db'. Inr (db', False, locks)))))"

text \<open>The status is \<open>None\<close> for a missing row.\<close>

record recovery_result =
  rec_status :: "spend_status option"
  rec_replay :: bool

definition recoverPreDispatchInTx ::
  "int \<Rightarrow> string \<Rightarrow> ledger_db \<Rightarrow> ledger_error + ledger_db \<times> recovery_result \<times> lock_key list" where
  "recoverPreDispatchInTx t requestKey0 db =
     (let requestKey = js_trim requestKey0 in
      case spend_where (\<lambda>r. sp_requestKey r = requestKey) db of
        None \<Rightarrow> Inr (db, \<lparr>rec_status = None, rec_replay = True\<rparr>, [])
      | Some row \<Rightarrow>
          rbind (assertNotTaskJobSpend db (sp_id row)) (\<lambda>_.
          (let locks = close_locks (sp_provider row) requestKey (sp_day row) in
           if sp_status row \<noteq> Reserved
           then Inr (db, \<lparr>rec_status = Some (sp_status row), rec_replay = True\<rparr>, locks)
           else rbind (set_spend (sp_id row) (releasedRow LLM_PRE_DISPATCH_RECOVERY_REASON t) db) (\<lambda>db'.
             Inr (db', \<lparr>rec_status = Some Released, rec_replay = False\<rparr>, locks)))))"

end
