(* ===== verification/RowHistory.thy ===== *)
theory RowHistory
  imports Prelude
begin

text \<open>
  The contract every table of the program keeps: a step never removes a row, and changes a row
  only as its \<open>evolves\<close> relation allows.  The client lemmas follow a row through any sequence
  of steps.
\<close>

locale row_history =
  fixes rows :: "'s \<Rightarrow> 'r list"
    and evolves :: "'r \<Rightarrow> 'r \<Rightarrow> bool"
    and ok :: "'s \<Rightarrow> bool"
    and step :: "'s \<Rightarrow> 's \<Rightarrow> bool"
  assumes evolves_refl: "evolves r r"
    and evolves_trans: "evolves a b \<Longrightarrow> evolves b c \<Longrightarrow> evolves a c"
    and step_ok: "step s s' \<Longrightarrow> ok s \<Longrightarrow> ok s'"
    and step_rows: "step s s' \<Longrightarrow> ok s \<Longrightarrow> r \<in> set (rows s) \<Longrightarrow> \<exists>r' \<in> set (rows s'). evolves r r'"
begin

lemma steps_ok: "step\<^sup>*\<^sup>* s s' \<Longrightarrow> ok s \<Longrightarrow> ok s'"
  by (induction rule: rtranclp_induct) (auto intro: step_ok)

lemma row_followed:
  assumes "step\<^sup>*\<^sup>* s s'" "ok s" "r \<in> set (rows s)"
  shows "\<exists>r' \<in> set (rows s'). evolves r r'"
  using assms(1)
proof (induction rule: rtranclp_induct)
  case base
  then show ?case using assms(3) evolves_refl by auto
next
  case (step y z)
  then obtain r' where r': "r' \<in> set (rows y)" "evolves r r'" by auto
  have "ok y" using step.hyps(1) assms(2) by (rule steps_ok)
  with step.hyps(2) r' obtain r'' where "r'' \<in> set (rows z)" "evolves r' r''"
    using step_rows by blast
  with r' show ?case using evolves_trans by blast
qed

end

text \<open>A table with an identifying column: the row of an identifier is unique, so a row that is
  final stays exactly as it is.\<close>

locale keyed_history = row_history +
  fixes ident :: "'r \<Rightarrow> 'k"
    and final :: "'r \<Rightarrow> bool"
  assumes ok_distinct: "ok s \<Longrightarrow> distinct (map ident (rows s))"
    and evolves_ident: "evolves r r' \<Longrightarrow> ident r' = ident r"
    and final_fixed: "evolves r r' \<Longrightarrow> final r \<Longrightarrow> r' = r"
begin

lemma row_by_ident:
  assumes "step\<^sup>*\<^sup>* s s'" "ok s" "r \<in> set (rows s)" "r' \<in> set (rows s')" "ident r' = ident r"
  shows "evolves r r'"
proof -
  obtain x where x: "x \<in> set (rows s')" "evolves r x"
    using row_followed [OF assms(1-3)] by blast
  have "distinct (map ident (rows s'))"
    using steps_ok [OF assms(1,2)] by (rule ok_distinct)
  moreover have "ident x = ident r'" using evolves_ident [OF x(2)] assms(5) by simp
  ultimately have "x = r'" using x(1) assms(4) by (simp add: distinct_map inj_on_def)
  with x(2) show ?thesis by simp
qed

lemma final_row_stays:
  assumes "step\<^sup>*\<^sup>* s s'" "ok s" "r \<in> set (rows s)" "final r"
  shows "r \<in> set (rows s')"
  using row_followed [OF assms(1-3)] final_fixed [OF _ assms(4)] by metis

end

section \<open>Tables that grow\<close>

text \<open>The usual shape of a step: rows are rewritten in place and new rows are appended.\<close>

definition grows :: "('r \<Rightarrow> 'r \<Rightarrow> bool) \<Rightarrow> 'r list \<Rightarrow> 'r list \<Rightarrow> bool" where
  "grows R xs ys \<longleftrightarrow> (\<exists>f new. ys = map f xs @ new \<and> (\<forall>x \<in> set xs. R x (f x)))"

lemma grows_refl: "(\<And>x. R x x) \<Longrightarrow> grows R xs xs"
  unfolding grows_def by (intro exI [of _ id] exI [of _ "[]"]) simp

lemma grows_append: "(\<And>x. R x x) \<Longrightarrow> grows R xs (xs @ new)"
  unfolding grows_def by (intro exI [of _ id] exI [of _ new]) simp

lemma grows_map: "(\<And>x. x \<in> set xs \<Longrightarrow> R x (f x)) \<Longrightarrow> grows R xs (map f xs)"
  unfolding grows_def by (intro exI [of _ f] exI [of _ "[]"]) simp

lemma grows_trans:
  assumes "\<And>x y z. R x y \<Longrightarrow> R y z \<Longrightarrow> R x z" "grows R xs ys" "grows R ys zs"
  shows "grows R xs zs"
proof -
  obtain f new where f: "ys = map f xs @ new" "\<forall>x \<in> set xs. R x (f x)"
    using assms(2) unfolding grows_def by blast
  obtain g new' where g: "zs = map g ys @ new'" "\<forall>y \<in> set ys. R y (g y)"
    using assms(3) unfolding grows_def by blast
  have "zs = map (g \<circ> f) xs @ (map g new @ new')" using f(1) g(1) by simp
  moreover have "\<forall>x \<in> set xs. R x ((g \<circ> f) x)" using f g assms(1) by auto
  ultimately show ?thesis unfolding grows_def by blast
qed

lemma grows_mem: "grows R xs ys \<Longrightarrow> x \<in> set xs \<Longrightarrow> \<exists>y \<in> set ys. R x y"
  unfolding grows_def by auto

end
