(* ===== verification/LedgerFacts.thy ===== *)
theory LedgerFacts
  imports LedgerClose RowHistory
begin

text \<open>
  The shape of every ledger operation and the invariant of \<open>llm_spend\<close>: a successful operation
  leaves the table alone, appends one fresh row, or closes one reserved row; the step relation of
  the ledger and the interpretation of the table-history contract.
\<close>

section \<open>Table updates\<close>

lemma spend_where_Some:
  "spend_where p db = Some r \<Longrightarrow> r \<in> set (db_spends db) \<and> p r"
  by (auto simp: spend_where_def find_Some_iff)

lemma spend_where_None: "spend_where p db = None \<longleftrightarrow> (\<forall>r \<in> set (db_spends db). \<not> p r)"
  by (auto simp: spend_where_def find_None_iff)

lemma insert_spend_Inr:
  "insert_spend r db = Inr db' \<longleftrightarrow> row_checks r = Inr () \<and>
    (\<forall>s \<in> set (db_spends db). sp_id s \<noteq> sp_id r \<and> sp_requestKey s \<noteq> sp_requestKey r
       \<and> \<not> same_provider_request r s) \<and> db' = db\<lparr>db_spends := db_spends db @ [r]\<rparr>"
  by (auto simp: insert_spend_def rbind_eq_Inr list_ex_iff split: if_splits)

lemma set_spend_Inr:
  assumes "set_spend i f db = Inr db'" "spend_where (\<lambda>r. sp_id r = i) db = Some r"
  shows "row_checks (f r) = Inr ()" "db' = update_spend i f db"
    "\<forall>s \<in> set (db_spends db). sp_id s \<noteq> i \<longrightarrow> \<not> same_provider_request (f r) s"
  using assms by (auto simp: set_spend_def rbind_eq_Inr list_ex_iff split: if_splits)

lemma update_spends [simp]:
  "db_spends (update_spend i f db) = map (\<lambda>r. if sp_id r = i then f r else r) (db_spends db)"
  "db_prices (update_spend i f db) = db_prices db"
  "db_agents (update_spend i f db) = db_agents db"
  "db_config (update_spend i f db) = db_config db"
  "db_taskSpends (update_spend i f db) = db_taskSpends db"
  by (simp_all add: update_spend_def)

section \<open>Rows\<close>

definition row_ok :: "spend \<Rightarrow> bool" where
  "row_ok r \<longleftrightarrow> row_checks r = Inr () \<and>
     (case sp_status r of
        Reserved \<Rightarrow> sp_actual r = None \<and> sp_outcome r = None \<and> sp_settlementHash r = None
          \<and> sp_reservedAt r \<noteq> None
      | Settled \<Rightarrow> sp_outcome r = Some Success \<and> sp_actual r \<noteq> None \<and> sp_settlementHash r \<noteq> None
          \<and> sp_settledAt r \<noteq> None
      | Failed \<Rightarrow> sp_outcome r \<noteq> None \<and> sp_settlementHash r \<noteq> None \<and> sp_failedAt r \<noteq> None
      | Released \<Rightarrow> sp_actual r = None \<and> sp_settlementHash r = None \<and> sp_releasedAt r \<noteq> None
      | Denied \<Rightarrow> sp_actual r = None \<and> sp_settlementHash r = None \<and> sp_deniedAt r \<noteq> None)"

definition ledger_ok :: "ledger_db \<Rightarrow> bool" where
  "ledger_ok db \<longleftrightarrow> distinct (map sp_id (db_spends db)) \<and> distinct (map sp_requestKey (db_spends db))
     \<and> (\<forall>r \<in> set (db_spends db). row_ok r)"

lemma row_checks_money:
  assumes "row_checks r = Inr ()"
  shows "0 \<le> sp_reserved r" "sp_actual r = Some a \<Longrightarrow> 0 \<le> a"
  using assms by (auto simp: row_checks_def spend_money_def split: if_splits)

text \<open>The columns no operation changes after the insert.\<close>

definition same_reservation :: "spend \<Rightarrow> spend \<Rightarrow> bool" where
  "same_reservation r r' \<longleftrightarrow> sp_id r' = sp_id r \<and> sp_requestKey r' = sp_requestKey r
     \<and> sp_requestHash r' = sp_requestHash r \<and> sp_consumer r' = sp_consumer r
     \<and> sp_feature r' = sp_feature r \<and> sp_agentId r' = sp_agentId r \<and> sp_provider r' = sp_provider r
     \<and> sp_model r' = sp_model r \<and> sp_priceId r' = sp_priceId r
     \<and> sp_priceSnapshot r' = sp_priceSnapshot r \<and> sp_day r' = sp_day r
     \<and> sp_inputTokenCeiling r' = sp_inputTokenCeiling r
     \<and> sp_outputTokenCeiling r' = sp_outputTokenCeiling r \<and> sp_reserved r' = sp_reserved r
     \<and> sp_reservedAt r' = sp_reservedAt r \<and> sp_createdAt r' = sp_createdAt r"

definition spend_evolves :: "spend \<Rightarrow> spend \<Rightarrow> bool" where
  "spend_evolves r r' \<longleftrightarrow> r' = r \<or>
     same_reservation r r' \<and> sp_status r = Reserved \<and> sp_status r' \<in> {Settled, Failed, Released}"

definition spend_final :: "spend \<Rightarrow> bool" where
  "spend_final r \<longleftrightarrow> sp_status r \<noteq> Reserved"

lemma same_reservation_trans:
  "same_reservation a b \<Longrightarrow> same_reservation b c \<Longrightarrow> same_reservation a c"
  by (simp add: same_reservation_def)

lemma settledRow_same [simp]: "same_reservation r (settledRow s h an a t r)"
  by (simp add: same_reservation_def settledRow_def Let_def)

lemma releasedRow_same [simp]: "same_reservation r (releasedRow m t r)"
  by (simp add: same_reservation_def releasedRow_def)

section \<open>Effects of the operations\<close>

text \<open>Closing the reserved row \<open>r\<close> into \<open>r'\<close>.\<close>

definition closes :: "ledger_db \<Rightarrow> spend \<Rightarrow> spend \<Rightarrow> ledger_db \<Rightarrow> bool" where
  "closes db r r' db' \<longleftrightarrow> r \<in> set (db_spends db) \<and> sp_status r = Reserved
     \<and> same_reservation r r' \<and> row_checks r' = Inr ()
     \<and> (\<exists>f. f r = r' \<and> db' = update_spend (sp_id r) f db)"

lemma set_spend_closes:
  assumes "set_spend (sp_id r) f db = Inr db'" "spend_where (\<lambda>x. sp_id x = sp_id r) db = Some r"
    "sp_status r = Reserved" "same_reservation r (f r)"
  shows "closes db r (f r) db'"
  using set_spend_Inr [OF assms(1,2)] spend_where_Some [OF assms(2)] assms(3,4)
  by (auto simp: closes_def)

lemma releaseInTx_effect:
  assumes "releaseInTx al t i reason db = Inr (db', rep, ls)"
  obtains (same) r where "db' = db" "rep" "r \<in> set (db_spends db)" "sp_id r = i" "sp_status r = Released"
  | (closed) r where "\<not> rep" "sp_id r = i" "closes db r (releasedRow (js_trim reason) t r) db'"
proof -
  obtain r where r: "spend_where (\<lambda>x. sp_id x = i) db = Some r"
    using assms by (auto simp: releaseInTx_def Let_def split: option.splits)
  note rr = spend_where_Some [OF r]
  show ?thesis
  proof (cases "sp_status r = Released \<and> sp_reason r = Some (Text (js_trim reason))")
    case True
    with assms r rr same show ?thesis by (auto simp: releaseInTx_def Let_def rbind_eq_Inr)
  next
    case False
    with assms r have "sp_status r = Reserved" "\<not> rep"
      "set_spend i (releasedRow (js_trim reason) t) db = Inr db'"
      by (auto simp: releaseInTx_def Let_def rbind_eq_Inr split: if_splits)
    with r rr show ?thesis by (intro closed [of r]) (auto intro: set_spend_closes)
  qed
qed

lemma recover_effect:
  assumes "recoverPreDispatchInTx t key db = Inr (db', res, ls)"
  obtains (same) "db' = db" "rec_replay res"
  | (closed) r where "\<not> rec_replay res" "sp_requestKey r = js_trim key" "rec_status res = Some Released"
      "spend_where (\<lambda>x. sp_requestKey x = js_trim key) db = Some r"
      "set_spend (sp_id r) (releasedRow LLM_PRE_DISPATCH_RECOVERY_REASON t) db = Inr db'"
      "sp_status r = Reserved"
proof (cases "spend_where (\<lambda>x. sp_requestKey x = js_trim key) db")
  case None
  with assms same show ?thesis by (auto simp: recoverPreDispatchInTx_def Let_def)
next
  case (Some r)
  show ?thesis
  proof (cases "sp_status r = Reserved")
    case True
    with assms Some spend_where_Some [OF Some] show ?thesis
      by (intro closed [of r]) (auto simp: recoverPreDispatchInTx_def Let_def rbind_eq_Inr)
  next
    case False
    with assms Some same show ?thesis
      by (auto simp: recoverPreDispatchInTx_def Let_def rbind_eq_Inr)
  qed
qed

lemma spend_where_id:
  assumes "ledger_ok db" "r \<in> set (db_spends db)"
  shows "spend_where (\<lambda>x. sp_id x = sp_id r) db = Some r"
proof -
  obtain x where x: "spend_where (\<lambda>x. sp_id x = sp_id r) db = Some x"
    using assms(2) spend_where_None [of "\<lambda>x. sp_id x = sp_id r" db] by fastforce
  with spend_where_Some [OF x] assms have "x = r"
    by (auto simp: ledger_ok_def distinct_map inj_on_def)
  with x show ?thesis by simp
qed

lemma spend_where_key:
  assumes "ledger_ok db" "r \<in> set (db_spends db)"
  shows "spend_where (\<lambda>x. sp_requestKey x = sp_requestKey r) db = Some r"
proof -
  obtain x where x: "spend_where (\<lambda>x. sp_requestKey x = sp_requestKey r) db = Some x"
    using assms(2) spend_where_None [of "\<lambda>x. sp_requestKey x = sp_requestKey r" db] by fastforce
  with spend_where_Some [OF x] assms have "x = r"
    by (auto simp: ledger_ok_def distinct_map inj_on_def)
  with x show ?thesis by simp
qed

lemma recover_closes:
  assumes "recoverPreDispatchInTx t key db = Inr (db', res, ls)" "ledger_ok db"
  obtains (same) "db' = db" "rec_replay res"
  | (closed) r where "\<not> rec_replay res" "sp_requestKey r = js_trim key"
      "closes db r (releasedRow LLM_PRE_DISPATCH_RECOVERY_REASON t r) db'"
  using assms(1)
proof (cases rule: recover_effect)
  case same
  then show ?thesis by (rule that(1))
next
  case (closed r)
  have "spend_where (\<lambda>x. sp_id x = sp_id r) db = Some r"
    using assms(2) spend_where_Some [OF closed(4)] by (intro spend_where_id) auto
  with closed(5) have "closes db r (releasedRow LLM_PRE_DISPATCH_RECOVERY_REASON t r) db'"
    using closed(6) by (rule set_spend_closes) simp
  with closed(1,2) show ?thesis by (rule that(2))
qed

text \<open>The steps of a settlement that was not a replay.\<close>

definition settles ::
  "settlement \<Rightarrow> string \<Rightarrow> int \<Rightarrow> spend \<Rightarrow> ledger_db \<Rightarrow> ledger_db \<Rightarrow> settle_result
    \<Rightarrow> price_snapshot \<Rightarrow> int option \<Rightarrow> anomaly option \<Rightarrow> int option \<Rightarrow> bool" where
  "settles s h t r db db' res price sn an a \<longleftrightarrow>
     parseSnapshot (sp_priceSnapshot r) = Inr price
     \<and> settlementCostNano price (sp_consumer r) (st_usage s) (st_providerReportedUsd s) = Inr sn
     \<and> an = classifySettlementAnomaly price (st_outcome s) (st_resolvedModel s) sn
     \<and> (an = None \<longrightarrow> a = sn) \<and> (an \<noteq> None \<longrightarrow> anomalyActualNano db r s sn = Inr a)
     \<and> set_spend (sp_id r) (settledRow s h an a t) db = Inr db'
     \<and> res = \<lparr>sr_status = (if st_outcome s = Success \<and> an = None then Settled else Failed),
        sr_replay = False\<rparr>"

lemma settlesD:
  assumes "settles s h t r db db' res price sn an a"
  shows "parseSnapshot (sp_priceSnapshot r) = Inr price"
    "settlementCostNano price (sp_consumer r) (st_usage s) (st_providerReportedUsd s) = Inr sn"
    "an = classifySettlementAnomaly price (st_outcome s) (st_resolvedModel s) sn"
    "an = None \<Longrightarrow> a = sn" "an \<noteq> None \<Longrightarrow> anomalyActualNano db r s sn = Inr a"
    "set_spend (sp_id r) (settledRow s h an a t) db = Inr db'"
    "sr_status res = (if st_outcome s = Success \<and> an = None then Settled else Failed)"
    "\<not> sr_replay res"
proof -
  note d = assms [unfolded settles_def]
  show "parseSnapshot (sp_priceSnapshot r) = Inr price"
    "settlementCostNano price (sp_consumer r) (st_usage s) (st_providerReportedUsd s) = Inr sn"
    "an = classifySettlementAnomaly price (st_outcome s) (st_resolvedModel s) sn"
    "an = None \<Longrightarrow> a = sn" "an \<noteq> None \<Longrightarrow> anomalyActualNano db r s sn = Inr a"
    "set_spend (sp_id r) (settledRow s h an a t) db = Inr db'"
    using d by blast+
  have "res = \<lparr>sr_status = (if st_outcome s = Success \<and> an = None then Settled else Failed),
        sr_replay = False\<rparr>"
    using d by blast
  then show "sr_status res = (if st_outcome s = Success \<and> an = None then Settled else Failed)"
    "\<not> sr_replay res" by (simp_all only: settle_result.simps simp_thms)
qed

lemma settleReserved_effect:
  assumes "settleReserved s h t r db = Inr (db', res)"
  shows "\<exists>price sn an a. settles s h t r db db' res price sn an a"
proof -
  from assms obtain price sn where p: "parseSnapshot (sp_priceSnapshot r) = Inr price"
    and c: "settlementCostNano price (sp_consumer r) (st_usage s) (st_providerReportedUsd s) = Inr sn"
    by (auto simp: settleReserved_def rbind_eq_Inr)
  let ?an = "classifySettlementAnomaly price (st_outcome s) (st_resolvedModel s) sn"
  from assms p c obtain a where
    "(if ?an \<noteq> None then of_money (anomalyActualNano db r s sn) else Inr sn) = Inr a"
    "set_spend (sp_id r) (settledRow s h ?an a t) db = Inr db'"
    "res = \<lparr>sr_status = (if st_outcome s = Success \<and> ?an = None then Settled else Failed),
        sr_replay = False\<rparr>"
    by (auto simp: settleReserved_def Let_def rbind_eq_Inr)
  with p c show ?thesis
    by (intro exI [of _ price] exI [of _ sn] exI [of _ ?an] exI [of _ a])
      (auto simp: settles_def split: if_splits)
qed

lemma settleInTx_effect:
  assumes "settleInTx H al t i dto db = Inr (db', res, ls)"
  obtains (same) s r where "normalizeSettlement dto = Inr s" "db' = db"
      "spend_where (\<lambda>x. sp_id x = i) db = Some r" "sp_status r \<in> {Settled, Failed}"
      "sp_settlementHash r = Some (hashLedgerPayload H (settlementJson s))"
      "res = \<lparr>sr_status = sp_status r, sr_replay = True\<rparr>" "al \<or> i \<notin> set (db_taskSpends db)"
  | (closed) s r where "normalizeSettlement dto = Inr s"
      "spend_where (\<lambda>x. sp_id x = i) db = Some r" "sp_status r = Reserved"
      "settleReserved s (hashLedgerPayload H (settlementJson s)) t r db = Inr (db', res)"
      "al \<or> i \<notin> set (db_taskSpends db)"
proof -
  from assms obtain s where s: "normalizeSettlement dto = Inr s"
    by (auto simp: settleInTx_def rbind_eq_Inr)
  with assms obtain r where r: "spend_where (\<lambda>x. sp_id x = i) db = Some r"
    by (auto simp: settleInTx_def Let_def split: option.splits)
  have al: "al \<or> i \<notin> set (db_taskSpends db)"
    using assms s r by (auto simp: settleInTx_def Let_def rbind_eq_Inr assertNotTaskJobSpend_def
        guard_res_eq split: if_splits)
  show ?thesis
  proof (cases "sp_status r = Settled \<or> sp_status r = Failed")
    case True
    with assms s r al same show ?thesis
      by (auto simp: settleInTx_def Let_def rbind_eq_Inr split: if_splits)
  next
    case False
    with assms s r al closed show ?thesis
      by (auto simp: settleInTx_def Let_def rbind_eq_Inr split: if_splits)
  qed
qed

lemma settledRow_fields [simp]:
  "sp_status (settledRow s h an a t r) = (if st_outcome s = Success \<and> an = None then Settled else Failed)"
  "sp_outcome (settledRow s h an a t r) = Some (if an \<noteq> None then Unknown else st_outcome s)"
  "sp_actual (settledRow s h an a t r) = a"
  "sp_settlementHash (settledRow s h an a t r) = Some h"
  "sp_settledAt (settledRow s h an a t r) = (if st_outcome s = Success \<and> an = None then Some t else None)"
  "sp_failedAt (settledRow s h an a t r) = (if st_outcome s = Success \<and> an = None then None else Some t)"
  "sp_provider (settledRow s h an a t r) = sp_provider r"
  "sp_reserved (settledRow s h an a t r) = sp_reserved r"
  "sp_day (settledRow s h an a t r) = sp_day r" "sp_agentId (settledRow s h an a t r) = sp_agentId r"
  "sp_id (settledRow s h an a t r) = sp_id r"
  by (simp_all add: settledRow_def Let_def)

lemma releasedRow_fields [simp]:
  "sp_status (releasedRow m t r) = Released" "sp_actual (releasedRow m t r) = sp_actual r"
  "sp_settlementHash (releasedRow m t r) = sp_settlementHash r"
  "sp_releasedAt (releasedRow m t r) = Some t" "sp_reserved (releasedRow m t r) = sp_reserved r"
  by (simp_all add: releasedRow_def)

lemma settled_row_ok:
  assumes "row_checks (settledRow s h an a t r) = Inr ()"
    and "st_outcome s = Success \<Longrightarrow> an = None \<Longrightarrow> a \<noteq> None"
  shows "row_ok (settledRow s h an a t r)"
  using assms by (auto simp: row_ok_def split: spend_status.splits)

lemma classify_none_cost:
  "classifySettlementAnomaly p Success m a = None \<Longrightarrow> a \<noteq> None"
  by (auto simp: classifySettlementAnomaly_def split: option.splits if_splits)

lemma released_row_ok:
  assumes "row_ok r" "sp_status r = Reserved" "row_checks (releasedRow m t r) = Inr ()"
  shows "row_ok (releasedRow m t r)"
  using assms by (simp add: row_ok_def)

lemma settle_closes:
  assumes "settleInTx H al t i dto db = Inr (db', res, ls)" "\<not> sr_replay res"
  obtains r r' where "sp_id r = i" "closes db r r' db'" "row_ok r'"
    "sp_status r' = sr_status res" "sr_status res \<in> {Settled, Failed}"
  using assms(1)
proof (cases rule: settleInTx_effect)
  case (same s r)
  with assms(2) show ?thesis by simp
next
  case (closed s r)
  note r = spend_where_Some [OF closed(2)]
  obtain price sn an a where
    "settles s (hashLedgerPayload H (settlementJson s)) t r db db' res price sn an a"
    using settleReserved_effect [OF closed(4)] by blast
  note e = settlesD [OF this]
  let ?r' = "settledRow s (hashLedgerPayload H (settlementJson s)) an a t r"
  have w: "spend_where (\<lambda>x. sp_id x = sp_id r) db = Some r" using closed(2) r by simp
  have c: "closes db r ?r' db'"
    using e(6) w closed(3) by (rule set_spend_closes) simp
  moreover have "row_ok ?r'"
    using set_spend_Inr(1) [OF e(6) w]
  proof (rule settled_row_ok)
    assume "st_outcome s = Success" "an = None"
    with e(3,4) classify_none_cost [of price "st_resolvedModel s" sn] show "a \<noteq> None" by metis
  qed
  moreover have "sp_status ?r' = sr_status res" using e(7) by simp
  ultimately show ?thesis using that r e(7) by auto
qed

section \<open>Reserve\<close>

lemma reserveInTx_effect:
  assumes "reserveInTx H kd ctx dto db = Inr (db', resp, ls)"
  obtains (prior) c :: day_choice and rq adm prior where
      "spend_where (\<lambda>r. sp_requestKey r = rq_requestKey rq) db = Some prior" "db' = db"
      "resolveLlmAdmissionPolicy (db_config db) (cx_env ctx) = Inr adm"
      "resp = reserveReplay H (cx_env ctx) db rq (dc_now c) (dc_day c) adm prior"
      "ls = ProviderLock (rq_provider (normalizeReserve dto)) # dc_locks c"
  | (fresh) c :: day_choice and rq adm where
      "spend_where (\<lambda>r. sp_requestKey r = rq_requestKey rq) db = None"
      "resolveLlmAdmissionPolicy (db_config db) (cx_env ctx) = Inr adm"
      "reserveNew H ctx db rq (dc_now c) (dc_day c) adm = Inr (db', resp)"
      "ls = ProviderLock (rq_provider (normalizeReserve dto)) # dc_locks c"
proof -
  let ?ch = "case kd of
      Some f \<Rightarrow> map_option (\<lambda>(c, k). (c, (normalizeReserve dto)\<lparr>rq_requestKey := k\<rparr>))
        (stabilizeTaskDay f (cx_clock ctx))
    | None \<Rightarrow> map_option (\<lambda>c. (more_locks [RequestLock (rq_requestKey (normalizeReserve dto))] c,
        normalizeReserve dto)) (stabilizeLedgerDay (cx_clock ctx))"
  show ?thesis
  proof (cases ?ch)
    case None
    with assms show ?thesis by (simp add: reserveInTx_def Let_def)
  next
    case (Some cr)
    obtain c rq where cr: "cr = (c, rq)" by (cases cr)
    from assms Some cr obtain adm where
      adm: "resolveLlmAdmissionPolicy (db_config db) (cx_env ctx) = Inr adm"
      by (auto simp: reserveInTx_def Let_def rbind_eq_Inr)
    show ?thesis
    proof (cases "spend_where (\<lambda>r. sp_requestKey r = rq_requestKey rq) db")
      case None
      with assms Some cr adm show ?thesis
        by (intro fresh [of rq adm c]) (auto simp: reserveInTx_def Let_def rbind_eq_Inr of_config_def)
    next
      case (Some prior)
      with assms \<open>?ch = Some cr\<close> cr adm show ?thesis
        by (intro that(1) [of rq prior adm c]) (auto simp: reserveInTx_def Let_def rbind_eq_Inr of_config_def)
    qed
  qed
qed

text \<open>A granted new reservation: the facts of the denial chain.\<close>

lemma newDenial_None:
  assumes "newDenial db rq adm gc pc ae oc price rows ex nm = (None, n)"
  shows "ap_denial adm = None" "\<not> cap_error gc" "ae = None" "oc = None"
    "n \<le> ap_reservationCap adm" "ex_global ex + n \<le> cap_nano gc"
    "\<And>c. pc = Some c \<Longrightarrow> \<not> cap_error c \<and> orZero (ex_agent ex) + n \<le> cap_nano c"
    "\<exists>p. price = Some p \<and> reserveProviderRouteCostNano p (map snapshotOf rows) (rq_consumer rq)
       (rq_inputTokenCeiling rq) (rq_outputTokenCeiling rq) = Inr n"
    "flatOpenAiPriceTierDenial (rq_provider rq) (rq_model rq) (rq_inputTokenCeiling rq) = None"
  using assms
  by (auto simp: newDenial_def Let_def reservationLimitDenial_def
      split: if_splits option.splits prod.splits sum.splits)

lemma reserveNew_effect:
  assumes "reserveNew H ctx db rq now day adm = Inr (db', resp)"
  obtains (made) agentRow agentError routed action d n row where
    "resolveAgent db (rq_consumer rq) (rq_agentName rq) = (agentRow, agentError)"
    "newDenial db rq adm (parseCap (globalCapValue (db_config db) (cx_env ctx)))
       (map_option (\<lambda>a. parseCap (agentCapValue (ag_budgetPerDayUsd a) (db_config db) (cx_env ctx))) agentRow)
       agentError (providerCircuit db now (rq_provider rq))
       (map_option snapshotOf (selectPriceRow (activeProviderPrices db (rq_provider rq) now) (rq_model rq)))
       (activeProviderPrices db (rq_provider rq) now)
       (readExposure db day (map_option ag_id agentRow))
       (case agentRow of None \<Rightarrow> [] | Some a \<Rightarrow> ag_name a) = (d, n)"
    "action = budgetAction (case agentRow of None \<Rightarrow> None | Some a \<Rightarrow> ag_budgetOnExceeded a)"
    "row = newSpend H ctx rq now day agentRow
       (selectPriceRow (activeProviderPrices db (rq_provider rq) now) (rq_model rq)) routed action d n"
    "insert_spend row db = Inr db'"
    "resp = (case d of
        Some e \<Rightarrow> refusal Denied action (Denial e) False
          (budgetOf day (cap_nano (parseCap (globalCapValue (db_config db) (cx_env ctx))))
            (readExposure db day (map_option ag_id agentRow))
            (map_option (\<lambda>a. cap_nano (parseCap (agentCapValue (ag_budgetPerDayUsd a) (db_config db)
              (cx_env ctx)))) agentRow))
      | None \<Rightarrow> allowedResponse row False
          (budgetOf day (cap_nano (parseCap (globalCapValue (db_config db) (cx_env ctx))))
            \<lparr>ex_global = ex_global (readExposure db day (map_option ag_id agentRow)) + n,
             ex_agent = map_option (\<lambda>a. a + n) (ex_agent (readExposure db day (map_option ag_id agentRow)))\<rparr>
            (map_option (\<lambda>a. cap_nano (parseCap (agentCapValue (ag_budgetPerDayUsd a) (db_config db)
              (cx_env ctx)))) agentRow)) action)"
proof -
  let ?rows = "activeProviderPrices db (rq_provider rq) now"
  let ?pr = "selectPriceRow ?rows (rq_model rq)"
  let ?routed = "if rq_consumer rq = Agents \<or> rq_consumer rq = Embeddings
            then Some (sort (map (\<lambda>p. model (pr_price p)) ?rows)) else None"
  obtain ar ae where ra: "resolveAgent db (rq_consumer rq) (rq_agentName rq) = (ar, ae)"
    by (cases "resolveAgent db (rq_consumer rq) (rq_agentName rq)")
  obtain d n where nd: "newDenial db rq adm (parseCap (globalCapValue (db_config db) (cx_env ctx)))
       (map_option (\<lambda>a. parseCap (agentCapValue (ag_budgetPerDayUsd a) (db_config db) (cx_env ctx))) ar)
       ae (providerCircuit db now (rq_provider rq)) (map_option snapshotOf ?pr) ?rows
       (readExposure db day (map_option ag_id ar)) (case ar of None \<Rightarrow> [] | Some a \<Rightarrow> ag_name a) = (d, n)"
    by fastforce
  let ?ac = "budgetAction (case ar of None \<Rightarrow> None | Some a \<Rightarrow> ag_budgetOnExceeded a)"
  let ?row = "newSpend H ctx rq now day ar ?pr ?routed ?ac d n"
  have i: "insert_spend ?row db = Inr db'"
    using assms by (auto simp: reserveNew_def Let_def rbind_eq_Inr ra nd)
  from assms have "resp = (case d of
        Some e \<Rightarrow> refusal Denied ?ac (Denial e) False
          (budgetOf day (cap_nano (parseCap (globalCapValue (db_config db) (cx_env ctx))))
            (readExposure db day (map_option ag_id ar))
            (map_option (\<lambda>a. cap_nano (parseCap (agentCapValue (ag_budgetPerDayUsd a) (db_config db)
              (cx_env ctx)))) ar))
      | None \<Rightarrow> allowedResponse ?row False
          (budgetOf day (cap_nano (parseCap (globalCapValue (db_config db) (cx_env ctx))))
            \<lparr>ex_global = ex_global (readExposure db day (map_option ag_id ar)) + n,
             ex_agent = map_option (\<lambda>a. a + n) (ex_agent (readExposure db day (map_option ag_id ar)))\<rparr>
            (map_option (\<lambda>a. cap_nano (parseCap (agentCapValue (ag_budgetPerDayUsd a) (db_config db)
              (cx_env ctx)))) ar)) ?ac)"
    unfolding reserveNew_def Let_def ra nd prod.case i rbind_Inr option.map_comp o_def by simp
  with that [OF ra nd refl refl i] show ?thesis .
qed

lemma newSpend_fields [simp]:
  "sp_id (newSpend H ctx rq now day ar pr rm ac d n) = cx_newId ctx"
  "sp_requestKey (newSpend H ctx rq now day ar pr rm ac d n) = rq_requestKey rq"
  "sp_status (newSpend H ctx rq now day ar pr rm ac d n) = (if d = None then Reserved else Denied)"
  "sp_actual (newSpend H ctx rq now day ar pr rm ac d n) = None"
  "sp_outcome (newSpend H ctx rq now day ar pr rm ac d n) = None"
  "sp_settlementHash (newSpend H ctx rq now day ar pr rm ac d n) = None"
  "sp_reservedAt (newSpend H ctx rq now day ar pr rm ac d n) = (if d = None then Some now else None)"
  "sp_deniedAt (newSpend H ctx rq now day ar pr rm ac d n) = (if d = None then None else Some now)"
  "sp_reserved (newSpend H ctx rq now day ar pr rm ac d n) = n"
  "sp_day (newSpend H ctx rq now day ar pr rm ac d n) = day"
  "sp_agentId (newSpend H ctx rq now day ar pr rm ac d n) = map_option ag_id ar"
  "sp_requestHash (newSpend H ctx rq now day ar pr rm ac d n) = hashLedgerPayload H (requestJson rq)"
  "sp_priceId (newSpend H ctx rq now day ar pr rm ac d n) = map_option pr_id pr"
  "sp_priceSnapshot (newSpend H ctx rq now day ar pr rm ac d n) =
     (case map_option snapshotOf pr of Some p \<Rightarrow> snapshotJson p | None \<Rightarrow> JObj [])"
  by (simp_all add: newSpend_def Let_def)

section \<open>The stored price snapshot\<close>

lemma snapshot_props:
  "get_prop (snapshotJson p) ''version'' = Some (JInt 2)"
  "str_prop (snapshotJson p) ''provider'' = Some (provider p)"
  "str_prop (snapshotJson p) ''model'' = Some (model p)"
  "str_prop (snapshotJson p) ''billingKind'' = Some (billingText (billingKind p))"
  "str_prop (snapshotJson p) ''settlementKind'' = Some (settlementText (settlementKind p))"
  "str_prop (snapshotJson p) ''inputUsdPerMtok'' = Some (inputUsdPerMtok p)"
  "str_prop (snapshotJson p) ''outputUsdPerMtok'' = Some (outputUsdPerMtok p)"
  "str_prop (snapshotJson p) ''cacheReadUsdPerMtok'' = Some (cacheReadUsdPerMtok p)"
  "str_prop (snapshotJson p) ''cacheWrite5mUsdPerMtok'' = Some (cacheWrite5mUsdPerMtok p)"
  "str_prop (snapshotJson p) ''cacheWrite1hUsdPerMtok'' = Some (cacheWrite1hUsdPerMtok p)"
  "str_prop (snapshotJson p) ''fixedRequestUsd'' = Some (fixedRequestUsd p)"
  "str_prop (snapshotJson p) ''reservationCeilingUsd'' = reservationCeilingUsd p"
  "get_prop (snapshotJson p) ''reservationCeilingUsd'' =
     Some (case reservationCeilingUsd p of None \<Rightarrow> JNull | Some s \<Rightarrow> JStr s)"
  "str_prop (snapshotJson p) ''codeExecutionUsdPerRequest'' = Some (codeExecutionUsdPerRequest p)"
  "get_prop (snapshotJson p) ''documentsPolicy'' = Some (documentsPolicyJson (policyInputOverheadTokens p))"
  "str_prop (snapshotJson p) ''validFrom'' = Some (validFromIso p)"
  by (simp_all add: snapshotJson_def str_prop_def get_prop_def obj_of_def split: option.splits)

lemma documentsPolicy_ok: "isDocumentsPolicy (documentsPolicyJson n) \<longleftrightarrow> n = DOCUMENTS_INPUT_OVERHEAD_TOKENS"
  by (simp add: isDocumentsPolicy_def documentsPolicyJson_def get_prop_def obj_of_def)

lemma snapshot_reads_back:
  assumes "policyInputOverheadTokens p = DOCUMENTS_INPUT_OVERHEAD_TOKENS"
  shows "parseSnapshot (snapshotJson p) = Inr p"
  unfolding parseSnapshot_def snapshot_props prod.case option.case
  using assms
  by (cases "billingKind p"; cases "settlementKind p"; cases "reservationCeilingUsd p")
    (simp_all add: documentsPolicy_ok billingText_def settlementText_def)

lemma snapshotOf_overhead [simp]:
  "policyInputOverheadTokens (snapshotOf q) = DOCUMENTS_INPUT_OVERHEAD_TOKENS"
  by (simp add: snapshotOf_def)

section \<open>A reserved row covers its settlement\<close>

definition row_covered :: "spend \<Rightarrow> bool" where
  "row_covered r \<longleftrightarrow> (sp_status r = Reserved \<longrightarrow>
     (\<exists>p inC k. parseSnapshot (sp_priceSnapshot r) = Inr p
        \<and> sp_inputTokenCeiling r = billableInputTokenCeiling p (sp_consumer r) inC
        \<and> reserveCostNano p (sp_consumer r) inC (sp_outputTokenCeiling r) = Inr k
        \<and> k \<le> sp_reserved r))"

lemma selectPriceRow_mem: "selectPriceRow rows m = Some q \<Longrightarrow> q \<in> set rows"
proof -
  assume a: "selectPriceRow rows m = Some q"
  let ?f = "filter (\<lambda>r. model (pr_price r) = m) rows"
  from a obtain t where "sort_key (\<lambda>r. - pr_validFrom r) ?f = q # t"
    by (auto simp: selectPriceRow_def selectCatalogPrice_def split: list.splits)
  then have "q \<in> set (sort_key (\<lambda>r. - pr_validFrom r) ?f)" by simp
  then show ?thesis by simp
qed

lemma reserveNew_covered:
  assumes "reserveNew H ctx db rq now day adm = Inr (db', resp)"
  shows "\<exists>row. db_spends db' = db_spends db @ [row] \<and> row_covered row"
  using assms
proof (cases rule: reserveNew_effect)
  case (made ar ae routed ac d n row)
  have i: "db_spends db' = db_spends db @ [row]" using made(5) by (auto simp: insert_spend_Inr)
  show ?thesis
  proof (cases d)
    case (Some e)
    then show ?thesis using i made(4) by (auto simp: row_covered_def)
  next
    case None
    let ?rows = "activeProviderPrices db (rq_provider rq) now"
    let ?q = "selectPriceRow ?rows (rq_model rq)"
    obtain q where q: "?q = Some q" and cost: "reserveProviderRouteCostNano (snapshotOf q)
        (map snapshotOf ?rows) (rq_consumer rq) (rq_inputTokenCeiling rq) (rq_outputTokenCeiling rq) = Inr n"
      using newDenial_None(8) [OF made(2) [unfolded None]] by auto
    have "snapshotOf q \<in> route_prices (snapshotOf q) (map snapshotOf ?rows) (rq_consumer rq)"
      using selectPriceRow_mem [OF q] by (auto simp: route_prices_def)
    from route_reserve_dominates [OF cost this] obtain k where
      "reserveCostNano (snapshotOf q) (rq_consumer rq) (rq_inputTokenCeiling rq)
        (rq_outputTokenCeiling rq) = Inr k" "k \<le> n" by blast
    then have "row_covered row"
      unfolding row_covered_def made(4) None q
      by (intro impI exI [of _ "snapshotOf q"] exI [of _ "rq_inputTokenCeiling rq"] exI [of _ k])
        (simp add: snapshot_reads_back newSpend_def Let_def)
    with i show ?thesis by blast
  qed
qed

lemma new_row_ok:
  "row_checks (newSpend H ctx rq now day ar pr rm ac d n) = Inr () \<Longrightarrow>
    row_ok (newSpend H ctx rq now day ar pr rm ac d n)"
  by (auto simp: row_ok_def)

lemma reserve_appends:
  assumes "reserveInTx H kd ctx dto db = Inr (db', resp, ls)"
  obtains (same) "db' = db"
  | (append) row where "db' = db\<lparr>db_spends := db_spends db @ [row]\<rparr>" "row_ok row"
      "\<forall>s \<in> set (db_spends db). sp_id s \<noteq> sp_id row \<and> sp_requestKey s \<noteq> sp_requestKey row"
      "rr_allowed resp \<Longrightarrow> sp_status row = Reserved" "row_covered row"
  using assms
proof (cases rule: reserveInTx_effect)
  case prior
  then show ?thesis using same by simp
next
  case (fresh c rq adm)
  from fresh(3) show ?thesis
  proof (cases rule: reserveNew_effect)
    case (made agentRow agentError routed action d n row)
    note i = made(5)[unfolded insert_spend_Inr]
    have "rr_allowed resp \<Longrightarrow> d = None"
      using made(6) by (cases d) (simp_all add: refusal_def)
    moreover have "row_covered row" using reserveNew_covered [OF fresh(3)] i by auto
    ultimately show ?thesis
      using i made(4) new_row_ok by (intro append [of row]) auto
  qed
qed

section \<open>Steps\<close>

text \<open>The operations of the service, and changes of the tables it only reads.\<close>

inductive ledger_step :: "(json \<Rightarrow> string) \<Rightarrow> ledger_db \<Rightarrow> ledger_db \<Rightarrow> bool" for H where
  step_reserve: "reserveInTx H kd ctx dto db = Inr (db', resp, ls) \<Longrightarrow> ledger_step H db db'"
| step_settle: "settleInTx H al t i sdto db = Inr (db', res, ls) \<Longrightarrow> ledger_step H db db'"
| step_release: "releaseInTx al t i reason db = Inr (db', rep, ls) \<Longrightarrow> ledger_step H db db'"
| step_recover: "recoverPreDispatchInTx t key db = Inr (db', rec, ls) \<Longrightarrow> ledger_step H db db'"
| step_other: "db_spends db' = db_spends db \<Longrightarrow> ledger_step H db db'"

inductive_cases ledger_stepE: "ledger_step H db db'"

text \<open>What a step does to the table.\<close>

lemma closes_released:
  assumes "closes db r (releasedRow m t r) db'" "ledger_ok db"
  shows "row_ok (releasedRow m t r)"
  using assms by (intro released_row_ok) (auto simp: closes_def ledger_ok_def)

lemma ledger_step_shape:
  assumes "ledger_step H db db'" "ledger_ok db"
  obtains (same) "db_spends db' = db_spends db"
  | (append) row where "db_spends db' = db_spends db @ [row]" "row_ok row"
      "\<forall>s \<in> set (db_spends db). sp_id s \<noteq> sp_id row \<and> sp_requestKey s \<noteq> sp_requestKey row"
      "row_covered row"
  | (closed) r r' where "closes db r r' db'" "row_ok r'" "sp_status r' \<in> {Settled, Failed, Released}"
  using assms(1)
proof cases
  case (step_reserve kd ctx dto resp ls)
  from step_reserve show ?thesis by (cases rule: reserve_appends) (use same append in auto)
next
  case (step_settle al t i sdto res ls)
  show ?thesis
  proof (cases "sr_replay res")
    case True
    from step_settle have "db' = db"
    proof (cases rule: settleInTx_effect)
      case (closed s r)
      then show ?thesis using True by (auto dest!: settleReserved_effect simp: settles_def)
    qed
    then show ?thesis using same by simp
  next
    case False
    from step_settle False obtain r r' where "closes db r r' db'" "row_ok r'"
      "sp_status r' \<in> {Settled, Failed}" by (rule settle_closes) auto
    then show ?thesis using closed by auto
  qed
next
  case (step_release al t i reason rep ls)
  from step_release show ?thesis
  proof (cases rule: releaseInTx_effect)
    case same
    then show ?thesis using that(1) by simp
  next
    case (closed r)
    from closed(3) closes_released [OF closed(3) assms(2)] show ?thesis by (rule that(3)) simp
  qed
next
  case (step_recover t key rec ls)
  from step_recover assms(2) show ?thesis
  proof (cases rule: recover_closes)
    case same
    then show ?thesis using that(1) by simp
  next
    case (closed r)
    from closed(3) closes_released [OF closed(3) assms(2)] show ?thesis by (rule that(3)) simp
  qed
next
  case step_other
  then show ?thesis using same by simp
qed

lemma closes_rows:
  assumes "closes db r r' db'" "ledger_ok db"
  shows "db_spends db' = map (\<lambda>x. if sp_id x = sp_id r then r' else x) (db_spends db)"
proof -
  from assms(1) obtain f where f: "f r = r'" "db' = update_spend (sp_id r) f db"
    and r: "r \<in> set (db_spends db)" by (auto simp: closes_def)
  have "x = r" if "x \<in> set (db_spends db)" "sp_id x = sp_id r" for x
    using assms(2) r that by (auto simp: ledger_ok_def distinct_map inj_on_def)
  with f show ?thesis by auto
qed

lemma map_replace_fields:
  assumes "g r' = g r" "\<And>x. x \<in> set xs \<Longrightarrow> h x = h r \<Longrightarrow> x = r"
  shows "map g (map (\<lambda>x. if h x = h r then r' else x) xs) = map g xs"
  using assms by (auto intro!: map_cong)

lemma ledger_step_ok:
  assumes "ledger_step H db db'" "ledger_ok db"
  shows "ledger_ok db'"
  using assms
proof (cases rule: ledger_step_shape)
  case same
  with assms(2) show ?thesis by (simp add: ledger_ok_def)
next
  case (append row)
  with assms(2) show ?thesis by (auto simp: ledger_ok_def)
next
  case (closed r r')
  have u: "x = r" if "x \<in> set (db_spends db)" "sp_id x = sp_id r" for x
    using assms(2) closed(1) that by (auto simp: closes_def ledger_ok_def distinct_map inj_on_def)
  have g: "sp_id r' = sp_id r" "sp_requestKey r' = sp_requestKey r"
    using closed(1) by (auto simp: closes_def same_reservation_def)
  let ?rows = "map (\<lambda>x. if sp_id x = sp_id r then r' else x) (db_spends db)"
  have "map sp_id ?rows = map sp_id (db_spends db)"
    "map sp_requestKey ?rows = map sp_requestKey (db_spends db)"
    using map_replace_fields [where g = sp_id and h = sp_id, OF g(1) u]
      map_replace_fields [where g = sp_requestKey and h = sp_id, OF g(2) u]
    by simp_all
  then show ?thesis
    using assms(2) closed(2) unfolding ledger_ok_def closes_rows [OF closed(1) assms(2)]
    by (auto simp del: map_map)
qed

lemma ledger_step_rows:
  assumes "ledger_step H db db'" "ledger_ok db" "r \<in> set (db_spends db)"
  shows "\<exists>r' \<in> set (db_spends db'). spend_evolves r r'"
  using assms(1,2)
proof (cases rule: ledger_step_shape)
  case same
  with assms(3) show ?thesis by (auto simp: spend_evolves_def)
next
  case (append row)
  with assms(3) show ?thesis by (auto simp: spend_evolves_def)
next
  case (closed x x')
  then have e: "spend_evolves x x'" by (auto simp: closes_def spend_evolves_def)
  have u: "sp_id r = sp_id x \<Longrightarrow> r = x"
    using assms(2,3) closed(1) by (auto simp: closes_def ledger_ok_def distinct_map inj_on_def)
  show ?thesis
    unfolding closes_rows [OF closed(1) assms(2)]
    using e u assms(3) by (cases "sp_id r = sp_id x") (auto simp: spend_evolves_def)
qed

lemma spend_evolves_trans:
  "spend_evolves a b \<Longrightarrow> spend_evolves b c \<Longrightarrow> spend_evolves a c"
  by (auto simp: spend_evolves_def)

interpretation ledger: keyed_history db_spends spend_evolves ledger_ok "ledger_step H" sp_id spend_final
  for H
proof unfold_locales
  show "spend_evolves r r" for r by (simp add: spend_evolves_def)
  show "spend_evolves a c" if "spend_evolves a b" "spend_evolves b c" for a b c
    using that by (rule spend_evolves_trans)
  show "ledger_ok s'" if "ledger_step H s s'" "ledger_ok s" for s s'
    using that by (rule ledger_step_ok)
  show "\<exists>r' \<in> set (db_spends s'). spend_evolves r r'"
    if "ledger_step H s s'" "ledger_ok s" "r \<in> set (db_spends s)" for s s' r
    using that by (rule ledger_step_rows)
  show "distinct (map sp_id (db_spends s))" if "ledger_ok s" for s
    using that by (simp add: ledger_ok_def)
  show "sp_id r' = sp_id r" if "spend_evolves r r'" for r r'
    using that by (auto simp: spend_evolves_def same_reservation_def)
  show "r' = r" if "spend_evolves r r'" "spend_final r" for r r'
    using that by (auto simp: spend_evolves_def spend_final_def)
qed

end
