(* ===== verification/Ledger.thy ===== *)
theory Ledger
  imports LedgerFacts
begin

text \<open>
  The properties of the ledger service: caps, exposure accounting, idempotency, the provider
  circuit, the choice of the day, lock order, and the life of a row over any sequence of steps.
\<close>

section \<open>Sums of exposure\<close>

lemma sumExposure_cong:
  "db_spends a = db_spends b \<Longrightarrow> sumExposure a d ag = sumExposure b d ag"
  by (simp add: sumExposure_def)

lemma sumExposure_append:
  "db_spends db' = db_spends db @ [row] \<Longrightarrow>
   sumExposure db' d ag = sumExposure db d ag +
     (if sp_day row = d \<and> (case ag of None \<Rightarrow> True | Some a \<Rightarrow> sp_agentId row = Some a)
      then exposureCase row else 0)"
  by (simp add: sumExposure_def)

lemma exposure_nonneg: "row_ok r \<Longrightarrow> 0 \<le> exposureCase r"
  by (auto simp: row_ok_def exposureCase_def row_checks_money le_max_iff_disj
      split: option.splits dest: row_checks_money)

lemma sum_replace:
  fixes g :: "spend \<Rightarrow> int"
  assumes "distinct (map sp_id xs)" "r \<in> set xs"
  shows "sum_list (map g (map (\<lambda>x. if sp_id x = sp_id r then r' else x) xs)) =
    sum_list (map g xs) - g r + g r'"
  using assms
proof (induction xs)
  case Nil
  then show ?case by simp
next
  case (Cons x xs)
  show ?case
  proof (cases "x = r")
    case True
    with Cons.prems(1) have "map (\<lambda>x. if sp_id x = sp_id r then r' else x) xs = xs"
      by (intro map_idI) (auto simp: rev_image_eqI)
    with True show ?thesis by simp
  next
    case False
    with Cons.prems have "r \<in> set xs" by simp
    with Cons.prems(1) have "sp_id x \<noteq> sp_id r" by force
    with Cons.IH Cons.prems(1) \<open>r \<in> set xs\<close> show ?thesis by simp
  qed
qed

definition exposureAt :: "int \<Rightarrow> string option \<Rightarrow> spend \<Rightarrow> int" where
  "exposureAt d ag r = (if sp_day r = d \<and> (case ag of None \<Rightarrow> True | Some a \<Rightarrow> sp_agentId r = Some a)
     then exposureCase r else 0)"

lemma sumExposure_alt: "sumExposure db d ag = sum_list (map (exposureAt d ag) (db_spends db))"
proof -
  have "sum_list (map exposureCase (filter P xs)) =
      sum_list (map (\<lambda>r. if P r then exposureCase r else 0) xs)" for P and xs :: "spend list"
    by (induction xs) auto
  then show ?thesis by (simp add: sumExposure_def exposureAt_def [abs_def])
qed

lemma closes_exposure:
  assumes "closes db r r' db'" "ledger_ok db"
  shows "sumExposure db' d ag = sumExposure db d ag - exposureAt d ag r + exposureAt d ag r'"
  using sum_replace [of "db_spends db" r "exposureAt d ag" r'] assms
  unfolding sumExposure_alt closes_rows [OF assms]
  by (simp add: ledger_ok_def closes_def)

section \<open>Caps\<close>

lemma readExposure_simps [simp]:
  "ex_global (readExposure db d ag) = sumExposure db d None"
  "ex_agent (readExposure db d ag) = map_option (\<lambda>a. sumExposure db d (Some a)) ag"
  by (simp_all add: readExposure_def split: option.splits)

text \<open>The daily cap of an agent as the tables have it, and what a granted response promises about
  the state it leaves.\<close>

definition agentCapOf :: "kv \<Rightarrow> ledger_db \<Rightarrow> string \<Rightarrow> int" where
  "agentCapOf env db a = cap_nano (parseCap (agentCapValue
     (case agentById db a of None \<Rightarrow> None | Some g \<Rightarrow> ag_budgetPerDayUsd g) (db_config db) env))"

definition within_caps :: "kv \<Rightarrow> ledger_db \<Rightarrow> reserve_response \<Rightarrow> bool" where
  "within_caps env db resp =
     (case rr_reservation resp of
        None \<Rightarrow> False
      | Some rs \<Rightarrow>
          (let b = rr_budget resp; cap = cap_nano (parseCap (globalCapValue (db_config db) env)) in
           bs_day b = rs_day rs
           \<and> bs_globalExposure b = sumExposure db (rs_day rs) None
           \<and> bs_globalCap b = cap \<and> sumExposure db (rs_day rs) None \<le> cap
           \<and> (\<exists>row \<in> set (db_spends db). sp_id row = rs_id rs \<and> sp_status row = Reserved
                \<and> sp_day row = rs_day rs \<and> sp_reserved row = rs_reserved rs
                \<and> (case sp_agentId row of
                     None \<Rightarrow> bs_agent b = None
                   | Some a \<Rightarrow> bs_agent b = Some (agentCapOf env db a, sumExposure db (rs_day rs) (Some a))
                       \<and> sumExposure db (rs_day rs) (Some a) \<le> agentCapOf env db a))))"

lemma first_some_mem: "first_some xs = None \<Longrightarrow> x \<in> set xs \<Longrightarrow> x = None"
  by simp

lemma admission_facts:
  assumes "resolveLlmAdmissionPolicy config env = Inr adm" "ap_denial adm = None"
  shows "resolveConfigValue ''LLM_ENABLED'' config env = Inr ''1''"
    "\<exists>mx. resolveConfigValue ''LLM_MAX_RESERVATION_USD'' config env = Inr mx
       \<and> usdToNano Floor (UsdStr mx) = Inr (ap_reservationCap adm)"
  using assms
  by (auto simp: resolveLlmAdmissionPolicy_def rbind_eq_Inr Let_def parseCap_def
      split: if_splits sum.splits)

text \<open>The facts of a granted replay.\<close>

lemma refusal_not_allowed [simp]:
  "\<not> rr_allowed (refusal st ac rs bl sn)" "rr_reservation (refusal st ac rs bl sn) = None"
  by (simp_all add: refusal_def)

lemma reserveReplay_allowed:
  assumes "rr_allowed (reserveReplay H env db rq now day adm prior)"
  defines "gc \<equiv> parseCap (globalCapValue (db_config db) env)"
    and "pc \<equiv> priorAgentCap env db prior"
    and "ex \<equiv> readExposure db day (sp_agentId prior)"
  shows "replayPolicyDenial rq day adm gc pc ex prior = None"
    "sp_requestHash prior = hashLedgerPayload H (requestJson rq)"
    "sp_status prior = Reserved" "replayPriceDenial H db rq now prior = None"
    "reserveReplay H env db rq now day adm prior = allowedResponse prior True
       (budgetOf day (cap_nano gc) ex (map_option cap_nano pc))
       (budgetAction (case priorAgent db prior of None \<Rightarrow> None | Some a \<Rightarrow> ag_budgetOnExceeded a))"
proof -
  note d = reserveReplay_def [of H env db rq now day adm prior, unfolded Let_def,
      folded gc_def pc_def ex_def]
  show 1: "replayPolicyDenial rq day adm gc pc ex prior = None"
    using assms(1) unfolding d by (cases "replayPolicyDenial rq day adm gc pc ex prior") simp_all
  show 2: "sp_requestHash prior = hashLedgerPayload H (requestJson rq)"
    using assms(1) unfolding d 1 by (auto split: if_splits)
  have "sp_status prior \<noteq> Denied"
    using assms(1) unfolding d 1 option.case using 2 by auto
  then show 3: "sp_status prior = Reserved"
    using assms(1) unfolding d 1 option.case using 2 by (auto split: if_splits)
  show 4: "replayPriceDenial H db rq now prior = None"
    using assms(1) unfolding d 1 option.case using 2 3
    by (cases "replayPriceDenial H db rq now prior") simp_all
  show "reserveReplay H env db rq now day adm prior = allowedResponse prior True
       (budgetOf day (cap_nano gc) ex (map_option cap_nano pc))
       (budgetAction (case priorAgent db prior of None \<Rightarrow> None | Some a \<Rightarrow> ag_budgetOnExceeded a))"
    unfolding d 1 option.case using 2 3 4 by simp
qed

lemma replayPolicy_None:
  assumes "replayPolicyDenial rq day adm gc pc ex prior = None"
  shows "ap_denial adm = None" "sp_day prior = day" "ex_global ex \<le> cap_nano gc"
    "sp_reserved prior \<le> ap_reservationCap adm"
    "\<And>c. pc = Some c \<Longrightarrow> orZero (ex_agent ex) \<le> cap_nano c"
  using assms
  by (auto simp: replayPolicyDenial_def reservationLimitDenial_def split: if_splits option.splits)

lemma allowedResponse_simps [simp]:
  "rr_allowed (allowedResponse row rep sn ac)" "rr_budget (allowedResponse row rep sn ac) = sn"
  "rr_reservation (allowedResponse row rep sn ac) =
     Some \<lparr>rs_id = sp_id row, rs_requestKey = sp_requestKey row, rs_day = sp_day row,
        rs_reserved = sp_reserved row, rs_replay = rep\<rparr>"
  by (simp_all add: allowedResponse_def)

lemma budgetOf_simps [simp]:
  "bs_day (budgetOf d c ex ac) = d" "bs_globalCap (budgetOf d c ex ac) = c"
  "bs_globalExposure (budgetOf d c ex ac) = ex_global ex"
  "bs_agent (budgetOf d c ex ac) = map_option (\<lambda>k. (k, orZero (ex_agent ex))) ac"
  by (simp_all add: budgetOf_def orZero_def split: option.splits)

lemma orZero_simps [simp]: "orZero None = 0" "orZero (Some n) = n"
  by (simp_all add: orZero_def)

lemma resolveAgent_row:
  assumes "resolveAgent db c n = (Some g, e)" "distinct (map ag_id (db_agents db))"
  shows "agentById db (ag_id g) = Some g"
proof -
  from assms(1) have g: "g \<in> set (db_agents db)"
    by (auto simp: resolveAgent_def find_Some_iff split: option.splits if_splits)
  then obtain g' where g': "agentById db (ag_id g) = Some g'"
    by (cases "agentById db (ag_id g)") (auto simp: agentById_def find_None_iff)
  then have "g' \<in> set (db_agents db)" "ag_id g' = ag_id g"
    by (auto simp: agentById_def find_Some_iff)
  with g g' assms(2) show ?thesis by (auto simp: distinct_map inj_on_def)
qed

lemma reserveReplay_within_caps:
  assumes "rr_allowed (reserveReplay H env db rq now day adm prior)" "prior \<in> set (db_spends db)"
  shows "within_caps env db (reserveReplay H env db rq now day adm prior)"
proof -
  note f = reserveReplay_allowed [OF assms(1)]
  note p = replayPolicy_None [OF f(1)]
  show ?thesis
    unfolding f(5) within_caps_def using p(2,3,5) f(3) assms(2)
    by (cases "sp_agentId prior")
      (auto simp: Let_def priorAgentCap_def priorAgent_def agentCapOf_def intro!: bexI [of _ prior])
qed

lemma reserveNew_within_caps:
  assumes "reserveNew H ctx db rq now day adm = Inr (db', resp)" "rr_allowed resp"
    and "distinct (map ag_id (db_agents db))"
  shows "within_caps (cx_env ctx) db' resp \<and> ap_denial adm = None
    \<and> (\<exists>rs. rr_reservation resp = Some rs \<and> rs_reserved rs \<le> ap_reservationCap adm)"
  using assms(1)
proof (cases rule: reserveNew_effect)
  case (made ar ae routed ac d n row)
  from made(6) assms(2) have d: "d = None" by (cases d) simp_all
  note nd = newDenial_None [OF made(2) [unfolded d]]
  have db': "db_spends db' = db_spends db @ [row]" "db_config db' = db_config db"
    "db_agents db' = db_agents db"
    using made(5) by (auto simp: insert_spend_Inr)
  have row: "sp_status row = Reserved" "sp_day row = day" "sp_reserved row = n" "exposureCase row = n"
    "sp_agentId row = map_option ag_id ar"
    using made(4) d by (simp_all add: exposureCase_def)
  have caps: "agentCapOf (cx_env ctx) db' (ag_id g) = cap_nano (parseCap (agentCapValue
      (ag_budgetPerDayUsd g) (db_config db) (cx_env ctx)))" if "ar = Some g" for g
    using resolveAgent_row [OF made(1) [unfolded that] assms(3)] db'
    by (simp add: agentCapOf_def agentById_def)
  have "within_caps (cx_env ctx) db' resp"
    unfolding made(6) d within_caps_def
    using nd(6,7) row caps
    by (cases ar) (auto simp: Let_def sumExposure_append [OF db'(1)] db'(1,2) intro!: bexI [of _ row])
  moreover have "\<exists>rs. rr_reservation resp = Some rs \<and> rs_reserved rs \<le> ap_reservationCap adm"
    unfolding made(6) d using nd(5) row(3) by simp
  ultimately show ?thesis using nd(1) by blast
qed

section \<open>Properties: budget\<close>

text \<open>The single reservation against its own cap, \<open>LLM_MAX_RESERVATION_USD\<close>.\<close>

definition within_reservation_cap :: "kv \<Rightarrow> kv \<Rightarrow> reserve_response \<Rightarrow> bool" where
  "within_reservation_cap config env resp \<longleftrightarrow>
     (case (resolveConfigValue ''LLM_MAX_RESERVATION_USD'' config env, rr_reservation resp) of
        (Inr mx, Some rs) \<Rightarrow>
          (case usdToNano Floor (UsdStr mx) of Inr cap \<Rightarrow> rs_reserved rs \<le> cap | Inl e \<Rightarrow> False)
      | _ \<Rightarrow> False)"

lemma within_reservation_capI:
  assumes "resolveLlmAdmissionPolicy config env = Inr adm" "ap_denial adm = None"
    and "rr_reservation resp = Some rs" "rs_reserved rs \<le> ap_reservationCap adm"
  shows "within_reservation_cap config env resp"
  using admission_facts(2) [OF assms(1,2)] assms(3,4) by (auto simp: within_reservation_cap_def)

text \<open>C1. A reservation is granted only under the caps: when \<open>reserve\<close> answers \<open>allowed\<close>, new or
  replayed, the switch \<open>LLM_ENABLED\<close> is on, the reserved row is in the table, the reservation itself is
  at most \<open>LLM_MAX_RESERVATION_USD\<close>, the exposure of its day (this row included) is at most the
  configured global cap, the exposure of its agent is at most the agent's cap, and the budget in the
  response states exactly these sums.\<close>

theorem reserve_within_caps:
  assumes "reserveInTx H kd ctx dto db = Inr (db', resp, ls)" "rr_allowed resp"
    and "distinct (map ag_id (db_agents db))"
  shows "within_caps (cx_env ctx) db' resp \<and> within_reservation_cap (db_config db) (cx_env ctx) resp
    \<and> resolveConfigValue ''LLM_ENABLED'' (db_config db) (cx_env ctx) = Inr ''1''"
  using assms(1)
proof (cases rule: reserveInTx_effect)
  case (prior c rq adm prior)
  note f = reserveReplay_allowed [OF assms(2) [unfolded prior(4)]]
  note p = replayPolicy_None [OF f(1)]
  have "\<exists>rs. rr_reservation resp = Some rs \<and> rs_reserved rs \<le> ap_reservationCap adm"
    unfolding prior(4) f(5) using p(4) by simp
  then have "within_reservation_cap (db_config db) (cx_env ctx) resp"
    using within_reservation_capI [OF prior(3) p(1)] by blast
  then show ?thesis
    using reserveReplay_within_caps [OF assms(2) [unfolded prior(4)]] prior
      spend_where_Some [OF prior(1)] admission_facts [OF prior(3)] p(1)
    by simp
next
  case (fresh c rq adm)
  from reserveNew_within_caps [OF fresh(3) assms(2,3)] obtain rs where
    "within_caps (cx_env ctx) db' resp" "ap_denial adm = None" "rr_reservation resp = Some rs"
    "rs_reserved rs \<le> ap_reservationCap adm" by blast
  then show ?thesis
    using admission_facts(1) [OF fresh(2)] within_reservation_capI [OF fresh(2)] by simp
qed

section \<open>Properties: exposure\<close>

lemma usd_zero: "usdCeil ''0'' = Inr 0"
  by code_simp

text \<open>C21. The SQL expression that admission and monitoring sum is \<open>exposureNano\<close> of
  \<^verbatim>\<open>llm-ledger.money.ts\<close> on the printed money columns, for every row the table can hold.\<close>

theorem exposure_sql_is_exposureNano:
  assumes "row_checks r = Inr ()"
  shows "rbind (nanoToUsd (sp_reserved r)) (\<lambda>rt.
      rbind (case sp_actual r of None \<Rightarrow> Inr None | Some a \<Rightarrow> rbind (nanoToUsd a) (\<lambda>t. Inr (Some t))) (\<lambda>actual.
      exposureNano (sp_status r) (sp_outcome r) rt actual)) = Inr (exposureCase r)"
proof -
  obtain rt where rt: "nanoToUsd (sp_reserved r) = Inr rt"
    using nanoToUsd_total row_checks_money(1) [OF assms] by blast
  then have r: "usdCeil rt = Inr (sp_reserved r)"
    using usd_of_nano row_checks_money(1) [OF assms] by blast
  have nn: "0 \<le> sp_reserved r" by (rule row_checks_money(1) [OF assms])
  show ?thesis
  proof (cases "sp_actual r")
    case None
    with rt r nn show ?thesis
      by (simp add: exposureNano_def exposureCase_def usd_zero max0_Cons max0_def max_def)
  next
    case (Some a)
    obtain t where t: "nanoToUsd a = Inr t"
      using nanoToUsd_total row_checks_money(2) [OF assms Some] by blast
    then have a: "usdCeil t = Inr a" "0 \<le> a"
      using usd_of_nano row_checks_money(2) [OF assms Some] by blast+
    with rt r nn Some t show ?thesis
      by (simp add: exposureNano_def exposureCase_def max0_Cons max0_def max_def)
  qed
qed

lemma settledRow_unknown_exposure:
  assumes "sp_status r = Reserved" "sp_outcome (settledRow s h an a t r) = Some Unknown"
  shows "exposureAt d ag r \<le> exposureAt d ag (settledRow s h an a t r)"
  using assms by (auto simp: exposureAt_def exposureCase_def split: option.splits if_splits)

text \<open>C18. An unknown outcome never frees money: a settlement that stores the outcome \<open>unknown\<close>
  (reported as such, or turned into it by an anomaly) leaves every exposure sum at least as large
  as it was, whatever cost it reports.\<close>

theorem unknown_outcome_keeps_exposure:
  assumes "settleInTx H al t i dto db = Inr (db', res, ls)" "\<not> sr_replay res" "ledger_ok db"
    and "r' \<in> set (db_spends db')" "sp_id r' = i" "sp_outcome r' = Some Unknown"
  shows "sumExposure db d ag \<le> sumExposure db' d ag"
  using assms(1)
proof (cases rule: settleInTx_effect)
  case (same s r)
  with assms(2) show ?thesis by simp
next
  case (closed s r)
  note r = spend_where_Some [OF closed(2)]
  obtain price sn an a where
    "settles s (hashLedgerPayload H (settlementJson s)) t r db db' res price sn an a"
    using settleReserved_effect [OF closed(4)] by blast
  note e = settlesD(6) [OF this]
  let ?r' = "settledRow s (hashLedgerPayload H (settlementJson s)) an a t r"
  have c: "closes db r ?r' db'"
    using e closed(2,3) r by (intro set_spend_closes) simp_all
  have "r' = ?r'"
    using assms(3-5) r unfolding closes_rows [OF c assms(3)] by (auto split: if_splits)
  with closes_exposure [OF c assms(3), of d ag]
    settledRow_unknown_exposure [OF closed(3), of s _ an a t d ag] assms(6)
  show ?thesis by simp
qed

text \<open>Releasing or recovering a reservation frees exactly its reserved amount on its day, and
  nothing elsewhere.\<close>

theorem release_frees_reserve:
  assumes "releaseInTx al t i reason db = Inr (db', False, ls)" "ledger_ok db"
  shows "\<exists>r \<in> set (db_spends db). sp_id r = i \<and> (\<forall>d ag. sumExposure db' d ag = sumExposure db d ag -
    (if sp_day r = d \<and> (case ag of None \<Rightarrow> True | Some a \<Rightarrow> sp_agentId r = Some a) then sp_reserved r else 0))"
  using assms(1)
proof (cases rule: releaseInTx_effect)
  case (closed r)
  have "exposureAt d ag (releasedRow (js_trim reason) t r) = 0" for d ag
    by (simp add: exposureAt_def exposureCase_def)
  with closes_exposure [OF closed(3) assms(2)] closed
  show ?thesis
    by (intro bexI [of _ r]) (auto simp: closes_def exposureAt_def exposureCase_def)
qed simp

text \<open>The price snapshot a reservation stores is read back by the settlement as the price it was
  reserved under, whatever catalogue row it came from.\<close>

theorem stored_snapshot_roundtrip: "parseSnapshot (snapshotJson (snapshotOf q)) = Inr (snapshotOf q)"
  by (rule snapshot_reads_back) simp

definition ledger_covered :: "ledger_db \<Rightarrow> bool" where
  "ledger_covered db \<longleftrightarrow> (\<forall>r \<in> set (db_spends db). row_covered r)"

lemma covered_closed: "sp_status r \<noteq> Reserved \<Longrightarrow> row_covered r"
  by (simp add: row_covered_def)

lemma closes_covered:
  assumes "closes db r r' db'" "ledger_ok db" "sp_status r' \<noteq> Reserved" "ledger_covered db"
  shows "ledger_covered db'"
  using assms(3,4) covered_closed [of r'] unfolding ledger_covered_def closes_rows [OF assms(1,2)]
  by auto

lemma ledger_step_covered:
  assumes "ledger_step H db db'" "ledger_ok db" "ledger_covered db"
  shows "ledger_covered db'"
  using assms(1,2)
proof (cases rule: ledger_step_shape)
  case same
  with assms(3) show ?thesis by (simp add: ledger_covered_def)
next
  case (append row)
  with assms(3) show ?thesis by (auto simp: ledger_covered_def)
next
  case (closed r r')
  from closed(3) have "sp_status r' \<noteq> Reserved" by auto
  then show ?thesis by (rule closes_covered [OF closed(1) assms(2) _ assms(3)])
qed

lemma ledger_steps_covered:
  assumes "(ledger_step H)\<^sup>*\<^sup>* db db'" "ledger_ok db" "ledger_covered db"
  shows "ledger_ok db' \<and> ledger_covered db'"
  using assms(1)
  by (induction rule: rtranclp_induct) (use assms in \<open>auto intro: ledger_step_ok ledger_step_covered\<close>)

section \<open>Properties: rows over time\<close>

text \<open>C3. The financial trail is append-only: over any sequence of reserve, settle, release and
  recovery calls, in any order and with any results, no row disappears, a closed row (settled,
  failed, released, denied) stays exactly as it is, and a reserved row keeps its identity, price,
  day and amount until it is closed once.\<close>

theorem ledger_rows_append_only:
  assumes "(ledger_step H)\<^sup>*\<^sup>* db db'" "ledger_ok db" "r \<in> set (db_spends db)"
  shows "(sp_status r \<noteq> Reserved \<longrightarrow> r \<in> set (db_spends db'))
    \<and> (\<exists>r' \<in> set (db_spends db'). sp_id r' = sp_id r \<and>
        (r' = r \<or> same_reservation r r' \<and> sp_status r' \<in> {Settled, Failed, Released}))"
proof
  show "sp_status r \<noteq> Reserved \<longrightarrow> r \<in> set (db_spends db')"
    using ledger.final_row_stays [OF assms] by (simp add: spend_final_def)
  show "\<exists>r' \<in> set (db_spends db'). sp_id r' = sp_id r \<and>
        (r' = r \<or> same_reservation r r' \<and> sp_status r' \<in> {Settled, Failed, Released})"
    using ledger.row_followed [OF assms] by (auto simp: spend_evolves_def same_reservation_def)
qed

text \<open>C2. The table invariant survives every operation: ids and request keys stay unique (one
  physical attempt per request key), money and token columns stay in range, the columns of a row
  fit its status, and every reserved row carries a reserve that covers its own price snapshot.\<close>

theorem ledger_invariant:
  assumes "(ledger_step H)\<^sup>*\<^sup>* db db'" "ledger_ok db" "ledger_covered db"
  shows "distinct (map sp_id (db_spends db')) \<and> distinct (map sp_requestKey (db_spends db'))
    \<and> (\<forall>r \<in> set (db_spends db'). row_ok r \<and> row_covered r)"
  using ledger_steps_covered [OF assms] by (simp add: ledger_ok_def ledger_covered_def)

section \<open>Properties: settlement\<close>

text \<open>C5. A settlement of a token-priced reservation within its ceilings cannot push any exposure
  sum up: whatever happened to the ledger before, if the provider's usage stays within the token
  ceilings stored in the row, settling as a success leaves the exposure of every day and agent at
  most what it was, so a cap that held keeps holding.\<close>

theorem settlement_within_reserve:
  assumes "(ledger_step H)\<^sup>*\<^sup>* db0 db" "ledger_ok db0" "ledger_covered db0"
    and "settleInTx H al t i dto db = Inr (db', res, ls)" "\<not> sr_replay res" "sr_status res = Settled"
    and "r \<in> set (db_spends db)" "sp_id r = i"
    and "parseSnapshot (sp_priceSnapshot r) = Inr p" "settlementKind p = Tokens"
    and "normalizeSettlement dto = Inr s" "st_usage s = Some u" "usage_nonneg u"
    and "inputTokens u + orZero (cacheReadInputTokens u) + cache_creation_tokens u \<le> sp_inputTokenCeiling r"
    and "outputTokens u \<le> sp_outputTokenCeiling r"
  shows "sumExposure db' d ag \<le> sumExposure db d ag"
proof -
  have ok: "ledger_ok db" "ledger_covered db" using ledger_steps_covered [OF assms(1-3)] by auto
  from assms(4) show ?thesis
  proof (cases rule: settleInTx_effect)
    case (same s' r')
    with assms(5) show ?thesis by simp
  next
    case (closed s' r')
    have r': "r' = r" "s' = s"
      using closed(1,2) spend_where_id [OF ok(1) assms(7)] assms(8,11) by auto
    obtain price sn an a where
      st: "settles s (hashLedgerPayload H (settlementJson s)) t r db db' res price sn an a"
      using settleReserved_effect [OF closed(4) [unfolded r']] by blast
    have c: "settlementCostNano p (sp_consumer r) (Some u) (st_providerReportedUsd s) = Inr sn"
      using settlesD(1,2) [OF st] assms(9,12) by simp
    note c = c settlesD(4,6,7) [OF st]
    from c(4) assms(6) have an: "an = None" "st_outcome s = Success" by (auto split: if_splits)
    let ?r' = "settledRow s (hashLedgerPayload H (settlementJson s)) an a t r"
    have cl: "closes db r ?r' db'"
      using c(3) closed(2,3) assms(8) unfolding r' by (intro set_spend_closes) simp_all
    obtain inC k where k: "sp_inputTokenCeiling r = billableInputTokenCeiling p (sp_consumer r) inC"
      "reserveCostNano p (sp_consumer r) inC (sp_outputTokenCeiling r) = Inr k" "k \<le> sp_reserved r"
      using ok(2) assms(7,9) closed(3) unfolding r' by (auto simp: ledger_covered_def row_covered_def)
    have "v \<le> sp_reserved r" if "a = Some v" for v
      using settlement_le_reserve [OF k(2) _ assms(10,13) _ assms(15)] c(1,2) an that k(1,3) assms(14)
      by fastforce
    moreover have "0 \<le> sp_reserved r"
      using ok(1) assms(7) by (auto simp: ledger_ok_def row_ok_def dest: row_checks_money(1))
    ultimately have "exposureAt d ag ?r' \<le> exposureAt d ag r"
      using an closed(3) unfolding r' by (auto simp: exposureAt_def exposureCase_def split: option.splits)
    with closes_exposure [OF cl ok(1), of d ag] show ?thesis by simp
  qed
qed

text \<open>A settlement is idempotent: repeating the same body later leaves the table as it is and
  returns the stored status as a replay, and a different body on the closed row is a conflict.\<close>

theorem settle_idempotent:
  assumes "settleInTx H al t i dto db = Inr (db', res, ls)" "ledger_ok db"
  shows "\<exists>s. normalizeSettlement dto = Inr s \<and>
    (\<forall>dto2 s2. normalizeSettlement dto2 = Inr s2 \<longrightarrow>
      settleInTx H al t' i dto2 db' =
        (if hashLedgerPayload H (settlementJson s2) = hashLedgerPayload H (settlementJson s)
         then Inr (db', \<lparr>sr_status = sr_status res, sr_replay = True\<rparr>, ls)
         else Inl ClosedByOtherSettlement))"
proof -
  have ok': "ledger_ok db'" by (rule ledger_step_ok [OF step_settle [OF assms(1)] assms(2)])
  have "\<exists>s r'. normalizeSettlement dto = Inr s \<and> r' \<in> set (db_spends db') \<and> sp_id r' = i
      \<and> sp_status r' = sr_status res \<and> sr_status res \<in> {Settled, Failed}
      \<and> sp_settlementHash r' = Some (hashLedgerPayload H (settlementJson s))
      \<and> (al \<or> i \<notin> set (db_taskSpends db'))
      \<and> ls = close_locks (sp_provider r') (sp_requestKey r') (sp_day r')"
    using assms(1)
  proof (cases rule: settleInTx_effect)
    case (same s r)
    then have "ls = close_locks (sp_provider r) (sp_requestKey r) (sp_day r)"
      using assms(1) by (auto simp: settleInTx_def Let_def rbind_eq_Inr)
    with same spend_where_Some [OF same(3)] show ?thesis by auto
  next
    case (closed s r)
    note r = spend_where_Some [OF closed(2)]
    obtain price sn an a where
      "settles s (hashLedgerPayload H (settlementJson s)) t r db db' res price sn an a"
      using settleReserved_effect [OF closed(4)] by blast
    note c = settlesD(6,7) [OF this]
    let ?r' = "settledRow s (hashLedgerPayload H (settlementJson s)) an a t r"
    have cl: "closes db r ?r' db'"
      using c(1) closed(2,3) r by (intro set_spend_closes) simp_all
    have "?r' \<in> set (db_spends db')"
      unfolding closes_rows [OF cl assms(2)] using r by force
    moreover have "db_taskSpends db' = db_taskSpends db" using cl by (auto simp: closes_def)
    moreover have "ls = close_locks (sp_provider r) (sp_requestKey r) (sp_day r)"
      using assms(1) closed by (auto simp: settleInTx_def Let_def rbind_eq_Inr)
    moreover have "sp_requestKey ?r' = sp_requestKey r" by (simp add: settledRow_def Let_def)
    ultimately show ?thesis using closed(1,5) c(2) r by (intro exI [of _ s] exI [of _ ?r']) auto
  qed
  then obtain s r' where s: "normalizeSettlement dto = Inr s" and r': "r' \<in> set (db_spends db')" "sp_id r' = i"
      "sp_status r' = sr_status res" "sr_status res \<in> {Settled, Failed}"
      "sp_settlementHash r' = Some (hashLedgerPayload H (settlementJson s))"
      "al \<or> i \<notin> set (db_taskSpends db')"
      "ls = close_locks (sp_provider r') (sp_requestKey r') (sp_day r')" by blast
  have w: "spend_where (\<lambda>r. sp_id r = i) db' = Some r'"
    using spend_where_id [OF ok' r'(1)] r'(2) by simp
  have "settleInTx H al t' i dto2 db' =
        (if hashLedgerPayload H (settlementJson s2) = hashLedgerPayload H (settlementJson s)
         then Inr (db', \<lparr>sr_status = sr_status res, sr_replay = True\<rparr>, ls)
         else Inl ClosedByOtherSettlement)" if "normalizeSettlement dto2 = Inr s2" for dto2 s2
    using that w r' by (auto simp: settleInTx_def Let_def assertNotTaskJobSpend_def guard_res_def)
  with s show ?thesis by blast
qed

end
