(* ===== verification/LedgerGuard.thy ===== *)
theory LedgerGuard
  imports Ledger
begin

text \<open>
  More properties of the ledger service: the idempotent reserve, the provider circuit, spends of
  task jobs, the day a reservation is made on, and the order of the advisory locks.
\<close>

section \<open>Replays of a reserve\<close>

lemma reserveInTx_direct:
  assumes "stabilizeLedgerDay (cx_clock ctx) = Some c"
    and "resolveLlmAdmissionPolicy (db_config db) (cx_env ctx) = Inr adm"
  shows "reserveInTx H None ctx dto db =
    rbind (case spend_where (\<lambda>r. sp_requestKey r = rq_requestKey (normalizeReserve dto)) db of
        Some prior \<Rightarrow> Inr (db, reserveReplay H (cx_env ctx) db (normalizeReserve dto) (dc_now c)
          (dc_day c) adm prior)
      | None \<Rightarrow> reserveNew H ctx db (normalizeReserve dto) (dc_now c) (dc_day c) adm)
    (\<lambda>(db', resp). Inr (db', resp, ProviderLock (rq_provider (normalizeReserve dto))
       # RequestLock (rq_requestKey (normalizeReserve dto)) # dc_locks c))"
  using assms by (simp add: reserveInTx_def Let_def more_locks_def of_config_def split: option.split)

lemma reserveInTx_directE:
  assumes "reserveInTx H None ctx dto db = Inr (db', resp, ls)"
  obtains c :: day_choice and adm where "stabilizeLedgerDay (cx_clock ctx) = Some c"
    "resolveLlmAdmissionPolicy (db_config db) (cx_env ctx) = Inr adm"
proof -
  obtain c where c: "stabilizeLedgerDay (cx_clock ctx) = Some c"
    using assms by (cases "stabilizeLedgerDay (cx_clock ctx)") (simp_all add: reserveInTx_def Let_def)
  obtain adm where "resolveLlmAdmissionPolicy (db_config db) (cx_env ctx) = Inr adm"
    using assms c by (cases "resolveLlmAdmissionPolicy (db_config db) (cx_env ctx)")
      (simp_all add: reserveInTx_def Let_def of_config_def)
  with c that show ?thesis by blast
qed

lemma spend_where_appended:
  assumes "spend_where p db = None" "db_spends db' = db_spends db @ [row]" "p row"
  shows "spend_where p db' = Some row"
proof -
  have "find p (xs @ [row]) = Some row" if "find p xs = None" for xs
    using that assms(3) by (induction xs) (auto split: if_splits)
  with assms show ?thesis by (simp add: spend_where_def)
qed

lemma activeProviderPrices_cong:
  "db_prices a = db_prices b \<Longrightarrow> activeProviderPrices a p t = activeProviderPrices b p t"
  by (simp add: activeProviderPrices_def)

text \<open>What the response of a granted new reservation turns into when it is replayed.\<close>

definition as_replay :: "reserve_response \<Rightarrow> reserve_response" where
  "as_replay resp = resp\<lparr>rr_reservation := map_option (\<lambda>rs. rs\<lparr>rs_replay := True\<rparr>) (rr_reservation resp)\<rparr>"

lemma replay_of_new:
  assumes new: "reserveNew H ctx db rq now day adm = Inr (db', resp)" "rr_allowed resp"
    and ids: "distinct (map ag_id (db_agents db))"
    and env: "env = cx_env ctx"
    and prices: "activeProviderPrices db (rq_provider rq) now' = activeProviderPrices db (rq_provider rq) now"
  shows "\<exists>row. db_spends db' = db_spends db @ [row] \<and> sp_requestKey row = rq_requestKey rq
    \<and> reserveReplay H env db' rq now' day adm row = as_replay resp"
  using new(1)
proof (cases rule: reserveNew_effect)
  case (made ar ae routed ac d n row)
  from made(6) new(2) have d: "d = None" by (cases d) simp_all
  note nd = newDenial_None [OF made(2) [unfolded d]]
  have db': "db_spends db' = db_spends db @ [row]" "db_config db' = db_config db"
    "db_agents db' = db_agents db" "db_prices db' = db_prices db"
    using made(5) by (auto simp: insert_spend_Inr)
  let ?gc = "parseCap (globalCapValue (db_config db) env)"
  let ?cap = "\<lambda>g. parseCap (agentCapValue (ag_budgetPerDayUsd g) (db_config db) env)"
  obtain q where q: "selectPriceRow (activeProviderPrices db (rq_provider rq) now) (rq_model rq) = Some q"
    and cost: "reserveProviderRouteCostNano (snapshotOf q)
      (map snapshotOf (activeProviderPrices db (rq_provider rq) now)) (rq_consumer rq)
      (rq_inputTokenCeiling rq) (rq_outputTokenCeiling rq) = Inr n"
    using nd(8) by auto
  have row: "sp_status row = Reserved" "sp_day row = day" "sp_reserved row = n" "exposureCase row = n"
    "sp_agentId row = map_option ag_id ar" "sp_requestKey row = rq_requestKey rq"
    "sp_requestHash row = hashLedgerPayload H (requestJson rq)" "sp_priceId row = Some (pr_id q)"
    "sp_priceSnapshot row = snapshotJson (snapshotOf q)"
    using made(4) d q by (simp_all add: exposureCase_def)
  have "ar = Some g \<Longrightarrow> agentById db (ag_id g) = Some g" for g
    using resolveAgent_row [OF _ ids] made(1) by auto
  then have agent: "priorAgent db' row = ar"
    using db'(3) row(5)
    by (cases ar) (auto simp: priorAgent_def agentById_def)
  have cap: "priorAgentCap env db' row = map_option ?cap ar"
    using agent row(5) db'(2) by (cases ar) (simp_all add: priorAgentCap_def)
  have ex: "readExposure db' day (sp_agentId row) =
      \<lparr>ex_global = ex_global (readExposure db day (map_option ag_id ar)) + n,
       ex_agent = map_option (\<lambda>a. a + n) (ex_agent (readExposure db day (map_option ag_id ar)))\<rparr>"
    using row by (cases ar) (simp_all add: readExposure_def sumExposure_append [OF db'(1)])
  have pol: "replayPolicyDenial rq day adm ?gc (map_option ?cap ar)
      (readExposure db' day (sp_agentId row)) row = None"
    using nd row env unfolding ex
    by (cases ar) (simp_all add: replayPolicyDenial_def reservationLimitDenial_def)
  have price: "replayPriceDenial H db' rq now' row = None"
    using q cost row(3,8,9) prices
    by (simp add: replayPriceDenial_def Let_def activeProviderPrices_cong [OF db'(4)]
        snapshot_reads_back)
  have "reserveReplay H env db' rq now' day adm row = as_replay resp"
    using pol price row(1,7) unfolding reserveReplay_def Let_def cap agent db'(2) made(6) d made(3) ex
    by (simp add: as_replay_def allowedResponse_def env option.map_comp o_def)
  with db'(1) row(6) show ?thesis by blast
qed

text \<open>C6. A retried reserve is recognised: after a new reservation has been granted, repeating the
  same body the same day, with unchanged prices and settings, changes nothing and returns the same
  reservation marked as a replay, with the same budget; no second exposure is created.\<close>

theorem reserve_replay_idempotent:
  assumes "reserveInTx H None ctx dto db = Inr (db', resp, ls)" "rr_allowed resp"
    and "rr_reservation resp = Some rs" "\<not> rs_replay rs"
    and "distinct (map ag_id (db_agents db))" "cx_env ctx' = cx_env ctx"
    and "stabilizeLedgerDay (cx_clock ctx) = Some c" "stabilizeLedgerDay (cx_clock ctx') = Some c'"
    and "dc_day c' = dc_day c"
    and "activeProviderPrices db (rq_provider (normalizeReserve dto)) (dc_now c') =
      activeProviderPrices db (rq_provider (normalizeReserve dto)) (dc_now c)"
  shows "\<exists>ls'. reserveInTx H None ctx' dto db' = Inr (db', as_replay resp, ls')"
proof -
  let ?rq = "normalizeReserve dto"
  obtain adm where adm: "resolveLlmAdmissionPolicy (db_config db) (cx_env ctx) = Inr adm"
    using assms(1) by (rule reserveInTx_directE)
  note dir = reserveInTx_direct [OF assms(7) adm, of H dto]
  have none: "spend_where (\<lambda>r. sp_requestKey r = rq_requestKey ?rq) db = None"
  proof (rule ccontr)
    assume "\<not> ?thesis"
    then obtain prior where "spend_where (\<lambda>r. sp_requestKey r = rq_requestKey ?rq) db = Some prior" by auto
    with assms(1) dir have "resp = reserveReplay H (cx_env ctx) db ?rq (dc_now c) (dc_day c) adm prior"
      by auto
    with reserveReplay_allowed(5) assms(2-4) show False by fastforce
  qed
  with assms(1) dir have new: "reserveNew H ctx db ?rq (dc_now c) (dc_day c) adm = Inr (db', resp)"
    by (auto simp: rbind_eq_Inr)
  from replay_of_new [OF new assms(2,5) assms(6) assms(10)]
  obtain row where row: "db_spends db' = db_spends db @ [row]" "sp_requestKey row = rq_requestKey ?rq"
    "reserveReplay H (cx_env ctx') db' ?rq (dc_now c') (dc_day c) adm row = as_replay resp" by blast
  have w: "spend_where (\<lambda>r. sp_requestKey r = rq_requestKey ?rq) db' = Some row"
    using spend_where_appended [OF none row(1)] row(2) by simp
  have "db_config db' = db_config db"
    using new by (cases rule: reserveNew_effect) (auto simp: insert_spend_Inr)
  with adm assms(6) have "resolveLlmAdmissionPolicy (db_config db') (cx_env ctx') = Inr adm" by simp
  from reserveInTx_direct [OF assms(8) this, of H dto] w row(3) assms(9)
  show ?thesis by simp
qed

section \<open>The provider circuit\<close>

lemma merge_marks_circuit:
  "an_circuitOpen a \<Longrightarrow> circuitMark (mergeSettlementMetadata m s lb (Some a))"
  by (simp add: circuitMark_def mergeSettlementMetadata_def Let_def)

lemma window_day: "in_window (providerCircuitWindow t') (Some t) \<longleftrightarrow> tashkentDay t = tashkentDay t'"
  unfolding in_window_def providerCircuitWindow_def Let_def tashkentDayStartOf_def
  by (simp add: day_unique [of t] tashkentDayEnd_def) linarith

lemma newDenial_circuit:
  assumes "oc \<noteq> None"
  shows "fst (newDenial db rq adm gc pc ae oc price rows ex nm) \<noteq> None"
  using newDenial_None(4) [of db rq adm gc pc ae oc price rows ex nm] assms
  by (metis prod.collapse)

lemma providerCircuit_opens:
  "r \<in> set (db_spends db) \<Longrightarrow> opensCircuit t prov r \<Longrightarrow> providerCircuit db t prov \<noteq> None"
  using spend_where_None [of "opensCircuit t prov" db] by (auto simp: providerCircuit_def)

text \<open>The anomalies that open the circuit: a physical model that is not the reserved one, or a
  success that does not name the model.\<close>

definition wrong_model :: "price_snapshot \<Rightarrow> settlement \<Rightarrow> bool" where
  "wrong_model p s \<longleftrightarrow>
     (case nonempty_text (st_resolvedModel s) of
        Some m \<Rightarrow> \<not> resolvedModelMatchesCatalogPrice (provider p) m (model p)
      | None \<Rightarrow> st_outcome s = Success)"

lemma wrong_model_anomaly:
  "wrong_model p s \<Longrightarrow> \<exists>a. classifySettlementAnomaly p (st_outcome s) (st_resolvedModel s) n = Some a
     \<and> an_circuitOpen a"
  by (auto simp: wrong_model_def classifySettlementAnomaly_def split: option.splits)

text \<open>C20. A spend linked to a durable task job cannot be closed through the plain endpoints: settle
  without the task permission, release without it, and pre-dispatch recovery all fail with the
  task-job conflict before anything changes, in every state of the row.\<close>

theorem task_spend_protected:
  assumes "ledger_ok db" "r \<in> set (db_spends db)" "sp_id r \<in> set (db_taskSpends db)"
    and "normalizeSettlement dto = Inr s" "js_trim (sp_requestKey r) = sp_requestKey r"
  shows "settleInTx H False t (sp_id r) dto db = Inl TaskJobSpend
    \<and> releaseInTx False t (sp_id r) reason db = Inl TaskJobSpend
    \<and> recoverPreDispatchInTx t (sp_requestKey r) db = Inl TaskJobSpend"
  using assms spend_where_id [OF assms(1,2)] spend_where_key [OF assms(1,2)]
  by (simp add: settleInTx_def releaseInTx_def recoverPreDispatchInTx_def Let_def
      assertNotTaskJobSpend_def guard_res_def)

section \<open>The day of a reservation\<close>

lemma stabilize_result:
  "stabilizeLedgerDay clock = Some c \<Longrightarrow>
    tashkentDay (dc_now c) = dc_day c \<and> dc_now c \<in> set clock
    \<and> (\<exists>days. dc_locks c = map BudgetLock (days @ [dc_day c]))"
proof (induction clock arbitrary: c rule: stabilizeLedgerDay.induct)
  case (1 b a clock)
  show ?case
  proof (cases "tashkentDay a = tashkentDay b")
    case True
    with 1(2) show ?thesis by (auto simp: Let_def intro: exI [of _ "[]"])
  next
    case False
    with 1(2) obtain c0 where c0: "stabilizeLedgerDay (a # clock) = Some c0"
      "c = more_locks [BudgetLock (tashkentDay b)] c0" by (auto simp: Let_def)
    from 1(1) [OF refl False c0(1)] obtain days where
      "tashkentDay (dc_now c0) = dc_day c0" "dc_now c0 \<in> set (a # clock)"
      "dc_locks c0 = map BudgetLock (days @ [dc_day c0])" by blast
    with c0(2) show ?thesis
      by (auto simp: more_locks_def intro!: exI [of _ "tashkentDay b # days"])
  qed
qed simp_all

text \<open>C28. The day loop of a reservation returns exactly when two consecutive clock readings fall on
  the same Tashkent day, and then it returns a reading of that day with the budget lock of that
  very day taken last: no reserve is decided on a day whose budget it does not hold.\<close>

theorem ledger_day_stabilizes:
  "(stabilizeLedgerDay clock \<noteq> None \<longleftrightarrow>
      (\<exists>i. Suc i < length clock \<and> tashkentDay (clock ! i) = tashkentDay (clock ! Suc i)))
   \<and> (case stabilizeLedgerDay clock of None \<Rightarrow> True
      | Some c \<Rightarrow> tashkentDay (dc_now c) = dc_day c \<and> dc_now c \<in> set clock
          \<and> dc_locks c \<noteq> [] \<and> last (dc_locks c) = BudgetLock (dc_day c))"
proof
  show "stabilizeLedgerDay clock \<noteq> None \<longleftrightarrow>
      (\<exists>i. Suc i < length clock \<and> tashkentDay (clock ! i) = tashkentDay (clock ! Suc i))"
  proof (induction clock rule: stabilizeLedgerDay.induct)
    case (1 b a clock)
    have "(\<exists>i. Suc i < length (b # a # clock) \<and>
        tashkentDay ((b # a # clock) ! i) = tashkentDay ((b # a # clock) ! Suc i)) \<longleftrightarrow>
      tashkentDay a = tashkentDay b \<or> (\<exists>i. Suc i < length (a # clock) \<and>
        tashkentDay ((a # clock) ! i) = tashkentDay ((a # clock) ! Suc i))" (is "?L \<longleftrightarrow> ?E \<or> ?R")
    proof
      assume ?L
      then obtain i where "Suc i < length (b # a # clock)"
        "tashkentDay ((b # a # clock) ! i) = tashkentDay ((b # a # clock) ! Suc i)" by blast
      then show "?E \<or> ?R" by (cases i) auto
    next
      assume "?E \<or> ?R"
      then show ?L
      proof
        assume ?E
        then show ?L by (intro exI [of _ 0]) simp
      next
        assume ?R
        then obtain i where "Suc i < length (a # clock)"
          "tashkentDay ((a # clock) ! i) = tashkentDay ((a # clock) ! Suc i)" by blast
        then show ?L by (intro exI [of _ "Suc i"]) simp
      qed
    qed
    with 1 show ?case by (auto simp: Let_def)
  qed simp_all
  show "case stabilizeLedgerDay clock of None \<Rightarrow> True
      | Some c \<Rightarrow> tashkentDay (dc_now c) = dc_day c \<and> dc_now c \<in> set clock
          \<and> dc_locks c \<noteq> [] \<and> last (dc_locks c) = BudgetLock (dc_day c)"
    using stabilize_result [of clock] by (auto split: option.split)
qed

text \<open>The loop of the task jobs: every failed round sees the day advance.\<close>

lemma task_stabilizes:
  assumes "sorted clock" "clock \<noteq> []"
    and "2 * (tashkentDay (last clock) - tashkentDay (hd clock)) + 3 \<le> int (length clock)"
  shows "\<exists>c k. stabilizeTaskDay f clock = Some (c, k)"
  using assms
proof (induction f clock rule: stabilizeTaskDay.induct)
  case (1 f cur a clock)
  have le: "tashkentDay cur \<le> tashkentDay a" using 1(3) by (intro day_mono) simp
  show ?case
  proof (cases "tashkentDay a = tashkentDay cur")
    case False
    with 1(3-5) le have "\<exists>c k. stabilizeTaskDay f (a # clock) = Some (c, k)"
      by (intro 1(1) [OF refl refl]) auto
    with False show ?thesis by (auto simp: Let_def)
  next
    case True
    have "3 \<le> length (cur # a # clock)"
      using 1(3,5) day_mono [of cur "last (cur # a # clock)"] by (auto split: if_splits)
    then obtain b rest where clock: "clock = b # rest" by (cases clock) auto
    show ?thesis
    proof (cases "tashkentDay b = tashkentDay cur")
      case True
      with \<open>tashkentDay a = tashkentDay cur\<close> clock show ?thesis by (simp add: Let_def)
    next
      case False
      have "tashkentDay cur \<le> tashkentDay b" using 1(3) clock by (intro day_mono) simp
      with False 1(3-5) clock have "\<exists>c k. stabilizeTaskDay f (b # rest) = Some (c, k)"
        by (intro 1(2) [OF refl refl _ clock]) (use True in auto)
      with False True clock show ?thesis by (auto simp: Let_def)
    qed
  qed
qed auto

lemma task_result:
  "stabilizeTaskDay f clock = Some (c, k) \<Longrightarrow>
    tashkentDay (dc_now c) = dc_day c \<and> k = js_trim (f (dc_day c))
    \<and> (\<exists>ls. dc_locks c = ls @ [RequestLock k, BudgetLock (dc_day c)])"
proof (induction f clock arbitrary: c k rule: stabilizeTaskDay.induct)
  case (1 f cur a clock)
  show ?case
  proof (cases "tashkentDay a = tashkentDay cur")
    case False
    with 1(3) obtain c0 where "stabilizeTaskDay f (a # clock) = Some (c0, k)"
      "c = more_locks [RequestLock (js_trim (f (tashkentDay cur)))] c0"
      by (auto simp: Let_def)
    with 1(1) [OF refl refl False] show ?thesis by (fastforce simp: more_locks_def)
  next
    case True
    with 1(3) obtain b rest where clock: "clock = b # rest"
      by (cases clock) (auto simp: Let_def)
    show ?thesis
    proof (cases "tashkentDay b = tashkentDay cur")
      case bt: True
      with True 1(3) clock show ?thesis by (auto simp: Let_def)
    next
      case False
      with True 1(3) clock obtain c0 where "stabilizeTaskDay f (b # rest) = Some (c0, k)"
        "c = more_locks [RequestLock (js_trim (f (tashkentDay cur))), BudgetLock (tashkentDay cur)] c0"
        by (auto simp: Let_def)
      with 1(2) [OF refl refl _ clock False] True show ?thesis by (fastforce simp: more_locks_def)
    qed
  qed
qed simp_all

text \<open>The task-job variant, whose request key depends on the day, also returns: on a clock that
  does not go back, two readings for every midnight it crosses and three more are enough, and the
  reservation then uses the key of its own day with the request lock of that key and the budget
  lock of that day taken last, in this order.\<close>

theorem task_day_stabilizes:
  assumes "sorted clock" "clock \<noteq> []"
    and "2 * (tashkentDay (last clock) - tashkentDay (hd clock)) + 3 \<le> int (length clock)"
  shows "\<exists>c ls. stabilizeTaskDay f clock = Some (c, js_trim (f (dc_day c)))
    \<and> tashkentDay (dc_now c) = dc_day c
    \<and> dc_locks c = ls @ [RequestLock (js_trim (f (dc_day c))), BudgetLock (dc_day c)]"
  using task_stabilizes [OF assms, of f] task_result by metis

theorem task_day_stabilizes_witness:
  "\<exists>c ls. stabilizeTaskDay (\<lambda>d. num_str d) [0, 0, 0] = Some (c, js_trim (num_str (dc_day c)))
    \<and> tashkentDay (dc_now c) = dc_day c
    \<and> dc_locks c = ls @ [RequestLock (js_trim (num_str (dc_day c))), BudgetLock (dc_day c)]"
  by (rule task_day_stabilizes) simp_all

section \<open>The request of a reserve\<close>

definition reserve_choice ::
  "(int \<Rightarrow> string) option \<Rightarrow> int list \<Rightarrow> reserve_dto \<Rightarrow> (day_choice \<times> reserve_request) option" where
  "reserve_choice kd clock dto = (case kd of
     Some f \<Rightarrow> map_option (\<lambda>(c, k). (c, (normalizeReserve dto)\<lparr>rq_requestKey := k\<rparr>)) (stabilizeTaskDay f clock)
   | None \<Rightarrow> map_option (\<lambda>c. (more_locks [RequestLock (rq_requestKey (normalizeReserve dto))] c, normalizeReserve dto))
       (stabilizeLedgerDay clock))"

text \<open>The Tashkent day a reserve is decided on, with the key of a task job or without.\<close>

definition decision_day :: "(int \<Rightarrow> string) option \<Rightarrow> int list \<Rightarrow> int option" where
  "decision_day kd clock = (case kd of
     Some f \<Rightarrow> map_option (\<lambda>p. dc_day (fst p)) (stabilizeTaskDay f clock)
   | None \<Rightarrow> map_option dc_day (stabilizeLedgerDay clock))"

lemma reserve_choice_day:
  assumes "reserve_choice kd clock dto = Some (c, rq)"
  shows "decision_day kd clock = Some (dc_day c)" "tashkentDay (dc_now c) = dc_day c"
    "rq_provider rq = rq_provider (normalizeReserve dto)"
  using assms stabilize_result [of clock] task_result [of _ clock]
  by (auto simp: reserve_choice_def decision_day_def more_locks_def split: option.splits)

lemma reserve_request:
  assumes "reserveInTx H kd ctx dto db = Inr (db', resp, ls)"
  shows "\<exists>c rq adm. reserve_choice kd (cx_clock ctx) dto = Some (c, rq)
    \<and> ls = ProviderLock (rq_provider (normalizeReserve dto)) # dc_locks c
    \<and> ((\<exists>prior. spend_where (\<lambda>r. sp_requestKey r = rq_requestKey rq) db = Some prior \<and> db' = db
          \<and> resp = reserveReplay H (cx_env ctx) db rq (dc_now c) (dc_day c) adm prior)
      \<or> reserveNew H ctx db rq (dc_now c) (dc_day c) adm = Inr (db', resp))"
proof (cases "reserve_choice kd (cx_clock ctx) dto")
  case None
  with assms show ?thesis by (simp add: reserveInTx_def reserve_choice_def Let_def)
next
  case (Some cr)
  obtain c rq where cr: "cr = (c, rq)" by (cases cr)
  have "reserveInTx H kd ctx dto db =
      rbind (of_config (resolveLlmAdmissionPolicy (db_config db) (cx_env ctx))) (\<lambda>admission.
      rbind (case spend_where (\<lambda>r. sp_requestKey r = rq_requestKey rq) db of
          Some prior \<Rightarrow> Inr (db, reserveReplay H (cx_env ctx) db rq (dc_now c) (dc_day c) admission prior)
        | None \<Rightarrow> reserveNew H ctx db rq (dc_now c) (dc_day c) admission) (\<lambda>(db', resp).
      Inr (db', resp, ProviderLock (rq_provider (normalizeReserve dto)) # dc_locks c)))"
    using Some cr by (simp add: reserveInTx_def reserve_choice_def Let_def)
  with assms obtain adm out where
    "(case spend_where (\<lambda>r. sp_requestKey r = rq_requestKey rq) db of
        Some prior \<Rightarrow> Inr (db, reserveReplay H (cx_env ctx) db rq (dc_now c) (dc_day c) adm prior)
      | None \<Rightarrow> reserveNew H ctx db rq (dc_now c) (dc_day c) adm) = Inr out" "out = (db', resp)"
    "ls = ProviderLock (rq_provider (normalizeReserve dto)) # dc_locks c"
    by (auto simp: rbind_eq_Inr)
  then show ?thesis unfolding Some cr
    by (intro exI [of _ c] exI [of _ rq] exI [of _ adm] conjI refl) (auto split: option.splits)
qed

section \<open>A wrong model stops the provider\<close>

text \<open>C19. A wrong model stops the provider for the day: once a settlement reports a physical model
  other than the reserved one, or a success without a model, no new reservation of that provider is
  granted on the same Tashkent day, to a direct call or to a task job, whatever else happened in between.
  All that is still allowed is the replay of a reservation that is already in the table and still open,
  and it changes nothing.\<close>

theorem wrong_model_blocks_provider:
  assumes "settleInTx H al t i dto db = Inr (db1, res, ls)" "\<not> sr_replay res" "ledger_ok db"
    and "r \<in> set (db_spends db)" "sp_id r = i" "parseSnapshot (sp_priceSnapshot r) = Inr p"
    and "normalizeSettlement dto = Inr s" "wrong_model p s"
    and "(ledger_step H)\<^sup>*\<^sup>* db1 db2"
    and "reserveInTx H kd ctx rdto db2 = Inr (db3, resp, ls')"
    and "rq_provider (normalizeReserve rdto) = sp_provider r"
    and "decision_day kd (cx_clock ctx) = Some (tashkentDay t)" "rr_allowed resp"
  shows "db3 = db2 \<and> (\<exists>x \<in> set (db_spends db2). sp_status x = Reserved
    \<and> rr_reservation resp = Some \<lparr>rs_id = sp_id x, rs_requestKey = sp_requestKey x, rs_day = sp_day x,
        rs_reserved = sp_reserved x, rs_replay = True\<rparr>)"
proof -
  obtain s' r' where closed: "normalizeSettlement dto = Inr s'" "spend_where (\<lambda>x. sp_id x = i) db = Some r'"
    "sp_status r' = Reserved" "settleReserved s' (hashLedgerPayload H (settlementJson s')) t r' db = Inr (db1, res)"
    using assms(1) by (cases rule: settleInTx_effect) (use assms(2) in auto)
  have r': "r' = r" "s' = s"
    using closed(1,2) spend_where_id [OF assms(3,4)] assms(5,7) by auto
  obtain price sn an a where
    st: "settles s (hashLedgerPayload H (settlementJson s)) t r db db1 res price sn an a"
    using settleReserved_effect [OF closed(4) [unfolded r']] by blast
  obtain anm where an: "an = Some anm" "an_circuitOpen anm"
    using settlesD(1,3) [OF st] wrong_model_anomaly [OF assms(8), of sn] assms(6) by auto
  let ?r' = "settledRow s (hashLedgerPayload H (settlementJson s)) an a t r"
  have cl: "closes db r ?r' db1"
    using settlesD(6) [OF st] closed(2,3) assms(5) unfolding r' by (intro set_spend_closes) simp_all
  have r1: "?r' \<in> set (db_spends db1)"
    unfolding closes_rows [OF cl assms(3)] using assms(4) by force
  have ok1: "ledger_ok db1" by (rule ledger_step_ok [OF step_settle [OF assms(1)] assms(3)])
  have r2: "?r' \<in> set (db_spends db2)"
    by (rule ledger.final_row_stays [OF assms(9) ok1 r1]) (simp add: spend_final_def an(1))
  from reserve_request [OF assms(10)] obtain c rq adm where ch: "reserve_choice kd (cx_clock ctx) rdto = Some (c, rq)"
    and out: "(\<exists>prior. spend_where (\<lambda>r. sp_requestKey r = rq_requestKey rq) db2 = Some prior \<and> db3 = db2
          \<and> resp = reserveReplay H (cx_env ctx) db2 rq (dc_now c) (dc_day c) adm prior)
      \<or> reserveNew H ctx db2 rq (dc_now c) (dc_day c) adm = Inr (db3, resp)"
    by (elim exE conjE) (rule that)
  note day = reserve_choice_day [OF ch]
  have "tashkentDay (dc_now c) = tashkentDay t" using day(1,2) assms(12) by simp
  then have "opensCircuit (dc_now c) (sp_provider r) ?r'"
    using an merge_marks_circuit [OF an(2)]
    by (simp add: opensCircuit_def window_day) (simp add: settledRow_def Let_def)
  then have oc: "providerCircuit db2 (dc_now c) (rq_provider rq) \<noteq> None"
    using providerCircuit_opens [OF r2] assms(11) day(3) by simp
  from out show ?thesis
  proof (elim disjE exE conjE)
    fix prior
    assume p: "spend_where (\<lambda>r. sp_requestKey r = rq_requestKey rq) db2 = Some prior" "db3 = db2"
      "resp = reserveReplay H (cx_env ctx) db2 rq (dc_now c) (dc_day c) adm prior"
    note f = reserveReplay_allowed [OF assms(13) [unfolded p(3)]]
    show ?thesis using p(2) f(3) spend_where_Some [OF p(1)] unfolding p(3) f(5) by (intro conjI bexI [of _ prior]) auto
  next
    assume "reserveNew H ctx db2 rq (dc_now c) (dc_day c) adm = Inr (db3, resp)"
    then show ?thesis
    proof (cases rule: reserveNew_effect)
      case (made ar ae routed ac d n row)
      with newDenial_circuit [OF oc] have "d \<noteq> None" by (metis fst_conv)
      with made(6) assms(13) show ?thesis by auto
    qed
  qed
qed

section \<open>Lock order\<close>

definition lock_rank :: "lock_key \<Rightarrow> nat" where
  "lock_rank k = (case k of ProviderLock _ \<Rightarrow> 0 | RequestLock _ \<Rightarrow> 1 | BudgetLock _ \<Rightarrow> 2)"

lemma close_locks_sorted [simp]: "sorted (map lock_rank (close_locks p k d))"
  by (simp add: close_locks_def lock_rank_def)

text \<open>A task reserve whose waits stay inside one day needs one round.\<close>

lemma task_one_round:
  assumes "stabilizeTaskDay f clock = Some (c, k)" "\<And>x. x \<in> set clock \<Longrightarrow> tashkentDay x = d"
  shows "dc_locks c = [RequestLock k, BudgetLock d]"
  using assms
  by (cases "(f, clock)" rule: stabilizeTaskDay.cases) (auto simp: Let_def split: list.splits)


end
