(* ===== verification/LedgerMonitoring.thy ===== *)
theory LedgerMonitoring
  imports LedgerGuard "HOL-Library.Product_Lexorder"
begin

text \<open>
  The read-only monitoring of the ledger, \<open>monitoring\<close> of \<^verbatim>\<open>llm-ledger.service.ts\<close> and the
  functions it assembles the snapshot with.  The health summary of the settlement spool is read
  from the file system and passed through (\<open>'o\<close>); amounts are nano-USD before \<open>nanoToNumber\<close>,
  instants are milliseconds before \<open>toISOString\<close>.  \<open>localeCompare\<close> on provider ids is the order of
  their code units, in which lower-case ids without punctuation agree.
\<close>

section \<open>The frame\<close>

definition LLM_STUCK_RESERVATION_THRESHOLD_MINUTES :: int where
  "LLM_STUCK_RESERVATION_THRESHOLD_MINUTES = 5"

record monitoring_frame =
  mf_day :: int
  mf_start :: int
  mf_end :: int
  mf_staleBefore :: int

definition llmMonitoringFrame :: "int \<Rightarrow> monitoring_frame" where
  "llmMonitoringFrame t = (let w = providerCircuitWindow t in
     \<lparr>mf_day = tashkentDay t, mf_start = fst w, mf_end = snd w,
      mf_staleBefore = t - LLM_STUCK_RESERVATION_THRESHOLD_MINUTES * 60000\<rparr>)"

definition failureWindowCondition :: "monitoring_frame \<Rightarrow> spend \<Rightarrow> bool" where
  "failureWindowCondition f r \<longleftrightarrow> sp_status r = Failed
     \<and> (sp_outcome r = Some ProviderError \<or> sp_outcome r = Some Unknown)
     \<and> in_window (mf_start f, mf_end f) (sp_failedAt r)"

text \<open>\<open>orderBy(desc nulls last, id).limit(1)\<close>\<close>

definition latest_first :: "(spend \<Rightarrow> int option) \<Rightarrow> spend list \<Rightarrow> spend option" where
  "latest_first f rows =
     (case sort_key (\<lambda>r. (if f r = None then 1 else 0 :: nat, - orZero (f r), sp_id r)) rows of
        [] \<Rightarrow> None | r # _ \<Rightarrow> Some r)"

section \<open>The last completed call\<close>

datatype cost_basis = Actual | LowerBound | UpperBound | Estimate | UnknownCost

record completed_view =
  cv_provider :: string
  cv_consumer :: consumer
  cv_feature :: string
  cv_requestedModel :: string
  cv_resolvedModel :: "string option"
  cv_status :: spend_status
  cv_outcome :: "settlement_outcome option"
  cv_cost :: "int option"
  cv_costBasis :: cost_basis
  cv_completedAt :: int

definition latestCompletedRouteScope :: "spend \<Rightarrow> bool" where
  "latestCompletedRouteScope r \<longleftrightarrow> sp_consumer r \<noteq> Embeddings"

definition ledgerMetadataBoolean :: "json \<Rightarrow> string \<Rightarrow> bool" where
  "ledgerMetadataBoolean m k =
     (case get_prop m ''_llmLedger'' of None \<Rightarrow> False | Some i \<Rightarrow> get_prop i k = Some (JBool True))"

definition aggregateOnlyCacheCost :: "spend \<Rightarrow> bool" where
  "aggregateOnlyCacheCost r =
     (case sp_usage r of
        None \<Rightarrow> False
      | Some u \<Rightarrow> (case cacheCreationInputTokens u of None \<Rightarrow> False | Some n \<Rightarrow> n > 0)
          \<and> cacheCreation5mInputTokens u = None \<and> cacheCreation1hInputTokens u = None)"

definition monitoringLatestCompleted :: "spend option \<Rightarrow> completed_view option" where
  "monitoringLatestCompleted row =
     (case row of
        None \<Rightarrow> None
      | Some r \<Rightarrow>
          if sp_status r \<noteq> Settled \<and> sp_status r \<noteq> Failed then None
          else case (if sp_status r = Settled then sp_settledAt r else sp_failedAt r) of
            None \<Rightarrow> None
          | Some completedAt \<Rightarrow>
              (let hasLowerBound = (sp_consumer r = Documents
                     \<or> ledgerMetadataBoolean (sp_metadata r) ''lowerBound'');
                   aggregateOnly = aggregateOnlyCacheCost r in
               Some \<lparr>cv_provider = sp_provider r, cv_consumer = sp_consumer r, cv_feature = sp_feature r,
                 cv_requestedModel = sp_model r, cv_resolvedModel = sp_resolvedModel r,
                 cv_status = sp_status r, cv_outcome = sp_outcome r, cv_cost = sp_actual r,
                 cv_costBasis = (if sp_actual r = None then UnknownCost
                   else if hasLowerBound \<and> aggregateOnly then Estimate
                   else if hasLowerBound then LowerBound
                   else if aggregateOnly then UpperBound else Actual),
                 cv_completedAt = completedAt\<rparr>))"

section \<open>Failures and circuits\<close>

record failure_view =
  fv_failedAt :: int
  fv_provider :: string
  fv_requestedModel :: string
  fv_resolvedModel :: "string option"
  fv_outcome :: settlement_outcome

definition monitoringLastFailure :: "spend option \<Rightarrow> failure_view option" where
  "monitoringLastFailure row =
     (case row of
        None \<Rightarrow> None
      | Some r \<Rightarrow>
          (case (sp_failedAt r, sp_outcome r) of
             (Some t, Some v) \<Rightarrow>
               if v = ProviderError \<or> v = Unknown
               then Some \<lparr>fv_failedAt = t, fv_provider = sp_provider r, fv_requestedModel = sp_model r,
                 fv_resolvedModel = sp_resolvedModel r, fv_outcome = v\<rparr>
               else None
           | _ \<Rightarrow> None))"

record circuit_view =
  ci_provider :: string
  ci_openedAt :: int
  ci_resetsAt :: int

text \<open>The map from providers to the earliest opening, in insertion order.\<close>

definition addOpening :: "(string \<times> int) list \<Rightarrow> spend \<Rightarrow> (string \<times> int) list" where
  "addOpening m r =
     (case sp_failedAt r of
        None \<Rightarrow> m
      | Some openedAt \<Rightarrow>
          (case map_of m (sp_provider r) of
             None \<Rightarrow> m @ [(sp_provider r, openedAt)]
           | Some prior \<Rightarrow>
               if openedAt < prior
               then map (\<lambda>p. if fst p = sp_provider r then (fst p, openedAt) else p) m else m))"

definition monitoringOpenCircuits :: "spend list \<Rightarrow> int \<Rightarrow> circuit_view list" where
  "monitoringOpenCircuits rows resetsAt =
     map (\<lambda>p. \<lparr>ci_provider = fst p, ci_openedAt = snd p, ci_resetsAt = resetsAt\<rparr>)
       (sort_key (\<lambda>p. (snd p, fst p)) (foldl addOpening [] rows))"

section \<open>The snapshot\<close>

record 'o ledger_monitoring =
  lm_generatedAt :: int
  lm_day :: int
  lm_settlementOutbox :: 'o
  lm_globalCap :: int
  lm_knownCost :: int
  lm_globalExposure :: int
  lm_reserved :: int
  lm_remaining :: int
  lm_configError :: bool
  lm_latestCompleted :: "completed_view option"
  lm_stuckCount :: int
  lm_stuckReserved :: int
  lm_oldestReservedAt :: "int option"
  lm_failureCount :: int
  lm_providerErrorCount :: int
  lm_unknownCount :: int
  lm_lastFailure :: "failure_view option"
  lm_openCircuits :: "circuit_view list"
  lm_meteredEnabled :: bool
  lm_priceProvider :: string
  lm_priceModel :: string
  lm_hasActivePrice :: bool

definition reservedSince :: "spend \<Rightarrow> int" where
  "reservedSince r = (case sp_reservedAt r of Some t \<Rightarrow> t | None \<Rightarrow> sp_createdAt r)"

definition minimum :: "int list \<Rightarrow> int option" where
  "minimum ts = (case ts of [] \<Rightarrow> None | t # r \<Rightarrow> Some (foldl min t r))"

definition monitoring ::
  "'o \<Rightarrow> kv \<Rightarrow> int \<Rightarrow> ledger_db \<Rightarrow> config_error + 'o ledger_monitoring" where
  "monitoring spool env t db =
     (let frame = llmMonitoringFrame t;
          rows = db_spends db;
          daily = filter (\<lambda>r. sp_day r = mf_day frame) rows;
          stuck = filter (\<lambda>r. sp_status r = Reserved \<and> reservedSince r \<le> mf_staleBefore frame) rows;
          failures = filter (failureWindowCondition frame) rows;
          openings = sort_key (\<lambda>r. (orZero (sp_failedAt r), sp_provider r))
            (filter (\<lambda>r. sp_outcome r = Some Unknown \<and> circuitMark (sp_metadata r)) failures);
          globalCap = parseCap (globalCapValue (db_config db) env);
          exposure = sum_list (map exposureCase daily) in
      rbind (resolveConfigValue ''LLM_PRICE_PROVIDER_ID'' (db_config db) env) (\<lambda>prov.
      rbind (resolveConfigValue ''LLM_MODEL'' (db_config db) env) (\<lambda>mdl.
      rbind (resolveConfigValue ''LLM_ENABLED'' (db_config db) env) (\<lambda>en.
      rbind (resolveConfigValue ''LLM_ROUTE'' (db_config db) env) (\<lambda>route.
      Inr \<lparr>lm_generatedAt = t, lm_day = mf_day frame, lm_settlementOutbox = spool,
        lm_globalCap = cap_nano globalCap,
        lm_knownCost = sum_list (map (\<lambda>r. if sp_status r = Settled \<or> sp_status r = Failed
          then orZero (sp_actual r) else 0) daily),
        lm_globalExposure = exposure,
        lm_reserved = sum_list (map (\<lambda>r. if sp_status r = Reserved then sp_reserved r else 0) daily),
        lm_remaining = remainingOf (cap_nano globalCap) exposure,
        lm_configError = cap_error globalCap,
        lm_latestCompleted = monitoringLatestCompleted
          (latest_first (\<lambda>r. case sp_settledAt r of Some v \<Rightarrow> Some v | None \<Rightarrow> sp_failedAt r)
            (filter (\<lambda>r. (sp_status r = Settled \<or> sp_status r = Failed) \<and> latestCompletedRouteScope r) rows)),
        lm_stuckCount = int (length stuck),
        lm_stuckReserved = sum_list (map sp_reserved stuck),
        lm_oldestReservedAt = minimum (map reservedSince stuck),
        lm_failureCount = int (length failures),
        lm_providerErrorCount = int (length (filter (\<lambda>r. sp_outcome r = Some ProviderError) failures)),
        lm_unknownCount = int (length (filter (\<lambda>r. sp_outcome r = Some Unknown) failures)),
        lm_lastFailure = monitoringLastFailure (latest_first sp_failedAt failures),
        lm_openCircuits = monitoringOpenCircuits openings (mf_end frame),
        lm_meteredEnabled = meteredLlmRouteEnabled en route,
        lm_priceProvider = prov, lm_priceModel = mdl,
        lm_hasActivePrice = (findActiveCatalogPrice db prov mdl t \<noteq> None)\<rparr>)))))"

section \<open>Properties\<close>

lemma fst_set_update: "fst ` set (map (\<lambda>q. if fst q = k then (fst q, v) else q) m) = fst ` set m"
  by (induction m) auto

lemma addOpening_fst:
  "fst ` set (addOpening m r) = fst ` set m \<union> (if sp_failedAt r = None then {} else {sp_provider r})"
proof (cases "sp_failedAt r")
  case None
  then show ?thesis by (simp add: addOpening_def)
next
  case (Some t)
  show ?thesis
  proof (cases "map_of m (sp_provider r)")
    case None
    with Some show ?thesis by (auto simp: addOpening_def)
  next
    case (Some p)
    then have "sp_provider r \<in> fst ` set m" by (metis map_of_eq_None_iff option.distinct(1))
    moreover have "fst ` set (map (\<lambda>q. if fst q = sp_provider r then (fst q, t) else q) m) = fst ` set m"
      by (rule fst_set_update)
    ultimately show ?thesis
      using Some \<open>sp_failedAt r = Some t\<close> by (auto simp: addOpening_def simp del: set_map)
  qed
qed

lemma openings_fst:
  "fst ` set (foldl addOpening m rows) =
    fst ` set m \<union> sp_provider ` {r \<in> set rows. sp_failedAt r \<noteq> None}"
  by (induction rows arbitrary: m) (auto simp: addOpening_fst split: if_splits)

lemma circuit_providers:
  "ci_provider ` set (monitoringOpenCircuits rows e) = sp_provider ` {r \<in> set rows. sp_failedAt r \<noteq> None}"
proof -
  have "ci_provider ` set (monitoringOpenCircuits rows e) = fst ` set (foldl addOpening [] rows)"
    by (simp add: monitoringOpenCircuits_def image_image)
  then show ?thesis using openings_fst [of "[]" rows] by simp
qed

lemma opening_rows:
  "{r \<in> set (db_spends db). failureWindowCondition (llmMonitoringFrame t) r
     \<and> sp_outcome r = Some Unknown \<and> circuitMark (sp_metadata r)}
   = {r \<in> set (db_spends db). opensCircuit t (sp_provider r) r}"
  by (auto simp: failureWindowCondition_def opensCircuit_def llmMonitoringFrame_def Let_def)

lemma monitoring_openings:
  assumes "monitoring spool env t db = Inr m"
  shows "ci_provider ` set (lm_openCircuits m) =
    sp_provider ` {r \<in> set (db_spends db). opensCircuit t (sp_provider r) r}"
proof -
  let ?o = "sort_key (\<lambda>r. (orZero (sp_failedAt r), sp_provider r))
    (filter (\<lambda>r. sp_outcome r = Some Unknown \<and> circuitMark (sp_metadata r))
      (filter (failureWindowCondition (llmMonitoringFrame t)) (db_spends db)))"
  have m: "lm_openCircuits m = monitoringOpenCircuits ?o (mf_end (llmMonitoringFrame t))"
    using assms by (auto simp: monitoring_def Let_def rbind_eq_Inr)
  have "{r \<in> set ?o. sp_failedAt r \<noteq> None} = {r \<in> set (db_spends db). opensCircuit t (sp_provider r) r}"
    unfolding opening_rows [symmetric]
    by (auto simp: failureWindowCondition_def in_window_def split: option.splits)
  with m show ?thesis by (simp add: circuit_providers)
qed

text \<open>C27. The monitoring shows what admission decides by: its exposure is the very sum the cap is
  checked against, its remainder is the unspent part of the same cap, and it lists a provider under
  the open circuits exactly when a reserve for that provider at that instant would find the
  circuit open.\<close>

theorem monitoring_agrees_with_admission:
  assumes "monitoring spool env t db = Inr m"
  shows "lm_globalExposure m = ex_global (readExposure db (tashkentDay t) ag)
    \<and> lm_globalCap m = cap_nano (parseCap (globalCapValue (db_config db) env))
    \<and> lm_remaining m = max 0 (lm_globalCap m - lm_globalExposure m)
    \<and> (p \<in> ci_provider ` set (lm_openCircuits m) \<longleftrightarrow> providerCircuit db t p \<noteq> None)
    \<and> (lm_hasActivePrice m \<longleftrightarrow> selectPriceRow (activeProviderPrices db (lm_priceProvider m) t)
         (lm_priceModel m) \<noteq> None)"
proof -
  have "p \<in> ci_provider ` set (lm_openCircuits m) \<longleftrightarrow> providerCircuit db t p \<noteq> None"
    unfolding monitoring_openings [OF assms] providerCircuit_def
    using spend_where_None [of "opensCircuit t p" db] by (auto simp: opensCircuit_def)
  with assms show ?thesis
    by (auto simp: monitoring_def Let_def rbind_eq_Inr llmMonitoringFrame_def sumExposure_def
        remainingOf_def findActiveCatalogPrice_def max_def)
qed

text \<open>Money is not lost between the daily sums: settled and failed cost plus open reserves never
  exceed the exposure admission counts, so the panel never shows more known spend than the cap
  logic holds.\<close>

theorem monitoring_known_below_exposure:
  assumes "monitoring spool env t db = Inr m" "\<forall>r \<in> set (db_spends db). row_ok r"
  shows "0 \<le> lm_reserved m \<and> 0 \<le> lm_knownCost m
    \<and> lm_knownCost m + lm_reserved m \<le> lm_globalExposure m"
proof -
  let ?d = "filter (\<lambda>r. sp_day r = tashkentDay t) (db_spends db)"
  let ?k = "\<lambda>r. if sp_status r = Settled \<or> sp_status r = Failed then orZero (sp_actual r) else 0"
  let ?r = "\<lambda>r. if sp_status r = Reserved then sp_reserved r else 0"
  have row: "0 \<le> ?k x \<and> 0 \<le> ?r x \<and> ?k x + ?r x \<le> exposureCase x" if "row_ok x" for x
  proof -
    have c: "row_checks x = Inr ()" using that by (simp add: row_ok_def)
    show ?thesis
      using row_checks_money(1) [OF c] row_checks_money(2) [OF c]
      by (cases "sp_actual x"; cases "sp_status x") (auto simp: exposureCase_def)
  qed
  have "0 \<le> sum_list (map ?r xs) \<and> 0 \<le> sum_list (map ?k xs)
      \<and> sum_list (map ?k xs) + sum_list (map ?r xs) \<le> sum_list (map exposureCase xs)"
    if "\<forall>x \<in> set xs. row_ok x" for xs
    using that
  proof (induction xs)
    case (Cons x xs)
    then show ?case using row [of x] by (fastforce simp del: if_split)
  qed simp
  with assms(2) have "0 \<le> sum_list (map ?r ?d) \<and> 0 \<le> sum_list (map ?k ?d)
      \<and> sum_list (map ?k ?d) + sum_list (map ?r ?d) \<le> sum_list (map exposureCase ?d)" by simp
  with assms(1) show ?thesis
    by (auto simp: monitoring_def Let_def rbind_eq_Inr llmMonitoringFrame_def)
qed

end
