(* ===== verification/LedgerSamples.thy ===== *)
theory LedgerSamples
  imports LedgerMonitoring
begin

text \<open>
  The ledger at concrete inputs: a table with one catalogue price and one agent, a reservation
  granted on it, and the closings of a reserved row, evaluated by the definitions.
\<close>

section \<open>A ledger\<close>

definition sample_hash :: "json \<Rightarrow> string" where
  "sample_hash j = ''h''"

definition sample_row :: price_row where
  "sample_row = \<lparr>pr_id = ''p1'', pr_price = sample_price, pr_validFrom = 0, pr_validTo = None\<rparr>"

definition sample_db :: ledger_db where
  "sample_db = \<lparr>db_spends = [], db_prices = [sample_row],
     db_agents = [\<lparr>ag_id = ''a1'', ag_name = ''seo'', ag_archived = False,
       ag_budgetPerDayUsd = Some ''2.00'', ag_budgetOnExceeded = None\<rparr>],
     db_config = (\<lambda>k. if k = ''LLM_ENABLED'' then Some ''1'' else None), db_taskSpends = []\<rparr>"

definition sample_ctx :: call_ctx where
  "sample_ctx = \<lparr>cx_env = (\<lambda>_. None), cx_clock = [1000, 2000], cx_newId = ''s1'', cx_createdAt = 1000\<rparr>"

definition sample_dto :: reserve_dto where
  "sample_dto = \<lparr>rd_requestKey = ''k1'', rd_traceKey = None, rd_consumer = Agents, rd_feature = ''f'',
     rd_agentName = Some ''seo'', rd_provider = ''anthropic'', rd_model = ''m'',
     rd_inputTokenCeiling = 1000, rd_outputTokenCeiling = 100, rd_metadata = None\<rparr>"

definition sample_spend :: spend where
  "sample_spend = \<lparr>sp_id = ''s1'', sp_requestKey = ''k1'', sp_requestHash = ''h'',
     sp_settlementHash = None, sp_traceKey = None, sp_consumer = Agents, sp_feature = ''f'',
     sp_agentId = Some ''a1'', sp_agentName = Some ''seo'', sp_provider = ''anthropic'', sp_model = ''m'',
     sp_resolvedModel = None, sp_priceId = Some ''p1'', sp_priceSnapshot = snapshotJson sample_price,
     sp_status = Reserved, sp_outcome = None, sp_day = 0, sp_inputTokenCeiling = 1000,
     sp_outputTokenCeiling = 100, sp_reserved = 7500000, sp_actual = None, sp_usage = None,
     sp_providerRequestId = None, sp_reason = None, sp_metadata = JObj [], sp_reservedAt = Some 1000,
     sp_settledAt = None, sp_failedAt = None, sp_releasedAt = None, sp_deniedAt = None,
     sp_createdAt = 1000, sp_updatedAt = 1000\<rparr>"

definition sample_db1 :: ledger_db where
  "sample_db1 = sample_db\<lparr>db_spends := [sample_spend]\<rparr>"

definition sample_success :: settlement where
  "sample_success = \<lparr>st_outcome = Success, st_usage = Some sample_usage, st_providerRequestId = None,
     st_resolvedModel = Some ''m'', st_providerReportedUsd = None, st_reason = None, st_metadata = None\<rparr>"

definition sample_no_model :: settlement where
  "sample_no_model = sample_success\<lparr>st_resolvedModel := None\<rparr>"

section \<open>Evaluation\<close>

lemma res_case:
  "(case x of Inr (d, r, l) \<Rightarrow> P d r l | Inl _ \<Rightarrow> False) \<Longrightarrow> \<exists>d r l. x = Inr (d, r, l) \<and> P d r l"
  by (auto split: sum.splits)

lemma sample_reserved: "\<exists>d r l. reserveInTx sample_hash None sample_ctx sample_dto sample_db = Inr (d, r, l)
    \<and> rr_allowed r \<and> rr_reservation r \<noteq> None \<and> \<not> rs_replay (the (rr_reservation r))"
  by (rule res_case) code_simp

lemma sample_row_checks: "row_checks sample_spend = Inr ()"
  by code_simp

lemma sample_covered: "reserveCostNano sample_price Agents 1000 100 = Inr 7500000"
  by code_simp

lemma sample_db1_ok: "ledger_ok sample_db1"
  using sample_row_checks
  by (simp add: ledger_ok_def sample_db1_def sample_db_def row_ok_def) (simp add: sample_spend_def)

lemma sample_parse: "parseSnapshot (sp_priceSnapshot sample_spend) = Inr sample_price"
  by (simp add: sample_spend_def snapshot_reads_back sample_price_def)

lemma sample_db1_covered: "ledger_covered sample_db1"
  using sample_parse sample_covered
  by (auto simp: ledger_covered_def sample_db1_def row_covered_def sample_spend_def
      billableInputTokenCeiling_def isDocumentCodeExecution_def intro!: exI [of _ sample_price]
      exI [of _ 1000])

lemma sample_spend_in: "sample_spend \<in> set (db_spends sample_db1)"
  by (simp add: sample_db1_def)

lemma sample_settled: "\<exists>d r l. settleInTx sample_hash False 3000 ''s1'' sample_success sample_db1 = Inr (d, r, l)
    \<and> \<not> sr_replay r \<and> sr_status r = Settled"
  by (rule res_case) code_simp

lemma sample_unknown: "\<exists>d r l. settleInTx sample_hash False 3000 ''s1'' sample_no_model sample_db1 = Inr (d, r, l)
    \<and> \<not> sr_replay r \<and> (\<exists>x \<in> set (db_spends d). sp_id x = ''s1'' \<and> sp_outcome x = Some Unknown)"
  by (rule res_case) code_simp

lemma sample_released: "\<exists>d l. releaseInTx False 3000 ''s1'' ''stop'' sample_db1 = Inr (d, False, l)"
proof -
  have "case releaseInTx False 3000 ''s1'' ''stop'' sample_db1 of Inr (d, r, l) \<Rightarrow> \<not> r | Inl _ \<Rightarrow> False"
    by code_simp
  from res_case [OF this] show ?thesis by auto
qed

definition sample_dto2 :: reserve_dto where
  "sample_dto2 = sample_dto\<lparr>rd_requestKey := ''k2''\<rparr>"

definition sample_ctx2 :: call_ctx where
  "sample_ctx2 = sample_ctx\<lparr>cx_newId := ''s2''\<rparr>"

lemma sample_blocked: "\<exists>d r l. settleInTx sample_hash False 3000 ''s1'' sample_no_model sample_db1 = Inr (d, r, l)
    \<and> \<not> sr_replay r \<and> (\<forall>x \<in> set (db_spends d). sp_status x \<noteq> Reserved)
    \<and> (\<exists>d3 r3 l3. reserveInTx sample_hash None sample_ctx2 sample_dto2 d = Inr (d3, r3, l3))"
proof -
  have "case settleInTx sample_hash False 3000 ''s1'' sample_no_model sample_db1 of
      Inr (d, r, l) \<Rightarrow> \<not> sr_replay r
        \<and> (\<forall>x \<in> set (db_spends d). sp_status x \<noteq> Reserved)
        \<and> (case reserveInTx sample_hash None sample_ctx2 sample_dto2 d of Inr (d3, r3, l3) \<Rightarrow> True | Inl _ \<Rightarrow> False)
    | Inl _ \<Rightarrow> False"
    by code_simp
  from res_case [OF this] obtain d r l where d:
    "settleInTx sample_hash False 3000 ''s1'' sample_no_model sample_db1 = Inr (d, r, l)" "\<not> sr_replay r"
    "\<forall>x \<in> set (db_spends d). sp_status x \<noteq> Reserved"
    "case reserveInTx sample_hash None sample_ctx2 sample_dto2 d of Inr (d3, r3, l3) \<Rightarrow> True | Inl _ \<Rightarrow> False"
    by blast
  from res_case [OF d(4)] d(1-3) show ?thesis by blast
qed

lemma sample_day: "stabilizeLedgerDay (cx_clock sample_ctx) =
    Some \<lparr>dc_now = 2000, dc_day = 0, dc_locks = [BudgetLock 0]\<rparr>"
  "stabilizeLedgerDay (cx_clock sample_ctx2) = Some \<lparr>dc_now = 2000, dc_day = 0, dc_locks = [BudgetLock 0]\<rparr>"
  by code_simp+

lemma sample_days: "tashkentDay 3000 = 0" "tashkentDay 2000 = 0"
  by code_simp+

lemma sample_agents_distinct: "distinct (map ag_id (db_agents sample_db))"
  by (simp add: sample_db_def)

lemma sample_normal:
  "\<exists>s. normalizeSettlement sample_no_model = Inr s \<and> wrong_model sample_price s"
  "\<exists>s. normalizeSettlement sample_success = Inr s \<and> st_usage s = Some (sample_usage\<lparr>codeExecutionRequests := Some 0\<rparr>)"
  by (simp_all add: normalizeSettlement_def sample_no_model_def sample_success_def normalizeUsage_def
      sample_usage_def orZero_def wrong_model_def truthy_trim_def nonempty_text_def)

section \<open>Witnesses\<close>

theorem reserve_within_caps_witness:
  "\<exists>db' resp ls. reserveInTx sample_hash None sample_ctx sample_dto sample_db = Inr (db', resp, ls)
    \<and> within_caps (cx_env sample_ctx) db' resp \<and> within_reservation_cap (db_config sample_db) (cx_env sample_ctx) resp"
  using sample_reserved reserve_within_caps [OF _ _ sample_agents_distinct] by blast

theorem exposure_sql_is_exposureNano_witness:
  "rbind (nanoToUsd (sp_reserved sample_spend)) (\<lambda>rt.
      rbind (case sp_actual sample_spend of None \<Rightarrow> Inr None
        | Some a \<Rightarrow> rbind (nanoToUsd a) (\<lambda>t. Inr (Some t))) (\<lambda>actual.
      exposureNano (sp_status sample_spend) (sp_outcome sample_spend) rt actual))
    = Inr (exposureCase sample_spend)"
  by (rule exposure_sql_is_exposureNano [OF sample_row_checks])

theorem unknown_outcome_keeps_exposure_witness:
  "\<exists>db' res ls. settleInTx sample_hash False 3000 ''s1'' sample_no_model sample_db1 = Inr (db', res, ls)
    \<and> sumExposure sample_db1 0 None \<le> sumExposure db' 0 None"
  using sample_unknown unknown_outcome_keeps_exposure [OF _ _ sample_db1_ok] by blast

theorem release_frees_reserve_witness:
  "\<exists>db' ls. releaseInTx False 3000 ''s1'' ''stop'' sample_db1 = Inr (db', False, ls)
    \<and> (\<exists>r \<in> set (db_spends sample_db1). sp_id r = ''s1''
      \<and> (\<forall>d ag. sumExposure db' d ag = sumExposure sample_db1 d ag -
        (if sp_day r = d \<and> (case ag of None \<Rightarrow> True | Some a \<Rightarrow> sp_agentId r = Some a) then sp_reserved r else 0)))"
proof -
  obtain d l where "releaseInTx False 3000 ''s1'' ''stop'' sample_db1 = Inr (d, False, l)"
    using sample_released by blast
  with release_frees_reserve [OF this sample_db1_ok] show ?thesis by blast
qed

theorem ledger_rows_append_only_witness:
  "\<exists>db' ls. releaseInTx False 3000 ''s1'' ''stop'' sample_db1 = Inr (db', False, ls)
    \<and> (\<exists>r' \<in> set (db_spends db'). sp_id r' = sp_id sample_spend \<and>
        (r' = sample_spend \<or> same_reservation sample_spend r' \<and> sp_status r' \<in> {Settled, Failed, Released}))"
proof -
  obtain d l where r: "releaseInTx False 3000 ''s1'' ''stop'' sample_db1 = Inr (d, False, l)"
    using sample_released by blast
  have "(ledger_step sample_hash)\<^sup>*\<^sup>* sample_db1 d" by (rule r_into_rtranclp, rule step_release [OF r])
  from ledger_rows_append_only [OF this sample_db1_ok sample_spend_in] r show ?thesis by blast
qed

theorem ledger_invariant_witness:
  "\<exists>db' ls. releaseInTx False 3000 ''s1'' ''stop'' sample_db1 = Inr (db', False, ls)
    \<and> distinct (map sp_id (db_spends db')) \<and> distinct (map sp_requestKey (db_spends db'))
    \<and> (\<forall>r \<in> set (db_spends db'). row_ok r \<and> row_covered r)"
proof -
  obtain d l where r: "releaseInTx False 3000 ''s1'' ''stop'' sample_db1 = Inr (d, False, l)"
    using sample_released by blast
  have "(ledger_step sample_hash)\<^sup>*\<^sup>* sample_db1 d" by (rule r_into_rtranclp, rule step_release [OF r])
  from ledger_invariant [OF this sample_db1_ok sample_db1_covered] r show ?thesis by blast
qed

theorem settlement_within_reserve_witness:
  "\<exists>db' res ls. settleInTx sample_hash False 3000 ''s1'' sample_success sample_db1 = Inr (db', res, ls)
    \<and> sumExposure db' 0 None \<le> sumExposure sample_db1 0 None"
proof -
  obtain d r l where e: "settleInTx sample_hash False 3000 ''s1'' sample_success sample_db1 = Inr (d, r, l)"
    "\<not> sr_replay r" "sr_status r = Settled" using sample_settled by blast
  obtain s where s: "normalizeSettlement sample_success = Inr s"
    "st_usage s = Some (sample_usage\<lparr>codeExecutionRequests := Some 0\<rparr>)"
    using sample_normal(2) by blast
  have "sumExposure d 0 None \<le> sumExposure sample_db1 0 None"
    by (rule settlement_within_reserve [OF rtranclp.rtrancl_refl sample_db1_ok sample_db1_covered e
        sample_spend_in _ sample_parse _ s])
      (simp_all add: sample_spend_def sample_price_def sample_usage_def usage_nonneg_def orZero_def
        cache_creation_tokens_def)
  with e(1) show ?thesis by blast
qed

theorem settle_idempotent_witness:
  "\<exists>db' res ls. settleInTx sample_hash False 3000 ''s1'' sample_success sample_db1 = Inr (db', res, ls)
    \<and> settleInTx sample_hash False 9000 ''s1'' sample_success db'
        = Inr (db', \<lparr>sr_status = sr_status res, sr_replay = True\<rparr>, ls)"
proof -
  obtain d r l where e: "settleInTx sample_hash False 3000 ''s1'' sample_success sample_db1 = Inr (d, r, l)"
    using sample_settled by blast
  from settle_idempotent [OF e sample_db1_ok, of 9000] have
    "settleInTx sample_hash False 9000 ''s1'' sample_success d
      = Inr (d, \<lparr>sr_status = sr_status r, sr_replay = True\<rparr>, l)" by auto
  with e show ?thesis by blast
qed

theorem reserve_replay_idempotent_witness:
  "\<exists>db' resp ls ls'. reserveInTx sample_hash None sample_ctx sample_dto sample_db = Inr (db', resp, ls)
    \<and> reserveInTx sample_hash None sample_ctx2 sample_dto db' = Inr (db', as_replay resp, ls')"
proof -
  obtain d r l rs where e: "reserveInTx sample_hash None sample_ctx sample_dto sample_db = Inr (d, r, l)"
    "rr_allowed r" "rr_reservation r = Some rs" "\<not> rs_replay rs" using sample_reserved by auto
  have "\<exists>ls'. reserveInTx sample_hash None sample_ctx2 sample_dto d = Inr (d, as_replay r, ls')"
    by (rule reserve_replay_idempotent [OF e sample_agents_distinct _ sample_day])
      (simp_all add: sample_ctx2_def)
  with e(1) show ?thesis by blast
qed

theorem wrong_model_blocks_provider_witness:
  "\<exists>db1 res ls db3 resp ls'.
    settleInTx sample_hash False 3000 ''s1'' sample_no_model sample_db1 = Inr (db1, res, ls)
    \<and> reserveInTx sample_hash None sample_ctx2 sample_dto2 db1 = Inr (db3, resp, ls')
    \<and> \<not> rr_allowed resp"
proof -
  obtain d r l d3 r3 l3 where e: "settleInTx sample_hash False 3000 ''s1'' sample_no_model sample_db1 = Inr (d, r, l)"
    "\<not> sr_replay r" "\<forall>x \<in> set (db_spends d). sp_status x \<noteq> Reserved"
    "reserveInTx sample_hash None sample_ctx2 sample_dto2 d = Inr (d3, r3, l3)"
    using sample_blocked by blast
  obtain s where s: "normalizeSettlement sample_no_model = Inr s" "wrong_model sample_price s"
    using sample_normal(1) by blast
  have p: "rq_provider (normalizeReserve sample_dto2) = sp_provider sample_spend" by code_simp
  have i: "sp_id sample_spend = ''s1''" by (simp add: sample_spend_def)
  have day: "decision_day None (cx_clock sample_ctx2) = Some (tashkentDay 3000)"
    by (simp add: decision_day_def sample_day(2) sample_days)
  have "\<not> rr_allowed r3"
  proof
    assume "rr_allowed r3"
    from wrong_model_blocks_provider [OF e(1,2) sample_db1_ok sample_spend_in i sample_parse s
        rtranclp.rtrancl_refl e(4) p day this] e(3) show False by blast
  qed
  with e show ?thesis by blast
qed

definition sample_task_db :: ledger_db where
  "sample_task_db = sample_db1\<lparr>db_taskSpends := [''s1'']\<rparr>"

theorem task_spend_protected_witness:
  "releaseInTx False 0 (sp_id sample_spend) ''x'' sample_task_db = Inl TaskJobSpend"
proof -
  obtain s where s: "normalizeSettlement sample_success = Inr s" using sample_normal(2) by blast
  have "ledger_ok sample_task_db" using sample_db1_ok
    by (simp add: ledger_ok_def sample_task_db_def)
  moreover have "js_trim (sp_requestKey sample_spend) = sp_requestKey sample_spend" by code_simp
  ultimately show ?thesis
    using task_spend_protected [of sample_task_db sample_spend sample_success s] s
    by (simp add: sample_task_db_def sample_db1_def) (simp add: sample_spend_def)
qed

lemma sample_midnight: "\<exists>d r l. reserveInTx sample_hash (Some (\<lambda>_. ''k'')) (sample_ctx\<lparr>cx_clock := [0, 0, DAY_MS, DAY_MS, DAY_MS]\<rparr>)
    sample_dto sample_db = Inr (d, r, l)"
proof -
  have "case reserveInTx sample_hash (Some (\<lambda>_. ''k'')) (sample_ctx\<lparr>cx_clock := [0, 0, DAY_MS, DAY_MS, DAY_MS]\<rparr>)
      sample_dto sample_db of Inr (d, r, l) \<Rightarrow> True | Inl _ \<Rightarrow> False"
    by code_simp
  from res_case [OF this] show ?thesis by auto
qed


lemma sample_monitoring: "\<exists>m. monitoring () (\<lambda>_. None) 2000 sample_db1 = Inr m"
  by (simp add: monitoring_def Let_def resolveConfigValue_def specFor_def CONFIG_SPECS_def
      CORE_SPECS_def LLM_SPECS_def mk_spec_def)

theorem monitoring_agrees_with_admission_witness:
  "\<exists>m. monitoring () (\<lambda>_. None) 2000 sample_db1 = Inr m
    \<and> lm_globalExposure m = ex_global (readExposure sample_db1 (tashkentDay 2000) None)
    \<and> (''anthropic'' \<in> ci_provider ` set (lm_openCircuits m)
        \<longleftrightarrow> providerCircuit sample_db1 2000 ''anthropic'' \<noteq> None)"
proof -
  obtain m where m: "monitoring () (\<lambda>_. None) 2000 sample_db1 = Inr m" using sample_monitoring by blast
  from monitoring_agrees_with_admission [OF m, of None "''anthropic''"] m show ?thesis by (intro exI [of _ m]) simp
qed

theorem monitoring_known_below_exposure_witness:
  "\<exists>m. monitoring () (\<lambda>_. None) 2000 sample_db1 = Inr m
    \<and> lm_knownCost m + lm_reserved m \<le> lm_globalExposure m"
proof -
  obtain m where m: "monitoring () (\<lambda>_. None) 2000 sample_db1 = Inr m" using sample_monitoring by blast
  have "\<forall>r \<in> set (db_spends sample_db1). row_ok r" using sample_db1_ok by (simp add: ledger_ok_def)
  from monitoring_known_below_exposure [OF m this] m show ?thesis by blast
qed

end
