(* ===== verification/SystemConfig.thy ===== *)
theory SystemConfig
  imports LedgerPolicy
begin

text \<open>
  The writes of the settings panel, \<^verbatim>\<open>apps/core/src/system/system.service.ts\<close>, and the accounting
  source they announce, \<^verbatim>\<open>apps/core/src/sales/accounting-source.ts\<close>.  The state is the
  \<open>system_config\<close> table as a partial map and the list of events written; a rejected request
  (\<open>BadRequestException\<close>) is an \<open>Inl\<close>.  The columns \<open>updatedBy\<close> and \<open>updatedAt\<close> and the advisory
  lock of the profile write are not represented.  The result of a write is the table; the returned
  list of effective values is \<open>resolveAll\<close> of it.
\<close>

section \<open>The accounting source\<close>

datatype accounting_source = Stock | Own

definition ACCOUNTING_SOURCE_KEY :: string where
  "ACCOUNTING_SOURCE_KEY = ''OURVEND_ACCOUNTING_SOURCE''"

definition ACCOUNTING_SOURCE_CACHE_MS :: int where
  "ACCOUNTING_SOURCE_CACHE_MS = 60000"

definition resolveAccountingSource :: "string \<Rightarrow> kv \<Rightarrow> accounting_source" where
  "resolveAccountingSource setting env =
     (if text_at env ''STOCK_DATABASE_URL'' = [] then Own
      else if js_lower (js_trim setting) = ''own'' then Own else Stock)"

text \<open>The cached read: the cell holds the time and the value of the last resolution.\<close>

definition accountingSource ::
  "kv \<Rightarrow> kv \<Rightarrow> int \<Rightarrow> (int \<times> accounting_source) option
    \<Rightarrow> accounting_source \<times> (int \<times> accounting_source) option" where
  "accountingSource db env t cache =
     (case cache of
        Some (since, v) \<Rightarrow>
          if t - since < ACCOUNTING_SOURCE_CACHE_MS \<and> t \<ge> since then (v, cache)
          else (let w = resolveAccountingSource (settingValue db env ACCOUNTING_SOURCE_KEY) env in
                (w, Some (t, w)))
      | None \<Rightarrow>
          (let w = resolveAccountingSource (settingValue db env ACCOUNTING_SOURCE_KEY) env in
           (w, Some (t, w))))"

section \<open>State and errors\<close>

record source_event =
  se_from :: string
  se_to :: string
  se_effective :: accounting_source

record system_state =
  ss_config :: kv
  ss_events :: "source_event list"
  ss_cache :: "(int \<times> accounting_source) option"

datatype profile_error =
    FieldInvalid string config_error
  | SubscriptionRouteBlocked
  | BaseUrlMustBeOfficial
  | PriceProviderMustBeOpenai
  | Unresolvable config_error

datatype system_error =
    Invalid config_error
  | ProfileKeyAlone
  | EmptyProfile
  | NotAProfileKey string
  | DuplicateKey string
  | ProfileRejected profile_error

section \<open>One setting\<close>

definition put_config :: "kv \<Rightarrow> string \<Rightarrow> string \<Rightarrow> kv" where
  "put_config db k v = (if v = [] then db(k := None) else db(k \<mapsto> v))"

text \<open>
  \<open>set\<close>: for the accounting source the value before and after decides the event and the reset of
  the cache; \<open>effective().find(...)\<close> is the resolved value of the key.
\<close>

definition set_config :: "kv \<Rightarrow> string \<Rightarrow> string \<Rightarrow> system_state \<Rightarrow> system_error + system_state" where
  "set_config env k v s =
     (case validateConfig k v of
        Some e \<Rightarrow> Inl (Invalid e)
      | None \<Rightarrow>
          if isLlmProfileKey k then Inl ProfileKeyAlone
          else
            (let trimmed = js_trim v;
                 observed = (k = ACCOUNTING_SOURCE_KEY);
                 before = settingValue (ss_config s) env k;
                 after = settingValue (if trimmed = [] then (\<lambda>_. None) else [k \<mapsto> trimmed]) env k;
                 wasSource = resolveAccountingSource before env;
                 newSource = resolveAccountingSource after env in
             Inr \<lparr>ss_config = put_config (ss_config s) k trimmed,
               ss_events = ss_events s @ (if observed \<and> newSource \<noteq> wasSource
                 then [\<lparr>se_from = before, se_to = after, se_effective = newSource\<rparr>] else []),
               ss_cache = (if observed \<and> after \<noteq> before then None else ss_cache s)\<rparr>))"

section \<open>The LLM profile\<close>

definition of_resolve :: "config_error + 'a \<Rightarrow> profile_error + 'a" where
  "of_resolve r = (case r of Inl e \<Rightarrow> Inl (Unresolvable e) | Inr x \<Rightarrow> Inr x)"

fun validateFields :: "kv \<Rightarrow> kv \<Rightarrow> string list \<Rightarrow> profile_error + unit" where
  "validateFields db env [] = Inr ()"
| "validateFields db env (k # ks) =
     rbind (of_resolve (resolveConfigValue k db env)) (\<lambda>v.
     case validateConfig k v of
       Some e \<Rightarrow> Inl (FieldInvalid k e)
     | None \<Rightarrow> validateFields db env ks)"

text \<open>\<open>Inr ()\<close> is the \<open>null\<close> of the code.\<close>

definition validateLlmProfileState :: "kv \<Rightarrow> kv \<Rightarrow> profile_error + unit" where
  "validateLlmProfileState db env =
     rbind (validateFields db env LLM_PROFILE_KEYS) (\<lambda>_.
     rbind (of_resolve (resolveConfigValue ''LLM_ENABLED'' db env)) (\<lambda>enabled.
     rbind (of_resolve (resolveConfigValue ''LLM_ROUTE'' db env)) (\<lambda>route.
     if enabled = ''1'' \<and> route = ''codex-subscription'' then Inl SubscriptionRouteBlocked
     else if route = ''openai-api'' then
       rbind (of_resolve (resolveConfigValue ''LLM_BASE_URL'' db env)) (\<lambda>baseUrl.
       if baseUrl \<noteq> OPENAI_LLM_BASE_URL then Inl BaseUrlMustBeOfficial
       else rbind (of_resolve (resolveConfigValue ''LLM_PRICE_PROVIDER_ID'' db env)) (\<lambda>priceProvider.
         if priceProvider \<noteq> OPENAI_LLM_PRICE_PROVIDER_ID then Inl PriceProviderMustBeOpenai
         else Inr ()))
     else Inr ())))"

text \<open>The items of a profile write, checked and trimmed one by one with the keys seen so far.\<close>

fun normalizeItems :: "string list \<Rightarrow> (string \<times> string) list \<Rightarrow> system_error + (string \<times> string) list" where
  "normalizeItems seen [] = Inr []"
| "normalizeItems seen ((k, v) # items) =
     (if \<not> isLlmProfileKey k then Inl (NotAProfileKey k)
      else if k \<in> set seen then Inl (DuplicateKey k)
      else case validateConfig k v of
        Some e \<Rightarrow> Inl (Invalid e)
      | None \<Rightarrow> rbind (normalizeItems (k # seen) items) (\<lambda>r. Inr ((k, js_trim v) # r)))"

definition put_items :: "kv \<Rightarrow> (string \<times> string) list \<Rightarrow> kv" where
  "put_items db items = foldl (\<lambda>m (k, v). put_config m k v) db items"

text \<open>The warning is the flag that a metered route is on without an active catalogue price.\<close>

definition llmActivePriceWarning :: "kv \<Rightarrow> kv \<Rightarrow> ledger_db \<Rightarrow> int \<Rightarrow> bool" where
  "llmActivePriceWarning db env prices t =
     (meteredLlmRouteEnabled (settingValue db env ''LLM_ENABLED'') (settingValue db env ''LLM_ROUTE'')
      \<and> findActiveCatalogPrice prices (settingValue db env ''LLM_PRICE_PROVIDER_ID'')
          (settingValue db env ''LLM_MODEL'') t = None)"

definition setLlmProfile ::
  "kv \<Rightarrow> ledger_db \<Rightarrow> int \<Rightarrow> (string \<times> string) list \<Rightarrow> system_state
    \<Rightarrow> system_error + system_state \<times> bool" where
  "setLlmProfile env prices t items s =
     (if items = [] then Inl EmptyProfile
      else
        rbind (normalizeItems [] items) (\<lambda>normalized.
        (let prospective = put_items (ss_config s) normalized in
         case validateLlmProfileState prospective env of
           Inl e \<Rightarrow> Inl (ProfileRejected e)
         | Inr _ \<Rightarrow>
             (let s' = s\<lparr>ss_config := put_items (ss_config s) normalized\<rparr> in
              Inr (s', llmActivePriceWarning (ss_config s') env prices t)))))"

section \<open>What a write can change\<close>

inductive system_step :: "kv \<Rightarrow> system_state \<Rightarrow> system_state \<Rightarrow> bool" for env where
  step_set: "set_config env k v s = Inr s' \<Longrightarrow> system_step env s s'"
| step_profile: "setLlmProfile env prices t items s = Inr (s', w) \<Longrightarrow> system_step env s s'"

inductive_simps system_step_simps: "system_step env s s'"

lemma settingValue_resolve: "specFor k = Some sp \<Longrightarrow> settingValue db env k = fst (resolveEffective sp db env)"
  by (simp add: settingValue_def)

lemma resolve_known: "specFor k = Some sp \<Longrightarrow> resolveConfigValue k db env = Inr (settingValue db env k)"
  by (simp add: resolveConfigValue_def settingValue_def)

lemma text_at_put:
  "text_at (put_config db k (js_trim v)) k' = (if k' = k then js_trim v else text_at db k')"
  by (auto simp: put_config_def text_at_def)

text \<open>The effective value of a key depends on its own row, and for the LLM cap on the legacy row.\<close>

lemma settingValue_other:
  assumes "k' \<noteq> k" "k' = ''LLM_GLOBAL_DAILY_BUDGET_USD'' \<Longrightarrow> k \<noteq> ''AGENT_GLOBAL_BUDGET_USD''"
  shows "settingValue (put_config db k (js_trim v)) env k' = settingValue db env k'"
proof (cases "specFor k'")
  case None
  then show ?thesis by (simp add: settingValue_def)
next
  case (Some sp)
  then have key: "spec_key sp = k'" using specFor_key by blast
  show ?thesis
  proof (cases "k' = ''LLM_GLOBAL_DAILY_BUDGET_USD''")
    case True
    with assms(2) have "k \<noteq> ''AGENT_GLOBAL_BUDGET_USD''" by blast
    then have "text_at (put_config db k (js_trim v)) ''AGENT_GLOBAL_BUDGET_USD'' =
        text_at db ''AGENT_GLOBAL_BUDGET_USD''" by (simp add: text_at_put)
    moreover have "text_at (put_config db k (js_trim v)) k' = text_at db k'"
      using assms(1) by (simp add: text_at_put)
    ultimately show ?thesis
      using Some key by (simp add: settingValue_def resolveEffective_def Let_def)
  next
    case False
    moreover have "text_at (put_config db k (js_trim v)) k' = text_at db k'"
      using assms(1) by (simp add: text_at_put)
    ultimately show ?thesis
      using Some key by (simp add: settingValue_def resolveEffective_def Let_def)
  qed
qed

section \<open>The profile invariant\<close>

lemma profile_key_spec: "isLlmProfileKey k \<Longrightarrow> \<exists>sp. specFor k = Some sp"
  unfolding isLlmProfileKey_def LLM_PROFILE_KEYS_def
  by (auto simp: specFor_def CONFIG_SPECS_def CORE_SPECS_def LLM_SPECS_def mk_spec_def)

lemma resolve_profile_key:
  "isLlmProfileKey k \<Longrightarrow> of_resolve (resolveConfigValue k db env) = Inr (settingValue db env k)"
  using profile_key_spec [of k] by (auto simp: resolve_known of_resolve_def)

lemma profile_keys:
  "isLlmProfileKey ''LLM_ENABLED''" "isLlmProfileKey ''LLM_ROUTE''" "isLlmProfileKey ''LLM_BASE_URL''"
  "isLlmProfileKey ''LLM_PRICE_PROVIDER_ID''" "isLlmProfileKey ''LLM_GLOBAL_DAILY_BUDGET_USD''"
  "\<not> isLlmProfileKey ''AGENT_GLOBAL_BUDGET_USD''"
  by (simp_all add: isLlmProfileKey_def LLM_PROFILE_KEYS_def)

lemma validateFields_ok:
  "list_all isLlmProfileKey ks \<Longrightarrow> validateFields db env ks = Inr () \<longleftrightarrow>
    (\<forall>k \<in> set ks. validateConfig k (settingValue db env k) = None)"
  by (induction ks) (auto simp: resolve_profile_key split: option.splits)

lemma all_profile_keys: "list_all isLlmProfileKey LLM_PROFILE_KEYS"
  by (simp add: isLlmProfileKey_def list_all_iff)

definition profile_safe :: "kv \<Rightarrow> kv \<Rightarrow> bool" where
  "profile_safe db env \<longleftrightarrow>
     (\<forall>k \<in> set LLM_PROFILE_KEYS. validateConfig k (settingValue db env k) = None)
     \<and> \<not> (settingValue db env ''LLM_ENABLED'' = ''1''
          \<and> settingValue db env ''LLM_ROUTE'' = ''codex-subscription'')
     \<and> (settingValue db env ''LLM_ROUTE'' = ''openai-api'' \<longrightarrow>
          settingValue db env ''LLM_BASE_URL'' = OPENAI_LLM_BASE_URL
          \<and> settingValue db env ''LLM_PRICE_PROVIDER_ID'' = OPENAI_LLM_PRICE_PROVIDER_ID)"

lemma validate_profile_iff: "validateLlmProfileState db env = Inr () \<longleftrightarrow> profile_safe db env"
  unfolding validateLlmProfileState_def profile_safe_def
  by (simp add: rbind_eq_Inr validateFields_ok [OF all_profile_keys] resolve_profile_key profile_keys)

lemma profile_safe_cong:
  assumes "\<And>k. isLlmProfileKey k \<Longrightarrow> settingValue db' env k = settingValue db env k"
  shows "profile_safe db' env = profile_safe db env"
  using assms profile_keys by (simp add: profile_safe_def isLlmProfileKey_def)

text \<open>A legacy cap in the environment is an unchecked fallback of the LLM cap.\<close>

definition env_legacy_ok :: "kv \<Rightarrow> bool" where
  "env_legacy_ok env \<longleftrightarrow> (text_at env ''AGENT_GLOBAL_BUDGET_USD'' = []
     \<or> nonNegNumber (text_at env ''AGENT_GLOBAL_BUDGET_USD'') = None)"

lemma text_at_trimmed [simp]: "js_trim (text_at m k) = text_at m k"
  by (simp add: text_at_def)

lemma default_cap_ok: "validateConfig ''LLM_GLOBAL_DAILY_BUDGET_USD'' ''10'' = None"
proof -
  have "js_number ''10'' = Fin 10" using to_double_int [of 10] by (simp add: number_text_defs)
  moreover have "js_trim ''10'' = ''10''" "replace_comma ''10'' = ''10''" by code_simp+
  ultimately show ?thesis
    by (simp add: validateConfig_def specFor_cap mk_spec_def nonNegNumber_def accept_if_def number_ok_def)
qed

lemma cap_after_legacy:
  assumes "validateConfig ''AGENT_GLOBAL_BUDGET_USD'' v = None" "env_legacy_ok env"
    and "validateConfig ''LLM_GLOBAL_DAILY_BUDGET_USD'' (settingValue db env ''LLM_GLOBAL_DAILY_BUDGET_USD'') = None"
  shows "validateConfig ''LLM_GLOBAL_DAILY_BUDGET_USD''
    (settingValue (put_config db ''AGENT_GLOBAL_BUDGET_USD'' (js_trim v)) env ''LLM_GLOBAL_DAILY_BUDGET_USD'') = None"
proof -
  let ?C = "''LLM_GLOBAL_DAILY_BUDGET_USD''" and ?A = "''AGENT_GLOBAL_BUDGET_USD''"
  have v: "js_trim v = [] \<or> nonNegNumber (js_trim v) = None"
    using assms(1) by (auto simp: validateConfig_def specFor_legacy_cap mk_spec_def split: if_splits)
  let ?db = "put_config db ?A (js_trim v)"
  have C: "text_at ?db ?C = text_at db ?C" "text_at ?db ?A = js_trim v" by (simp_all add: text_at_put)
  consider "text_at db ?C \<noteq> [] \<or> text_at env ?C \<noteq> []"
    | "text_at db ?C = []" "text_at env ?C = []" "js_trim v \<noteq> []"
    | "text_at db ?C = []" "text_at env ?C = []" "js_trim v = []" "text_at env ?A \<noteq> []"
    | "text_at db ?C = []" "text_at env ?C = []" "js_trim v = []" "text_at env ?A = []" by blast
  then show ?thesis
  proof cases
    case 1
    then have "settingValue ?db env ?C = settingValue db env ?C"
      using C by (auto simp: settingValue_def specFor_cap mk_spec_def resolveEffective_def Let_def)
    with assms(3) show ?thesis by simp
  next
    case 2
    then have "settingValue ?db env ?C = js_trim v"
      using C by (simp add: settingValue_def specFor_cap mk_spec_def resolveEffective_def Let_def)
    with v 2 show ?thesis by (simp add: validateConfig_def specFor_cap mk_spec_def)
  next
    case 3
    then have "settingValue ?db env ?C = text_at env ?A"
      using C by (simp add: settingValue_def specFor_cap mk_spec_def resolveEffective_def Let_def)
    with 3 assms(2) show ?thesis
      by (simp add: validateConfig_def specFor_cap mk_spec_def env_legacy_ok_def)
  next
    case 4
    then have "settingValue ?db env ?C = ''10''"
      using C by (simp add: settingValue_def specFor_cap mk_spec_def resolveEffective_def Let_def)
    then show ?thesis using default_cap_ok by simp
  qed
qed

lemma set_config_safe:
  assumes "set_config env k v s = Inr s'" "profile_safe (ss_config s) env" "env_legacy_ok env"
  shows "profile_safe (ss_config s') env"
proof -
  from assms(1) have valid: "validateConfig k v = None" and np: "\<not> isLlmProfileKey k"
    and s': "ss_config s' = put_config (ss_config s) k (js_trim v)"
    by (auto simp: set_config_def Let_def split: option.splits if_splits)
  let ?C = "''LLM_GLOBAL_DAILY_BUDGET_USD''"
  have other: "settingValue (ss_config s') env k' = settingValue (ss_config s) env k'"
    if "isLlmProfileKey k'" "k' = ?C \<Longrightarrow> k \<noteq> ''AGENT_GLOBAL_BUDGET_USD''" for k'
    unfolding s' using that np by (intro settingValue_other) auto
  show ?thesis
  proof (cases "k = ''AGENT_GLOBAL_BUDGET_USD''")
    case False
    then show ?thesis
      using assms(2) profile_safe_cong [of "ss_config s'" env "ss_config s"] other by blast
  next
    case True
    have C: "validateConfig ?C (settingValue (ss_config s) env ?C) = None"
      using assms(2) by (simp add: profile_safe_def LLM_PROFILE_KEYS_def)
    have new: "validateConfig ?C (settingValue (ss_config s') env ?C) = None"
      using cap_after_legacy [OF _ assms(3) C] valid unfolding s' True by blast
    have same: "settingValue (ss_config s') env k' = settingValue (ss_config s) env k'"
      if "isLlmProfileKey k'" "k' \<noteq> ?C" for k'
      using that by (intro other) auto
    have "validateConfig k' (settingValue (ss_config s') env k') = None" if "k' \<in> set LLM_PROFILE_KEYS" for k'
      using that new same [of k'] assms(2)
      by (cases "k' = ?C") (auto simp: isLlmProfileKey_def profile_safe_def)
    then show ?thesis
      using assms(2) profile_keys same by (simp add: profile_safe_def)
  qed
qed

lemma setLlmProfile_safe:
  assumes "setLlmProfile env prices t items s = Inr (s', w)"
  shows "profile_safe (ss_config s') env"
proof -
  obtain norm where n: "normalizeItems [] items = Inr norm"
    using assms by (auto simp: setLlmProfile_def rbind_eq_Inr split: if_splits)
  let ?db = "put_items (ss_config s) norm"
  show ?thesis
  proof (cases "validateLlmProfileState ?db env")
    case (Inl e)
    with assms n show ?thesis by (auto simp: setLlmProfile_def split: if_splits)
  next
    case (Inr u)
    with assms n have "ss_config s' = ?db" by (auto simp: setLlmProfile_def Let_def split: if_splits)
    with Inr show ?thesis using validate_profile_iff by simp
  qed
qed

text \<open>C22. No sequence of panel writes can leave an unsafe LLM profile: starting from a profile that
  validates, after any writes of single settings and of the profile, in any order, every profile
  field holds an accepted value, the unprovable subscription route is not switched on, and the
  OpenAI route points to the official endpoint and its own price catalogue.  The single-setting
  endpoint matters because it can still change the legacy cap the LLM cap falls back to.\<close>

theorem profile_stays_safe:
  assumes "(system_step env)\<^sup>*\<^sup>* s s'" "validateLlmProfileState (ss_config s) env = Inr ()"
    and "env_legacy_ok env"
  shows "validateLlmProfileState (ss_config s') env = Inr ()
    \<and> (settingValue (ss_config s') env ''LLM_ENABLED'' = ''1''
        \<longrightarrow> settingValue (ss_config s') env ''LLM_ROUTE'' \<noteq> ''codex-subscription'')
    \<and> (meteredLlmRouteEnabled (settingValue (ss_config s') env ''LLM_ENABLED'')
          (settingValue (ss_config s') env ''LLM_ROUTE'')
        \<longrightarrow> settingValue (ss_config s') env ''LLM_BASE_URL'' = OPENAI_LLM_BASE_URL
          \<and> settingValue (ss_config s') env ''LLM_PRICE_PROVIDER_ID'' = OPENAI_LLM_PRICE_PROVIDER_ID)"
proof -
  have "profile_safe (ss_config s') env"
    using assms(1)
  proof (induction rule: rtranclp_induct)
    case base
    then show ?case using assms(2) validate_profile_iff by simp
  next
    case (step y z)
    then show ?case
      using set_config_safe [OF _ _ assms(3)] setLlmProfile_safe by (auto simp: system_step_simps)
  qed
  then show ?thesis
    by (simp add: validate_profile_iff)
      (auto simp: profile_safe_def meteredLlmRouteEnabled_def METERED_LLM_ROUTES_def)
qed

definition sample_state :: system_state where
  "sample_state = \<lparr>ss_config = (\<lambda>_. None), ss_events = [], ss_cache = None\<rparr>"

lemma sample_numbers: "js_number ''10'' = Fin 10" "js_number ''3'' = Fin 3" "js_number ''7'' = Fin 7"
  using to_double_int [of 10] to_double_int [of 3] to_double_int [of 7] by (simp_all add: number_text_defs)

lemma sample_trims: "js_trim ''10'' = ''10''" "js_trim ''3'' = ''3''" "js_trim ''7'' = ''7''"
  "replace_comma ''10'' = ''10''" "replace_comma ''3'' = ''3''" "replace_comma ''7'' = ''7''"
  by code_simp+

lemmas white_list = specFor_def CONFIG_SPECS_def CORE_SPECS_def LLM_SPECS_def mk_spec_def

lemma sample_profile_safe: "profile_safe (\<lambda>_. None) (\<lambda>_. None)"
proof -
  have num: "validateConfig ''LLM_GLOBAL_DAILY_BUDGET_USD'' ''10'' = None"
    "validateConfig ''LLM_MAX_RESERVATION_USD'' ''3'' = None"
    by (simp_all add: validateConfig_def specFor_money mk_spec_def sample_trims nonNegNumber_def
        accept_if_def number_ok_def sample_numbers)
  have tx: "validateConfig ''LLM_ENABLED'' ''0'' = None" "validateConfig ''LLM_ROUTE'' ''openai-api'' = None"
    "validateConfig ''LLM_MODEL'' ''gpt-5.6-sol'' = None" "validateConfig ''LLM_FALLBACK_MODELS'' [] = None"
    "validateConfig ''LLM_BASE_URL'' OPENAI_LLM_BASE_URL = None"
    "validateConfig ''LLM_PRICE_PROVIDER_ID'' OPENAI_LLM_PRICE_PROVIDER_ID = None"
    by code_simp+
  have val: "settingValue (\<lambda>_. None) (\<lambda>_. None) ''LLM_ENABLED'' = ''0''"
    "settingValue (\<lambda>_. None) (\<lambda>_. None) ''LLM_ROUTE'' = ''openai-api''"
    "settingValue (\<lambda>_. None) (\<lambda>_. None) ''LLM_MODEL'' = ''gpt-5.6-sol''"
    "settingValue (\<lambda>_. None) (\<lambda>_. None) ''LLM_FALLBACK_MODELS'' = []"
    "settingValue (\<lambda>_. None) (\<lambda>_. None) ''LLM_BASE_URL'' = OPENAI_LLM_BASE_URL"
    "settingValue (\<lambda>_. None) (\<lambda>_. None) ''LLM_PRICE_PROVIDER_ID'' = OPENAI_LLM_PRICE_PROVIDER_ID"
    "settingValue (\<lambda>_. None) (\<lambda>_. None) ''LLM_GLOBAL_DAILY_BUDGET_USD'' = ''10''"
    "settingValue (\<lambda>_. None) (\<lambda>_. None) ''LLM_MAX_RESERVATION_USD'' = ''3''"
    by (simp_all add: settingValue_def white_list resolveEffective_def text_at_def)
  show ?thesis
    unfolding profile_safe_def LLM_PROFILE_KEYS_def by (simp add: val num tx)
qed

theorem profile_stays_safe_witness:
  "\<exists>s'. set_config (\<lambda>_. None) ''AGENT_GLOBAL_BUDGET_USD'' ''7'' sample_state = Inr s'
    \<and> validateLlmProfileState (ss_config s') (\<lambda>_. None) = Inr ()"
proof -
  have "validateConfig ''AGENT_GLOBAL_BUDGET_USD'' ''7'' = None"
    by (simp add: validateConfig_def specFor_money mk_spec_def sample_trims nonNegNumber_def
        accept_if_def number_ok_def sample_numbers)
  then obtain s' where s': "set_config (\<lambda>_. None) ''AGENT_GLOBAL_BUDGET_USD'' ''7'' sample_state = Inr s'"
    by (simp add: set_config_def profile_keys Let_def)
  have st: "(system_step (\<lambda>_. None))\<^sup>*\<^sup>* sample_state s'"
    by (rule r_into_rtranclp, rule step_set [OF s'])
  have "validateLlmProfileState (ss_config sample_state) (\<lambda>_. None) = Inr ()"
    using sample_profile_safe by (simp add: validate_profile_iff sample_state_def)
  moreover have "env_legacy_ok (\<lambda>_. None)" by (simp add: env_legacy_ok_def text_at_def)
  ultimately show ?thesis using profile_stays_safe [OF st] s' by blast
qed

end
