(* ===== verification/LedgerClient.thy ===== *)
theory LedgerClient
  imports Json TashkentTime Money
begin

text \<open>
  The HTTP client of the ledger, \<open>CoreLlmLedgerClient\<close> of \<^verbatim>\<open>packages/shared/src/llm-ledger.ts\<close>:
  one POST per reserve, a bounded number of identical POSTs per close, the \<open>Retry-After\<close> header, and
  the check of a reserve response.

  The network is a function from the number of a POST to its outcome; the state of a client run is
  the list of POSTs made (path and JSON body) and the list of waits.  \<open>JSON.stringify\<close> is a function
  of the body, so a POST records the JSON value; a body that cannot be serialized is \<open>None\<close>.
\<close>

section \<open>The \<open>Retry-After\<close> header\<close>

definition MAX_SAFE_INTEGER :: int where
  "MAX_SAFE_INTEGER = 2 ^ 53 - 1"

definition HTTP_WEEKDAY :: "string list" where
  "HTTP_WEEKDAY = [''Mon'', ''Tue'', ''Wed'', ''Thu'', ''Fri'', ''Sat'', ''Sun'']"

definition HTTP_WEEKDAY_LONG :: "string list" where
  "HTTP_WEEKDAY_LONG = [''Monday'', ''Tuesday'', ''Wednesday'', ''Thursday'', ''Friday'',
     ''Saturday'', ''Sunday'']"

definition HTTP_MONTH_INDEX :: "(string \<times> int) list" where
  "HTTP_MONTH_INDEX = [(''Jan'', 0), (''Feb'', 1), (''Mar'', 2), (''Apr'', 3), (''May'', 4),
     (''Jun'', 5), (''Jul'', 6), (''Aug'', 7), (''Sep'', 8), (''Oct'', 9), (''Nov'', 10), (''Dec'', 11)]"

text \<open>A date as the regular expressions split it: day, month index, year, hour, minute, second.\<close>

record http_date =
  hd_day :: int
  hd_month :: int
  hd_year :: int
  hd_hour :: int
  hd_minute :: int
  hd_second :: int

definition sub_text :: "nat \<Rightarrow> nat \<Rightarrow> string \<Rightarrow> string" where
  "sub_text i n s = take n (drop i s)"

definition two_digits :: "nat \<Rightarrow> string \<Rightarrow> int option" where
  "two_digits i s = (let d = sub_text i 2 s in
     if length d = 2 \<and> list_all is_digit d then Some (digits_val d) else None)"

definition four_digits :: "nat \<Rightarrow> string \<Rightarrow> int option" where
  "four_digits i s = (let d = sub_text i 4 s in
     if length d = 4 \<and> list_all is_digit d then Some (digits_val d) else None)"

text \<open>\<open>hh:mm:ss\<close> at an offset.\<close>

definition clock_text :: "nat \<Rightarrow> string \<Rightarrow> (int \<times> int \<times> int) option" where
  "clock_text i s =
     (case (two_digits i s, two_digits (i + 3) s, two_digits (i + 6) s) of
        (Some h, Some m, Some sec) \<Rightarrow>
          if sub_text (i + 2) 1 s = '':'' \<and> sub_text (i + 5) 1 s = '':'' then Some (h, m, sec) else None
      | _ \<Rightarrow> None)"

text \<open>\<open>IMF_FIXDATE_PATTERN\<close>: \<open>Sun, 06 Nov 1994 08:49:37 GMT\<close>.\<close>

definition imfFixdate :: "string \<Rightarrow> http_date option" where
  "imfFixdate s =
     (if length s = 29 \<and> sub_text 0 3 s \<in> set HTTP_WEEKDAY \<and> sub_text 3 2 s = '', ''
         \<and> sub_text 7 1 s = '' '' \<and> sub_text 11 1 s = '' '' \<and> sub_text 16 1 s = '' ''
         \<and> sub_text 25 4 s = '' GMT''
      then case (two_digits 5 s, map_of HTTP_MONTH_INDEX (sub_text 8 3 s), four_digits 12 s, clock_text 17 s) of
          (Some d, Some mon, Some y, Some (h, m, sec)) \<Rightarrow>
            Some \<lparr>hd_day = d, hd_month = mon, hd_year = y, hd_hour = h, hd_minute = m, hd_second = sec\<rparr>
        | _ \<Rightarrow> None
      else None)"

text \<open>\<open>RFC850_DATE_PATTERN\<close>: \<open>Sunday, 06-Nov-94 08:49:37 GMT\<close>; the year has two digits.\<close>

definition rfc850Tail :: "string \<Rightarrow> http_date option" where
  "rfc850Tail s =
     (if length s = 22 \<and> sub_text 2 1 s = ''-'' \<and> sub_text 6 1 s = ''-'' \<and> sub_text 9 1 s = '' ''
         \<and> sub_text 18 4 s = '' GMT''
      then case (two_digits 0 s, map_of HTTP_MONTH_INDEX (sub_text 3 3 s), two_digits 7 s, clock_text 10 s) of
          (Some d, Some mon, Some y, Some (h, m, sec)) \<Rightarrow>
            Some \<lparr>hd_day = d, hd_month = mon, hd_year = y, hd_hour = h, hd_minute = m, hd_second = sec\<rparr>
        | _ \<Rightarrow> None
      else None)"

definition rfc850Date :: "string \<Rightarrow> http_date option" where
  "rfc850Date s =
     (case find (\<lambda>wd. starts_with (wd @ '', '') s) HTTP_WEEKDAY_LONG of
        None \<Rightarrow> None
      | Some wd \<Rightarrow> rfc850Tail (drop (length wd + 2) s))"

text \<open>\<open>ASCTIME_DATE_PATTERN\<close>: \<open>Sun Nov  6 08:49:37 1994\<close>.\<close>

definition asctime_day :: "string \<Rightarrow> int option" where
  "asctime_day s = (case two_digits 8 s of Some d \<Rightarrow> Some d
     | None \<Rightarrow> if sub_text 8 1 s = '' '' \<and> list_all is_digit (sub_text 9 1 s) \<and> sub_text 9 1 s \<noteq> ''0''
         then Some (digits_val (sub_text 9 1 s)) else None)"

definition asctimeDate :: "string \<Rightarrow> http_date option" where
  "asctimeDate s =
     (if length s = 24 \<and> sub_text 0 3 s \<in> set HTTP_WEEKDAY \<and> sub_text 3 1 s = '' '' \<and> sub_text 7 1 s = '' ''
         \<and> sub_text 10 1 s = '' '' \<and> sub_text 19 1 s = '' ''
      then case (asctime_day s, map_of HTTP_MONTH_INDEX (sub_text 4 3 s), four_digits 20 s, clock_text 11 s) of
          (Some d, Some mon, Some y, Some (h, m, sec)) \<Rightarrow>
            Some \<lparr>hd_day = d, hd_month = mon, hd_year = y, hd_hour = h, hd_minute = m, hd_second = sec\<rparr>
        | _ \<Rightarrow> None
      else None)"

text \<open>The day number of the first of a month (\<open>month\<close> from 0), inverse of \<open>civil\<close>.\<close>

definition month_start :: "int \<Rightarrow> int \<Rightarrow> int" where
  "month_start year month =
     (let y = (if month \<le> 1 then year - 1 else year); era = y div 400; yoe = y mod 400;
          mp = (if month \<le> 1 then month + 10 else month - 2);
          doy = (153 * mp + 2) div 5
      in era * 146097 + yoe * 365 + yoe div 4 - yoe div 100 + doy - 719468)"

text \<open>\<open>None\<close> is \<open>NaN\<close>.  The \<open>Date\<close> rolls a day past the end of its month over, which the code
  detects by reading the fields back.\<close>

definition utcTimestamp :: "int \<Rightarrow> int \<Rightarrow> int \<Rightarrow> int \<Rightarrow> int \<Rightarrow> int \<Rightarrow> int option" where
  "utcTimestamp year month day hour minute second =
     (let ordinarySecond = min second 59;
          date = month_start year month + (day - 1);
          timestamp = date * DAY_MS + hour * 3600000 + minute * 60000 + ordinarySecond * 1000
      in if civil date \<noteq> (year, month + 1, day) then None
         else Some (timestamp + (if second = 60 then 1000 else 0)))"

definition parseHttpTimestamp :: "http_date \<Rightarrow> int option" where
  "parseHttpTimestamp d =
     (if hd_day d < 1 \<or> hd_day d > 31 \<or> hd_hour d > 23 \<or> hd_minute d > 59 \<or> hd_second d > 60 then None
      else utcTimestamp (hd_year d) (hd_month d) (hd_day d) (hd_hour d) (hd_minute d) (hd_second d))"

text \<open>The instant fifty years after \<open>now\<close>: the same month, day and time of day, the 29th of February
  rolling over to March.\<close>

definition fifty_years_ahead :: "int \<Rightarrow> int" where
  "fifty_years_ahead now = (case civil (now div DAY_MS) of (y, m, d) \<Rightarrow>
     (month_start (y + 50) (m - 1) + (d - 1)) * DAY_MS + now mod DAY_MS)"

definition parseRfc850Timestamp :: "http_date \<Rightarrow> int \<Rightarrow> int option" where
  "parseRfc850Timestamp d now =
     (let year = fst (civil (now div DAY_MS)) div 100 * 100 + hd_year d;
          timestamp = parseHttpTimestamp (d\<lparr>hd_year := year\<rparr>) in
      case timestamp of
        Some t \<Rightarrow> if t > fifty_years_ahead now then parseHttpTimestamp (d\<lparr>hd_year := year - 100\<rparr>) else Some t
      | None \<Rightarrow> None)"

text \<open>A digit text stands for a number that rounds to infinity from \<open>2 ^ 1024 - 2 ^ 970\<close> on; above
  \<open>2 ^ 53\<close> the product with 1000 is cut off anyway, so rounding does not show.\<close>

definition parseRetryAfter :: "string option \<Rightarrow> int \<Rightarrow> int option" where
  "parseRetryAfter value now =
     (case value of None \<Rightarrow> None
      | Some v \<Rightarrow>
         (let s = js_trim v in
          if s = [] then None
          else if list_all is_digit s then
            (if digits_val s \<ge> 2 ^ 1024 - 2 ^ 970 then None
             else Some (min (digits_val s * 1000) MAX_SAFE_INTEGER))
          else
            (let timestamp =
               (case imfFixdate s of
                  Some d \<Rightarrow> parseHttpTimestamp d
                | None \<Rightarrow>
                   (case rfc850Date s of
                      Some d \<Rightarrow> parseRfc850Timestamp d now
                    | None \<Rightarrow> (case asctimeDate s of Some d \<Rightarrow> parseHttpTimestamp d | None \<Rightarrow> None)))
             in case timestamp of None \<Rightarrow> None | Some t \<Rightarrow> Some (max 0 (t - now)))))"

section \<open>One POST\<close>

datatype http_body = BodyUnreadable | BodyEmpty | BodyNotJson | BodyJson json

record http_reply =
  hr_status :: int
  hr_retryAfter :: "string option"
  hr_body :: http_body
  hr_now :: int

datatype transport = Unreachable | Answer http_reply

datatype request_failure = NoConnection | ReadFailed | ReplyNotJson | HttpRefused

record request_error =
  re_failure :: request_failure
  re_retryable :: bool
  re_retryAfterMs :: "int option"
  re_httpStatus :: "int option"

definition response_ok :: "int \<Rightarrow> bool" where
  "response_ok status \<longleftrightarrow> 200 \<le> status \<and> status \<le> 299"

definition retryableHttpStatus :: "int \<Rightarrow> bool" where
  "retryableHttpStatus status \<longleftrightarrow>
     status = 408 \<or> status = 425 \<or> status = 429 \<or> (status \<ge> 500 \<and> status \<le> 599)"

definition postOnce :: "transport \<Rightarrow> request_error + json" where
  "postOnce tr =
     (case tr of
        Unreachable \<Rightarrow> Inl \<lparr>re_failure = NoConnection, re_retryable = True,
          re_retryAfterMs = None, re_httpStatus = None\<rparr>
      | Answer r \<Rightarrow>
         (let status = hr_status r;
              retryAfterMs = (if retryableHttpStatus status
                then parseRetryAfter (hr_retryAfter r) (hr_now r) else None);
              refuse = (\<lambda>f b. Inl \<lparr>re_failure = f, re_retryable = b,
                re_retryAfterMs = retryAfterMs, re_httpStatus = Some status\<rparr>);
              finish = (\<lambda>parsed. if \<not> response_ok status
                then refuse HttpRefused (retryableHttpStatus status) else Inr parsed) in
          case hr_body r of
            BodyUnreadable \<Rightarrow> refuse ReadFailed (response_ok status \<or> retryableHttpStatus status)
          | BodyNotJson \<Rightarrow> refuse ReplyNotJson (response_ok status \<or> retryableHttpStatus status)
          | BodyEmpty \<Rightarrow> finish JNull
          | BodyJson j \<Rightarrow> finish j))"

section \<open>The reserve response\<close>

definition isNonNegativeNumber :: "json option \<Rightarrow> rat option" where
  "isNonNegativeNumber v =
     (case v of Some (JNum (Fin q)) \<Rightarrow> if 0 \<le> q then Some q else None | _ \<Rightarrow> None)"

definition text_value :: "json option \<Rightarrow> string option" where
  "text_value v = (case v of Some (JStr s) \<Rightarrow> Some s | _ \<Rightarrow> None)"

definition bool_value :: "json option \<Rightarrow> bool option" where
  "bool_value v = (case v of Some (JBool b) \<Rightarrow> Some b | _ \<Rightarrow> None)"

definition isSpendStatus :: "json option \<Rightarrow> spend_status option" where
  "isSpendStatus v = (case text_value v of None \<Rightarrow> None
     | Some s \<Rightarrow> map_of [(''reserved'', Reserved), (''settled'', Settled), (''failed'', Failed),
         (''released'', Released), (''denied'', Denied)] s)"

definition isBudgetAction :: "json option \<Rightarrow> budget_action option" where
  "isBudgetAction v = (case text_value v of None \<Rightarrow> None
     | Some s \<Rightarrow> map_of [(''pause'', Pause), (''downgrade'', Downgrade), (''ask'', Ask)] s)"

record client_budget =
  cb_day :: string
  cb_globalCapUsd :: rat
  cb_globalExposureUsd :: rat
  cb_remainingUsd :: rat
  cb_agentCapUsd :: "rat option"
  cb_agentExposureUsd :: "rat option"

record client_reservation =
  cr_id :: string
  cr_requestKey :: string
  cr_day :: string
  cr_reservedUsd :: rat
  cr_replay :: bool

record reserve_reply =
  rr_allowed :: bool
  rr_status :: spend_status
  rr_action :: budget_action
  rr_reason :: "string option"
  rr_replayBlocked :: "bool option"
  rr_reservation :: "client_reservation option"
  rr_budget :: client_budget

datatype reply_error = ReplyEmpty | NoBudget | BudgetInvalid | ReplyIncompatible | NoReservation
  | ReservationInvalid | ReplyContradictory

definition is_object :: "json \<Rightarrow> bool" where
  "is_object j = (case j of JObj _ \<Rightarrow> True | JArr _ \<Rightarrow> True | _ \<Rightarrow> False)"

definition parseBudget :: "json option \<Rightarrow> reply_error + client_budget" where
  "parseBudget v =
     (case v of None \<Rightarrow> Inl NoBudget
      | Some raw \<Rightarrow>
         if \<not> is_object raw then Inl NoBudget
         else
          (case (text_value (get_prop raw ''day''), isNonNegativeNumber (get_prop raw ''globalCapUsd''),
              isNonNegativeNumber (get_prop raw ''globalExposureUsd''),
              isNonNegativeNumber (get_prop raw ''remainingUsd'')) of
             (Some day, Some cap, Some used, Some left) \<Rightarrow>
               Inr \<lparr>cb_day = day, cb_globalCapUsd = cap, cb_globalExposureUsd = used,
                 cb_remainingUsd = left,
                 cb_agentCapUsd = isNonNegativeNumber (get_prop raw ''agentCapUsd''),
                 cb_agentExposureUsd = isNonNegativeNumber (get_prop raw ''agentExposureUsd'')\<rparr>
           | _ \<Rightarrow> Inl BudgetInvalid))"

definition parseReservation :: "json \<Rightarrow> reply_error + client_reservation" where
  "parseReservation raw =
     (if \<not> is_object raw then Inl NoReservation
      else
       (case (text_value (get_prop raw ''id''), text_value (get_prop raw ''requestKey''),
           text_value (get_prop raw ''day''), isNonNegativeNumber (get_prop raw ''reservedUsd''),
           bool_value (get_prop raw ''replay'')) of
          (Some i, Some key, Some day, Some usd, Some rep) \<Rightarrow>
            Inr \<lparr>cr_id = i, cr_requestKey = key, cr_day = day, cr_reservedUsd = usd, cr_replay = rep\<rparr>
        | _ \<Rightarrow> Inl ReservationInvalid))"

text \<open>The consistency of the parts: a grant carries a reservation of the request key on the day of the
  budget, a refusal carries none.\<close>

definition allowedShapeIsValid :: "string \<Rightarrow> reserve_reply \<Rightarrow> bool" where
  "allowedShapeIsValid expectedRequestKey r \<longleftrightarrow>
     rr_allowed r \<and> rr_status r = Reserved \<and> rr_replayBlocked r \<noteq> Some True
     \<and> (case rr_reservation r of None \<Rightarrow> False
        | Some rs \<Rightarrow> cr_requestKey rs = expectedRequestKey \<and> cr_day rs = cb_day (rr_budget r))"

definition deniedShapeIsValid :: "reserve_reply \<Rightarrow> bool" where
  "deniedShapeIsValid r \<longleftrightarrow> \<not> rr_allowed r \<and> rr_reservation r = None
     \<and> (rr_replayBlocked r = Some True \<or> rr_status r = Denied)"

definition parseReserveResponse :: "json \<Rightarrow> string \<Rightarrow> reply_error + reserve_reply" where
  "parseReserveResponse raw expectedRequestKey =
     (if \<not> is_object raw then Inl ReplyEmpty
      else
        rbind (parseBudget (get_prop raw ''budget'')) (\<lambda>budget.
        case (bool_value (get_prop raw ''allowed''), isSpendStatus (get_prop raw ''status''),
            isBudgetAction (get_prop raw ''action'')) of
          (Some allowed, Some status, Some action) \<Rightarrow>
           if get_prop raw ''replayBlocked'' \<noteq> None \<and> bool_value (get_prop raw ''replayBlocked'') = None
           then Inl ReplyIncompatible
           else
             rbind (case get_prop raw ''reservation'' of None \<Rightarrow> Inr None
                    | Some v \<Rightarrow> rbind (parseReservation v) (\<lambda>r. Inr (Some r))) (\<lambda>reservation.
             (let r = \<lparr>rr_allowed = allowed, rr_status = status, rr_action = action,
                rr_reason = text_value (get_prop raw ''reason''),
                rr_replayBlocked = bool_value (get_prop raw ''replayBlocked''),
                rr_reservation = reservation, rr_budget = budget\<rparr> in
              if \<not> allowedShapeIsValid expectedRequestKey r \<and> \<not> deniedShapeIsValid r
              then Inl ReplyContradictory else Inr r))
        | _ \<Rightarrow> Inl ReplyIncompatible))"

section \<open>The client\<close>

datatype client_error =
    BudgetDenied budget_action "string option" client_budget
  | ReplayBlocked string
  | RequestFailed request_error
  | BadReply reply_error
  | NotSerializable
  | CloseFailed bool "int option"

definition is_unavailable :: "client_error \<Rightarrow> bool" where
  "is_unavailable e = (case e of BudgetDenied _ _ _ \<Rightarrow> False | ReplayBlocked _ \<Rightarrow> False | _ \<Rightarrow> True)"

definition isLlmLedgerBlockingError :: "client_error \<Rightarrow> bool" where
  "isLlmLedgerBlockingError e =
     (is_unavailable e \<or> (case e of BudgetDenied _ _ _ \<Rightarrow> True | ReplayBlocked _ \<Rightarrow> True | _ \<Rightarrow> False))"

record client =
  cl_closeRetryAttempts :: nat
  cl_closeRetryBaseDelayMs :: int

record client_run =
  run_net :: "nat \<Rightarrow> transport"
  run_waitOk :: "nat \<Rightarrow> bool"
  run_posts :: "(string \<times> json) list"
  run_waits :: "int list"

definition boundedInteger :: "jsnum option \<Rightarrow> int \<Rightarrow> int \<Rightarrow> int \<Rightarrow> int" where
  "boundedInteger value fallback minimum maximum =
     (case value of
        Some (Fin q) \<Rightarrow> if q = of_int \<lfloor>q\<rfloor> then min (max \<lfloor>q\<rfloor> minimum) maximum else fallback
      | _ \<Rightarrow> fallback)"

definition make_client :: "jsnum option \<Rightarrow> jsnum option \<Rightarrow> client" where
  "make_client attempts baseDelay =
     \<lparr>cl_closeRetryAttempts = nat (boundedInteger attempts 3 1 5),
      cl_closeRetryBaseDelayMs = boundedInteger baseDelay 100 0 1000\<rparr>"

definition MAX_CLOSE_RETRY_DELAY_MS :: int where
  "MAX_CLOSE_RETRY_DELAY_MS = 2000"

definition send :: "string \<Rightarrow> json \<Rightarrow> client_run \<Rightarrow> (request_error + json) \<times> client_run" where
  "send path body w = (postOnce (run_net w (length (run_posts w))),
     w\<lparr>run_posts := run_posts w @ [(path, body)]\<rparr>)"

definition closeError :: "request_error \<Rightarrow> client_error" where
  "closeError e = CloseFailed
     (re_retryable e \<or> re_httpStatus e = Some 401 \<or> re_httpStatus e = Some 403) (re_httpStatus e)"

text \<open>The loop of \<open>close\<close>: \<open>attempt\<close> counts from 1, \<open>left\<close> is the number of attempts not yet made.\<close>

fun closeLoop ::
  "client \<Rightarrow> string \<Rightarrow> json \<Rightarrow> nat \<Rightarrow> nat \<Rightarrow> client_run \<Rightarrow> (client_error + json) \<times> client_run" where
  "closeLoop c path body attempt 0 w = (Inl (CloseFailed True None), w)"
| "closeLoop c path body attempt (Suc left) w =
     (case send path body w of
        (Inr j, w1) \<Rightarrow> (Inr j, w1)
      | (Inl e, w1) \<Rightarrow>
          if \<not> re_retryable e \<or> left = 0 then (Inl (closeError e), w1)
          else
            (let backoff = cl_closeRetryBaseDelayMs c * 2 ^ (attempt - 1);
                 delayMs = min (max backoff (case re_retryAfterMs e of None \<Rightarrow> 0 | Some m \<Rightarrow> m))
                   MAX_CLOSE_RETRY_DELAY_MS;
                 w2 = w1\<lparr>run_waits := run_waits w1 @ [delayMs]\<rparr> in
             if run_waitOk w1 (length (run_waits w1)) then closeLoop c path body (attempt + 1) left w2
             else (Inl (CloseFailed True None), w2)))"

definition close ::
  "client \<Rightarrow> string \<Rightarrow> json option \<Rightarrow> client_run \<Rightarrow> (client_error + json) \<times> client_run" where
  "close c path body w =
     (case body of None \<Rightarrow> (Inl (CloseFailed False None), w)
      | Some b \<Rightarrow> closeLoop c path b 1 (cl_closeRetryAttempts c) w)"

section \<open>The operations\<close>

text \<open>\<open>encodeURIComponent\<close> on characters below 256: the unreserved ones stay, the others are the
  percent-encoded bytes of their UTF-8 form.\<close>

definition uri_unreserved :: "char \<Rightarrow> bool" where
  "uri_unreserved ch = (let n = (of_char ch :: int) in
     is_digit ch \<or> (65 \<le> n \<and> n \<le> 90) \<or> (97 \<le> n \<and> n \<le> 122) \<or> ch \<in> set ''-_.!~*()'' \<or> n = 39)"

definition hex_byte :: "int \<Rightarrow> string" where
  "hex_byte n = CHR ''%'' # [''0123456789ABCDEF'' ! nat (n div 16), ''0123456789ABCDEF'' ! nat (n mod 16)]"

definition encodeURIComponent :: "string \<Rightarrow> string" where
  "encodeURIComponent s = concat (map (\<lambda>ch. let n = (of_char ch :: int) in
     if uri_unreserved ch then [ch]
     else if n < 128 then hex_byte n
     else hex_byte (192 + n div 64) @ hex_byte (128 + n mod 64)) s)"

definition RESERVE_PATH :: string where
  "RESERVE_PATH = ''/llm-ledger/reservations''"

text \<open>A reserve request as its JSON body; \<open>None\<close> when it cannot be serialized.\<close>

definition reserveOutcome ::
  "string \<Rightarrow> json \<Rightarrow> client_error + client_reservation \<times> client_budget" where
  "reserveOutcome requestKey reply =
     (case parseReserveResponse reply requestKey of
        Inl e \<Rightarrow> Inl (BadReply e)
      | Inr r \<Rightarrow>
         if rr_replayBlocked r = Some True then Inl (ReplayBlocked requestKey)
         else (case (rr_allowed r, rr_reservation r) of
            (True, Some rs) \<Rightarrow> Inr (rs, rr_budget r)
          | _ \<Rightarrow> Inl (BudgetDenied (rr_action r) (rr_reason r) (rr_budget r))))"

definition client_reserve ::
  "string \<Rightarrow> json option \<Rightarrow> client_run \<Rightarrow> (client_error + client_reservation \<times> client_budget) \<times> client_run" where
  "client_reserve requestKey body w =
     (case body of None \<Rightarrow> (Inl NotSerializable, w)
      | Some b \<Rightarrow>
         (case send RESERVE_PATH b w of
            (Inl e, w1) \<Rightarrow> (Inl (RequestFailed e), w1)
          | (Inr reply, w1) \<Rightarrow> (reserveOutcome requestKey reply, w1)))"

definition client_settle ::
  "client \<Rightarrow> string \<Rightarrow> json option \<Rightarrow> client_run \<Rightarrow> (client_error + json) \<times> client_run" where
  "client_settle c i request w =
     close c (''/llm-ledger/reservations/'' @ encodeURIComponent i @ ''/settle'') request w"

text \<open>\<open>{ ...request, outcome: request.outcome ?? "unknown" }\<close>.\<close>

definition fail_body :: "(string \<times> json) list \<Rightarrow> json" where
  "fail_body request = JObj (obj_put ''outcome'' (case map_of request ''outcome'' of
     None \<Rightarrow> JStr ''unknown'' | Some JNull \<Rightarrow> JStr ''unknown'' | Some v \<Rightarrow> v) request)"

definition client_fail ::
  "client \<Rightarrow> string \<Rightarrow> (string \<times> json) list \<Rightarrow> client_run \<Rightarrow> (client_error + json) \<times> client_run" where
  "client_fail c i request w = client_settle c i (Some (fail_body request)) w"

definition client_release ::
  "client \<Rightarrow> string \<Rightarrow> string \<Rightarrow> client_run \<Rightarrow> (client_error + json) \<times> client_run" where
  "client_release c i reason w =
     close c (''/llm-ledger/reservations/'' @ encodeURIComponent i @ ''/release'')
       (Some (JObj [(''reason'', JStr reason)])) w"

definition client_recover ::
  "client \<Rightarrow> string \<Rightarrow> client_run \<Rightarrow> (client_error + unit) \<times> client_run" where
  "client_recover c requestKey w =
     (case close c ''/llm-ledger/reservations/recover-pre-dispatch''
        (Some (JObj [(''requestKey'', JStr requestKey)])) w of
        (Inl e, w1) \<Rightarrow> (Inl e, w1)
      | (Inr reply, w1) \<Rightarrow>
          ((case reply of
             JObj _ \<Rightarrow>
               (case text_value (get_prop reply ''status'') of
                  None \<Rightarrow> Inl (CloseFailed True None)
                | Some s \<Rightarrow>
                    if s = ''missing'' then Inl (CloseFailed True None)
                    else if isSpendStatus (get_prop reply ''status'') = None
                      then Inl (CloseFailed True None)
                    else Inr ())
           | _ \<Rightarrow> Inl (CloseFailed True None)), w1))"

section \<open>What a client run does\<close>

lemma send_run:
  "send path body w = (r, w1) \<Longrightarrow>
    r = postOnce (run_net w (length (run_posts w))) \<and> run_posts w1 = run_posts w @ [(path, body)]
    \<and> run_waits w1 = run_waits w \<and> run_net w1 = run_net w \<and> run_waitOk w1 = run_waitOk w"
  by (auto simp: send_def)

text \<open>The outcome of the last POST of a run.\<close>

definition last_outcome :: "client_run \<Rightarrow> request_error + json" where
  "last_outcome w = postOnce (run_net w (length (run_posts w) - 1))"

text \<open>The delays the loop may make, and the end of the loop.\<close>

lemma closeLoop_run:
  assumes "closeLoop c path body attempt left w = (r, w')" "0 \<le> cl_closeRetryBaseDelayMs c" "0 < left"
  shows "\<exists>n ds. 1 \<le> n \<and> n \<le> left \<and> run_posts w' = run_posts w @ replicate n (path, body)
    \<and> run_waits w' = run_waits w @ ds \<and> length ds \<le> left - 1
    \<and> (\<forall>d \<in> set ds. 0 \<le> d \<and> d \<le> MAX_CLOSE_RETRY_DELAY_MS) \<and> run_net w' = run_net w
    \<and> (case r of Inr j \<Rightarrow> last_outcome w' = Inr j
       | Inl e \<Rightarrow> \<exists>re. last_outcome w' = Inl re \<and> (e = closeError re \<or> re_retryable re \<and> e = CloseFailed True None))"
  using assms
proof (induction left arbitrary: attempt w)
  case 0
  then show ?case by simp
next
  case (Suc left)
  obtain s w1 where sent: "send path body w = (s, w1)" by (cases "send path body w")
  from send_run [OF sent] have run: "s = postOnce (run_net w (length (run_posts w)))"
    "run_posts w1 = run_posts w @ [(path, body)]" "run_waits w1 = run_waits w" "run_net w1 = run_net w"
    by auto
  then have last1: "last_outcome w1 = s" by (simp add: last_outcome_def)
  show ?case
  proof (cases "\<exists>e. s = Inl e \<and> re_retryable e \<and> left \<noteq> 0")
    case False
    with Suc.prems sent have "w' = w1" "case s of Inr j \<Rightarrow> r = Inr j | Inl e \<Rightarrow> r = Inl (closeError e)"
      by (auto split: sum.splits if_splits)
    with run last1 show ?thesis
      by (intro exI [of _ 1] exI [of _ "[]"]) (auto split: sum.splits)
  next
    case True
    then obtain e where e: "s = Inl e" "re_retryable e" "0 < left" by auto
    let ?d = "min (max (cl_closeRetryBaseDelayMs c * 2 ^ (attempt - 1))
      (case re_retryAfterMs e of None \<Rightarrow> 0 | Some m \<Rightarrow> m)) MAX_CLOSE_RETRY_DELAY_MS"
    let ?w2 = "w1\<lparr>run_waits := run_waits w1 @ [?d]\<rparr>"
    have d: "0 \<le> ?d" "?d \<le> MAX_CLOSE_RETRY_DELAY_MS"
      using Suc.prems(2) by (auto simp: MAX_CLOSE_RETRY_DELAY_MS_def le_max_iff_disj)
    show ?thesis
    proof (cases "run_waitOk w1 (length (run_waits w1))")
      case False
      with Suc.prems(1) sent e have "w' = ?w2" "r = Inl (CloseFailed True None)" by (auto simp: Let_def)
      moreover have "postOnce (run_net w (length (run_posts w))) = Inl e" using run(1) e(1) by simp
      ultimately show ?thesis using run(2-4) e(2,3) d
        by (intro exI [of _ 1] exI [of _ "[?d]"]) (simp add: last_outcome_def)
    next
      case True
      with Suc.prems(1) sent e have "closeLoop c path body (attempt + 1) left ?w2 = (r, w')"
        by (simp add: Let_def)
      from Suc.IH [OF this Suc.prems(2) e(3)] obtain n ds where
        "1 \<le> n" "n \<le> left" "run_posts w' = run_posts ?w2 @ replicate n (path, body)"
        "run_waits w' = run_waits ?w2 @ ds" "length ds \<le> left - 1"
        "\<forall>d \<in> set ds. 0 \<le> d \<and> d \<le> MAX_CLOSE_RETRY_DELAY_MS" "run_net w' = run_net ?w2"
        and "(case r of Inr j \<Rightarrow> last_outcome w' = Inr j
          | Inl e \<Rightarrow> \<exists>re. last_outcome w' = Inl re \<and> (e = closeError re \<or> re_retryable re \<and> e = CloseFailed True None))"
        by blast
      with run d e(3) show ?thesis
        by (intro exI [of _ "Suc n"] exI [of _ "?d # ds"]) auto
    qed
  qed
qed

lemma make_client_bounds:
  "1 \<le> cl_closeRetryAttempts (make_client a b) \<and> cl_closeRetryAttempts (make_client a b) \<le> 5
    \<and> 0 \<le> cl_closeRetryBaseDelayMs (make_client a b)"
  by (auto simp: make_client_def boundedInteger_def split: option.split jsnum.split)

lemma closeError_terminal:
  assumes "postOnce tr = Inl e" "closeError e = CloseFailed False st"
  shows "\<exists>r. tr = Answer r \<and> st = Some (hr_status r) \<and> \<not> response_ok (hr_status r)
    \<and> hr_status r \<notin> {401, 403, 408, 425, 429} \<and> \<not> (500 \<le> hr_status r \<and> hr_status r \<le> 599)"
  using assms
  by (auto simp: postOnce_def closeError_def Let_def retryableHttpStatus_def
      split: transport.splits http_body.splits if_splits)

section \<open>Properties\<close>


definition sample_run :: client_run where
  "sample_run = \<lparr>run_net = (\<lambda>n. if n = 0 then Unreachable else Answer \<lparr>hr_status = 404,
     hr_retryAfter = None, hr_body = BodyEmpty, hr_now = 0\<rparr>), run_waitOk = (\<lambda>_. True),
     run_posts = [], run_waits = []\<rparr>"


lemma parseReserveResponse_shape:
  assumes "parseReserveResponse j key = Inr r"
  shows "(allowedShapeIsValid key r \<or> deniedShapeIsValid r)
    \<and> bool_value (get_prop j ''allowed'') = Some (rr_allowed r)
    \<and> isSpendStatus (get_prop j ''status'') = Some (rr_status r)"
proof -
  obtain budget allowed status action where parts: "is_object j"
    "parseBudget (get_prop j ''budget'') = Inr budget" "bool_value (get_prop j ''allowed'') = Some allowed"
    "isSpendStatus (get_prop j ''status'') = Some status" "isBudgetAction (get_prop j ''action'') = Some action"
  proof -
    obtain budget where "is_object j" "parseBudget (get_prop j ''budget'') = Inr budget"
      using assms unfolding parseReserveResponse_def
      by (cases "is_object j"; cases "parseBudget (get_prop j ''budget'')") simp_all
    moreover from this assms have "bool_value (get_prop j ''allowed'') \<noteq> None"
      "isSpendStatus (get_prop j ''status'') \<noteq> None" "isBudgetAction (get_prop j ''action'') \<noteq> None"
      unfolding parseReserveResponse_def by (auto split: option.split_asm)
    ultimately show ?thesis using that by auto
  qed
  with assms show ?thesis unfolding parseReserveResponse_def
    by (auto simp: rbind_eq_Inr Let_def split: if_split_asm)
qed

lemma parseReserveResponse_granted:
  assumes "parseReserveResponse j key = Inr r" "rr_reservation r = Some rs"
  shows "cr_requestKey rs = key \<and> cr_day rs = cb_day (rr_budget r)
    \<and> bool_value (get_prop j ''allowed'') = Some True \<and> isSpendStatus (get_prop j ''status'') = Some Reserved"
  using parseReserveResponse_shape [OF assms(1)] assms(2)
  by (auto simp: allowedShapeIsValid_def deniedShapeIsValid_def)

lemma reserveOutcome_granted:
  assumes "reserveOutcome key j = Inr (rs, bd)"
  shows "cr_requestKey rs = key \<and> cr_day rs = cb_day bd
    \<and> bool_value (get_prop j ''allowed'') = Some True \<and> isSpendStatus (get_prop j ''status'') = Some Reserved"
proof -
  obtain r where r: "parseReserveResponse j key = Inr r"
    using assms by (cases "parseReserveResponse j key") (simp_all add: reserveOutcome_def)
  then have "rr_reservation r = Some rs" "bd = rr_budget r"
    using assms by (auto simp: reserveOutcome_def split: if_splits option.splits bool.splits)
  with parseReserveResponse_granted [OF r] show ?thesis by blast
qed

lemma reserveOutcome_blocking: "reserveOutcome key j = Inl e \<Longrightarrow> isLlmLedgerBlockingError e"
  by (auto simp: reserveOutcome_def isLlmLedgerBlockingError_def is_unavailable_def
      split: sum.splits if_splits option.splits bool.splits)

text \<open>A reserve makes at most one POST, and a reservation it returns is one that Core granted for
  this very request key on the day of the budget it reports.\<close>
theorem reserve_posts_once:
  "case client_reserve key body w of (r, w') \<Rightarrow>
     run_posts w' = run_posts w @ (case body of None \<Rightarrow> [] | Some b \<Rightarrow> [(RESERVE_PATH, b)])
     \<and> run_waits w' = run_waits w
     \<and> (case r of Inl e \<Rightarrow> isLlmLedgerBlockingError e
        | Inr (rs, bd) \<Rightarrow> cr_requestKey rs = key \<and> cr_day rs = cb_day bd
            \<and> (\<exists>j. postOnce (run_net w (length (run_posts w))) = Inr j
                \<and> bool_value (get_prop j ''allowed'') = Some True
                \<and> isSpendStatus (get_prop j ''status'') = Some Reserved))"
proof (cases body)
  case None
  then show ?thesis by (simp add: client_reserve_def isLlmLedgerBlockingError_def is_unavailable_def)
next
  case (Some b)
  obtain s w1 where sent: "send RESERVE_PATH b w = (s, w1)" by (cases "send RESERVE_PATH b w")
  note run = send_run [OF sent]
  show ?thesis
  proof (cases s)
    case (Inl e)
    have "client_reserve key body w = (Inl (RequestFailed e), w1)"
      using Some sent Inl by (simp add: client_reserve_def)
    with Some run show ?thesis by (simp add: isLlmLedgerBlockingError_def is_unavailable_def)
  next
    case (Inr j)
    have c: "client_reserve key body w = (reserveOutcome key j, w1)"
      using Some sent Inr by (simp add: client_reserve_def)
    have post: "postOnce (run_net w (length (run_posts w))) = Inr j" using run Inr by simp
    show ?thesis
    proof (cases "reserveOutcome key j")
      case (Inl e)
      with c Some run reserveOutcome_blocking [OF Inl] show ?thesis by simp
    next
      case (Inr g)
      obtain rs bd where g: "g = (rs, bd)" by (cases g)
      from c Some run post reserveOutcome_granted [OF Inr [unfolded g]] show ?thesis
        by (simp add: Inr g)
    qed
  qed
qed

end
