(* ===== verification/OutboxSpool.thy ===== *)
theory OutboxSpool
  imports LedgerClient "HOL-Library.AList"
begin

text \<open>
  The durable spool of \<^verbatim>\<open>packages/llm-ledger-outbox/src/index.ts\<close>: its records, the validation of a
  file, and the file-system actions its operations are made of.

  A spool is the list of its files in directory order; a path is the producer directory, the state
  directory and the name.  A file that does not parse as a record is \<open>Garbage\<close>.  SHA-256 over text
  and over canonical JSON, and the byte length of a record, are parameters of \<open>outbox_env\<close>.
  Instants are milliseconds (the ISO texts of the code are their print).  I/O failures are not
  represented; \<open>fsync\<close> has no effect on the content.

  An operation returns its result with the list of file-system actions it made, in order.  What a
  crash leaves behind is a prefix of that list, so properties are stated for every prefix.
\<close>

section \<open>Records\<close>

datatype record_kind = PreReserve | Fallback | Exact

datatype record_operation = RecoverPreDispatch | DoSettle | DoFail | DoRelease

datatype state_dir = Pending | Processing | DeadDir

datatype dead_category = AttemptsExhausted | Corrupt | ExactConflict | TerminalClose

record stored =
  rc_recordId :: string
  rc_kind :: record_kind
  rc_operation :: record_operation
  rc_createdAt :: int
  rc_updatedAt :: int
  rc_nextAttemptAt :: int
  rc_attempts :: int
  rc_requestKey :: "string option"
  rc_reservationId :: "string option"
  rc_payload :: "json option"

datatype dead =
    DeadRecord stored int dead_category "int option"
  | CorruptRecord string int

datatype file_text = RecordText stored string | DeadText dead string | Garbage

record spool_file =
  sf_text :: file_text
  sf_size :: int
  sf_mtime :: int

datatype file_name = Named string | Claimed string int string | OtherName string

datatype spool_path = Path (path_producer: string) (path_dir: state_dir) (path_name: file_name)

type_synonym spool = "(spool_path \<times> spool_file) list"

record outbox_env =
  oe_digest :: "string \<Rightarrow> string"
  oe_checksum :: "stored \<Rightarrow> string"
  oe_deadChecksum :: "dead \<Rightarrow> string"
  oe_size :: "stored \<Rightarrow> int"
  oe_deadSize :: "dead \<Rightarrow> int"
  oe_lock :: "string \<Rightarrow> bool"

datatype outbox_error = OutboxUnavailable | ExactConflictError | RecordBroken

definition MAX_RECORD_BYTES :: int where
  "MAX_RECORD_BYTES = 64 * 1024"

definition DEAD_METADATA_RESERVE_BYTES :: int where
  "DEAD_METADATA_RESERVE_BYTES = 1024"

definition FALLBACK_REASON :: string where
  "FALLBACK_REASON = ''settlement_outbox_fallback''"

section \<open>Validation\<close>

definition is_hex64 :: "string \<Rightarrow> bool" where
  "is_hex64 s \<longleftrightarrow> length s = 64 \<and> list_all (\<lambda>ch. ch \<in> set ''0123456789abcdef'') s"

definition isJsonObject :: "json \<Rightarrow> bool" where
  "isJsonObject j = (case j of JObj _ \<Rightarrow> True | _ \<Rightarrow> False)"

definition isValidExactPayload :: "record_operation \<Rightarrow> json \<Rightarrow> bool" where
  "isValidExactPayload oper p =
     (isJsonObject p \<and> (oper = DoRelease \<longrightarrow> text_value (get_prop p ''reason'') \<noteq> None))"

definition isFallbackPayload :: "json \<Rightarrow> bool" where
  "isFallbackPayload p \<longleftrightarrow>
     isJsonObject p \<and> get_prop p ''outcome'' = Some (JStr ''unknown'')
     \<and> get_prop p ''reason'' = Some (JStr FALLBACK_REASON) \<and> length (obj_of p) = 2"

definition isStoredRecord :: "stored \<Rightarrow> bool" where
  "isStoredRecord r \<longleftrightarrow>
     is_hex64 (rc_recordId r) \<and> 0 \<le> rc_attempts r
     \<and> (case rc_kind r of
          PreReserve \<Rightarrow> rc_operation r = RecoverPreDispatch
            \<and> (case rc_requestKey r of None \<Rightarrow> False | Some k \<Rightarrow> k \<noteq> [])
            \<and> rc_reservationId r = None \<and> rc_payload r = None
        | k \<Rightarrow> (case rc_reservationId r of None \<Rightarrow> False | Some i \<Rightarrow> i \<noteq> [])
            \<and> rc_requestKey r = None
            \<and> (case rc_payload r of None \<Rightarrow> False
               | Some p \<Rightarrow> if k = Fallback then rc_operation r = DoFail \<and> isFallbackPayload p
                   else rc_operation r \<noteq> RecoverPreDispatch \<and> isValidExactPayload (rc_operation r) p))"

fun isDeadRecord :: "dead \<Rightarrow> bool" where
  "isDeadRecord (CorruptRecord i t) = is_hex64 i"
| "isDeadRecord (DeadRecord src t cat status) =
     (cat \<noteq> Corrupt \<and> isStoredRecord src
      \<and> (case status of None \<Rightarrow> True | Some n \<Rightarrow> 100 \<le> n \<and> n \<le> 599))"

definition decodeStoredRecord :: "outbox_env \<Rightarrow> spool_file \<Rightarrow> outbox_error + stored" where
  "decodeStoredRecord E f =
     (if sf_size f > MAX_RECORD_BYTES then Inl RecordBroken
      else case sf_text f of
        RecordText r c \<Rightarrow>
          if \<not> isStoredRecord r then Inl RecordBroken
          else if c \<noteq> oe_checksum E r then Inl RecordBroken
          else Inr r
      | _ \<Rightarrow> Inl RecordBroken)"

definition decodeDeadRecord :: "outbox_env \<Rightarrow> spool_file \<Rightarrow> outbox_error + dead" where
  "decodeDeadRecord E f =
     (if sf_size f > MAX_RECORD_BYTES then Inl RecordBroken
      else case sf_text f of
        DeadText d c \<Rightarrow>
          if \<not> isDeadRecord d then Inl RecordBroken
          else if c \<noteq> oe_deadChecksum E d then Inl RecordBroken
          else Inr d
      | _ \<Rightarrow> Inl RecordBroken)"

text \<open>\<open>readStoredRecordIfExists\<close>: no file is no record, a broken file is an error.\<close>

definition readStored :: "outbox_env \<Rightarrow> spool_path \<Rightarrow> spool \<Rightarrow> outbox_error + stored option" where
  "readStored E p s = (case map_of s p of None \<Rightarrow> Inr None
     | Some f \<Rightarrow> rbind (decodeStoredRecord E f) (\<lambda>r. Inr (Some r)))"

definition readDead :: "outbox_env \<Rightarrow> spool_path \<Rightarrow> spool \<Rightarrow> outbox_error + dead option" where
  "readDead E p s = (case map_of s p of None \<Rightarrow> Inr None
     | Some f \<Rightarrow> rbind (decodeDeadRecord E f) (\<lambda>d. Inr (Some d)))"

section \<open>Intents and locks\<close>

definition sameExactIntent :: "stored \<Rightarrow> record_operation \<Rightarrow> json \<Rightarrow> bool" where
  "sameExactIntent r oper payload \<longleftrightarrow>
     rc_operation r = oper \<and> map_option canonical (rc_payload r) = Some (canonical payload)"

definition payload_or_null :: "stored \<Rightarrow> json" where
  "payload_or_null r = (case rc_payload r of None \<Rightarrow> JNull | Some p \<Rightarrow> p)"

definition sameStoredIntent :: "stored \<Rightarrow> stored \<Rightarrow> bool" where
  "sameStoredIntent l r \<longleftrightarrow>
     rc_recordId l = rc_recordId r \<and> rc_kind l = rc_kind r \<and> rc_operation l = rc_operation r
     \<and> rc_requestKey l = rc_requestKey r \<and> rc_reservationId l = rc_reservationId r
     \<and> canonical (payload_or_null l) = canonical (payload_or_null r)"

definition reservationLockKey :: "string \<Rightarrow> string" where
  "reservationLockKey i = ''reservation:'' @ i"

definition recordLockKey :: "string \<Rightarrow> string" where
  "recordLockKey i = ''record:'' @ i"

definition storedRecordLockKey :: "stored \<Rightarrow> string" where
  "storedRecordLockKey r = (case rc_reservationId r of None \<Rightarrow> recordLockKey (rc_recordId r)
     | Some i \<Rightarrow> reservationLockKey i)"

lemma sameStoredIntent_refl [simp, intro]: "sameStoredIntent r r"
  by (simp add: sameStoredIntent_def)

lemma sameStoredIntent_trans: "sameStoredIntent a b \<Longrightarrow> sameStoredIntent b c \<Longrightarrow> sameStoredIntent a c"
  by (simp add: sameStoredIntent_def)

lemma sameStoredIntent_sym: "sameStoredIntent a b \<Longrightarrow> sameStoredIntent b a"
  by (simp add: sameStoredIntent_def)

section \<open>Retry delays\<close>

record retry_configuration =
  rt_maxAttempts :: int
  rt_retryBaseDelayMs :: int
  rt_retryMaxDelayMs :: int

definition make_retry :: "jsnum option \<Rightarrow> jsnum option \<Rightarrow> jsnum option \<Rightarrow> retry_configuration" where
  "make_retry attempts base longest =
     \<lparr>rt_maxAttempts = boundedInteger attempts 32 1 1000,
      rt_retryBaseDelayMs = boundedInteger base 1000 1 (60 * 60000),
      rt_retryMaxDelayMs = boundedInteger longest (15 * 60000) 1 (24 * 60 * 60000)\<rparr>"

definition retryDelayMs :: "int \<Rightarrow> retry_configuration \<Rightarrow> int" where
  "retryDelayMs attempts cfg =
     (let exponent = min (max (attempts - 1) 0) 30 in
      min (rt_retryBaseDelayMs cfg * 2 ^ nat exponent) (rt_retryMaxDelayMs cfg))"

section \<open>File-system actions\<close>

datatype fs_action = Put spool_path spool_file | Remove spool_path | Move spool_path spool_path

fun perform :: "fs_action \<Rightarrow> spool \<Rightarrow> spool" where
  "perform (Put p f) s = AList.update p f s"
| "perform (Remove p) s = AList.delete p s"
| "perform (Move p q) s = (case map_of s p of None \<Rightarrow> s | Some f \<Rightarrow> AList.update q f (AList.delete p s))"

definition run_actions :: "fs_action list \<Rightarrow> spool \<Rightarrow> spool" where
  "run_actions as s = fold perform as s"

text \<open>Sequencing: an operation reads the spool and gives its result and the actions made.\<close>

type_synonym 'a fs_op = "spool \<Rightarrow> (outbox_error + 'a) \<times> fs_action list"

definition fs_return :: "'a \<Rightarrow> 'a fs_op" where
  "fs_return x s = (Inr x, [])"

definition fs_throw :: "outbox_error \<Rightarrow> 'a fs_op" where
  "fs_throw e s = (Inl e, [])"

definition fs_do :: "fs_action \<Rightarrow> unit fs_op" where
  "fs_do a s = (Inr (), [a])"

definition fs_bind :: "'a fs_op \<Rightarrow> ('a \<Rightarrow> 'b fs_op) \<Rightarrow> 'b fs_op" where
  "fs_bind m f s = (case m s of
     (Inl e, as) \<Rightarrow> (Inl e, as)
   | (Inr x, as) \<Rightarrow> (case f x (run_actions as s) of (r, bs) \<Rightarrow> (r, as @ bs)))"

definition fs_read :: "(spool \<Rightarrow> outbox_error + 'a) \<Rightarrow> 'a fs_op" where
  "fs_read q s = (q s, [])"

definition fs_result :: "'a fs_op \<Rightarrow> spool \<Rightarrow> outbox_error + 'a" where
  "fs_result m s = fst (m s)"

definition fs_final :: "'a fs_op \<Rightarrow> spool \<Rightarrow> spool" where
  "fs_final m s = run_actions (snd (m s)) s"

lemmas fs_defs = fs_return_def fs_throw_def fs_do_def fs_bind_def fs_read_def

lemma run_actions_simps [simp]:
  "run_actions [] s = s"
  "run_actions (a # as) s = run_actions as (perform a s)"
  "run_actions (as @ bs) s = run_actions bs (run_actions as s)"
  by (simp_all add: run_actions_def)

lemma map_of_perform [simp]:
  "map_of (perform (Put p f) s) = (map_of s)(p \<mapsto> f)"
  "map_of (perform (Remove p) s) = (map_of s)(p := None)"
  "map_of (perform (Move p q) s) =
     (case map_of s p of None \<Rightarrow> map_of s | Some f \<Rightarrow> (map_of s)(p := None, q \<mapsto> f))"
  by (simp_all add: update_conv' delete_conv' split: option.split)

declare perform.simps [simp del]

lemma fs_result_simps [simp]:
  "fs_result (fs_return x) s = Inr x"
  "fs_result (fs_throw e) s = Inl e"
  "fs_result (fs_do a) s = Inr ()"
  "fs_result (fs_read q) s = q s"
  "fs_result (fs_bind m f) s = (case fs_result m s of Inl e \<Rightarrow> Inl e | Inr x \<Rightarrow> fs_result (f x) (fs_final m s))"
  by (simp_all add: fs_result_def fs_final_def fs_defs split: prod.split sum.split)

lemma fs_final_simps [simp]:
  "fs_final (fs_return x) s = s"
  "fs_final (fs_throw e) s = s"
  "fs_final (fs_do a) s = perform a s"
  "fs_final (fs_read q) s = s"
  "fs_final (fs_bind m f) s = (case fs_result m s of Inl e \<Rightarrow> fs_final m s | Inr x \<Rightarrow> fs_final (f x) (fs_final m s))"
  by (simp_all add: fs_result_def fs_final_def fs_defs split: prod.split sum.split)

section \<open>Crashes\<close>

text \<open>A predicate holds after every prefix of the actions of an operation.\<close>

definition crash_safe :: "(spool \<Rightarrow> bool) \<Rightarrow> 'a fs_op \<Rightarrow> spool \<Rightarrow> bool" where
  "crash_safe P m s \<longleftrightarrow> (\<forall>n. P (run_actions (take n (snd (m s))) s))"

lemma crash_safe_start: "crash_safe P m s \<Longrightarrow> P s"
  unfolding crash_safe_def by (drule spec [of _ 0]) simp

lemma crash_safe_final: "crash_safe P m s \<Longrightarrow> P (fs_final m s)"
  unfolding crash_safe_def fs_final_def by (drule spec [of _ "length (snd (m s))"]) simp

lemma crash_safe_atoms [simp]:
  "crash_safe P (fs_return x) s \<longleftrightarrow> P s"
  "crash_safe P (fs_throw e) s \<longleftrightarrow> P s"
  "crash_safe P (fs_read q) s \<longleftrightarrow> P s"
  by (simp_all add: crash_safe_def fs_defs)

lemma crash_safe_do [simp]: "crash_safe P (fs_do a) s \<longleftrightarrow> P s \<and> P (perform a s)"
proof -
  have "P s \<Longrightarrow> P (perform a s) \<Longrightarrow> P (run_actions (take n [a]) s)" for n
    by (cases n) simp_all
  moreover have "P s \<and> P (perform a s)" if all: "\<forall>n. P (run_actions (take n [a]) s)"
    using all [rule_format, of 0] all [rule_format, of 1] by simp
  ultimately show ?thesis unfolding crash_safe_def fs_do_def by auto
qed

lemma crash_safe_bind:
  "crash_safe P (fs_bind m f) s \<longleftrightarrow>
     crash_safe P m s \<and> (\<forall>x. fs_result m s = Inr x \<longrightarrow> crash_safe P (f x) (fs_final m s))"
proof (cases "m s")
  case (Pair r as)
  show ?thesis
  proof (cases r)
    case (Inl e)
    with Pair show ?thesis by (simp add: crash_safe_def fs_bind_def fs_result_def)
  next
    case (Inr x)
    obtain r' bs where f: "f x (run_actions as s) = (r', bs)" by fastforce
    have "(\<forall>n. P (run_actions (take n (as @ bs)) s)) \<longleftrightarrow>
        (\<forall>n. P (run_actions (take n as) s)) \<and> (\<forall>n. P (run_actions (take n bs) (run_actions as s)))"
    proof (intro iffI conjI allI)
      fix n
      assume all: "\<forall>n. P (run_actions (take n (as @ bs)) s)"
      show "P (run_actions (take n as) s)"
        using all [rule_format, of "min n (length as)"] by (cases "n \<le> length as") simp_all
      show "P (run_actions (take n bs) (run_actions as s))"
        using all [rule_format, of "length as + n"] by simp
    next
      fix n
      assume both: "(\<forall>n. P (run_actions (take n as) s)) \<and> (\<forall>n. P (run_actions (take n bs) (run_actions as s)))"
      show "P (run_actions (take n (as @ bs)) s)"
        using both by (cases "n \<le> length as") simp_all
    qed
    with Pair Inr f show ?thesis
      by (simp add: crash_safe_def fs_bind_def fs_result_def fs_final_def)
  qed
qed

lemma crash_readI:
  "P s \<Longrightarrow> (\<And>x. q s = Inr x \<Longrightarrow> crash_safe P (f x) s) \<Longrightarrow> crash_safe P (fs_bind (fs_read q) f) s"
  by (simp add: crash_safe_bind)

lemma crash_safe_bind_read [simp]:
  "crash_safe P (fs_bind (fs_read q) f) s \<longleftrightarrow> P s \<and> (\<forall>x. q s = Inr x \<longrightarrow> crash_safe P (f x) s)"
  by (simp add: crash_safe_bind)

lemma crash_safe_bind_do [simp]:
  "crash_safe P (fs_bind (fs_do a) f) s \<longleftrightarrow> P s \<and> crash_safe P (f ()) (perform a s)"
  by (auto simp: crash_safe_bind dest: crash_safe_start)

lemma fs_bind_trivial [simp]:
  "fs_bind (fs_throw e) f = fs_throw e" "fs_bind (fs_return x) f = f x"
  by (simp_all add: fs_defs fun_eq_iff)

lemma crash_bindI:
  "crash_safe P m s \<Longrightarrow> (\<And>x. fs_result m s = Inr x \<Longrightarrow> P (fs_final m s) \<Longrightarrow> crash_safe P (f x) (fs_final m s))
    \<Longrightarrow> crash_safe P (fs_bind m f) s"
  by (auto simp: crash_safe_bind dest: crash_safe_final)

lemma crash_safe_bind_return [simp]: "crash_safe P (fs_bind m (\<lambda>x. fs_return (g x))) s = crash_safe P m s"
  by (auto simp: crash_safe_bind dest: crash_safe_final)

lemma crash_safe_conj: "crash_safe (\<lambda>t. P t \<and> Q t) m s \<longleftrightarrow> crash_safe P m s \<and> crash_safe Q m s"
  by (auto simp: crash_safe_def)

end
