(* ===== verification/Outbox.thy ===== *)
theory Outbox
  imports OutboxSpool
begin

text \<open>
  The operations of one producer on its spool, \<open>FileLlmSettlementOutbox\<close> of
  \<^verbatim>\<open>packages/llm-ledger-outbox/src/index.ts\<close>.  Each runs under its lock; \<open>oe_lock\<close> says whether the
  lock is obtained in time.  The clock reading of an operation is its argument \<open>now\<close>.
\<close>

record outbox =
  ob_producer :: string
  ob_fallbackDelayMs :: int
  ob_retry :: retry_configuration

definition producer_char :: "bool \<Rightarrow> char \<Rightarrow> bool" where
  "producer_char is_first ch = (let n = (of_char ch :: int) in
     is_digit ch \<or> (65 \<le> n \<and> n \<le> 90) \<or> (97 \<le> n \<and> n \<le> 122)
     \<or> (\<not> is_first \<and> ch \<in> set ''._-''))"

definition producer_ok :: "string \<Rightarrow> bool" where
  "producer_ok p = (case p of [] \<Rightarrow> False
     | ch # rest \<Rightarrow> producer_char True ch \<and> list_all (producer_char False) rest \<and> length rest \<le> 63)"

definition make_outbox ::
  "string \<Rightarrow> jsnum option \<Rightarrow> retry_configuration \<Rightarrow> outbox_error + outbox" where
  "make_outbox producer fallbackDelayMs retry =
     (if \<not> producer_ok producer then Inl OutboxUnavailable
      else Inr \<lparr>ob_producer = producer,
        ob_fallbackDelayMs = boundedInteger fallbackDelayMs (15 * 60000) 1000 (24 * 60 * 60000),
        ob_retry = retry\<rparr>)"

record settlement_handle =
  hn_recordId :: string
  hn_path :: spool_path
  hn_reservationId :: "string option"

section \<open>Writing and removing files\<close>

definition record_file :: "outbox_env \<Rightarrow> stored \<Rightarrow> int \<Rightarrow> spool_file" where
  "record_file E r now = \<lparr>sf_text = RecordText r (oe_checksum E r), sf_size = oe_size E r, sf_mtime = now\<rparr>"

definition dead_file :: "outbox_env \<Rightarrow> dead \<Rightarrow> int \<Rightarrow> spool_file" where
  "dead_file E d now = \<lparr>sf_text = DeadText d (oe_deadChecksum E d), sf_size = oe_deadSize E d, sf_mtime = now\<rparr>"

definition atomicWriteRecord :: "outbox_env \<Rightarrow> spool_path \<Rightarrow> stored \<Rightarrow> int \<Rightarrow> unit fs_op" where
  "atomicWriteRecord E p r now =
     (if oe_size E r > MAX_RECORD_BYTES - DEAD_METADATA_RESERVE_BYTES then fs_throw OutboxUnavailable
      else fs_do (Put p (record_file E r now)))"

definition atomicWriteDeadRecord :: "outbox_env \<Rightarrow> spool_path \<Rightarrow> dead \<Rightarrow> int \<Rightarrow> unit fs_op" where
  "atomicWriteDeadRecord E p d now =
     (if oe_deadSize E d > MAX_RECORD_BYTES then fs_throw OutboxUnavailable
      else fs_do (Put p (dead_file E d now)))"

function base36 :: "int \<Rightarrow> string" where
  "base36 n = (if n < 36 then [''0123456789abcdefghijklmnopqrstuvwxyz'' ! nat n]
     else base36 (n div 36) @ [''0123456789abcdefghijklmnopqrstuvwxyz'' ! nat (n mod 36)])"
  by pat_completeness auto
termination
  by (relation "measure nat") auto

declare base36.simps [simp del]

fun file_basename :: "file_name \<Rightarrow> string" where
  "file_basename (Named i) = i @ ''.json''"
| "file_basename (Claimed i t token) = i @ ''--claim-'' @ base36 t @ ''-'' @ token @ ''.json''"
| "file_basename (OtherName n) = n"

definition deadLetter ::
  "outbox_env \<Rightarrow> spool_path \<Rightarrow> stored option \<Rightarrow> dead_category \<Rightarrow> int \<Rightarrow> int option \<Rightarrow> unit fs_op" where
  "deadLetter E source rec cat now status =
     (if (rec = None) \<noteq> (cat = Corrupt) then fs_throw OutboxUnavailable
      else
        (let fallbackId = oe_digest E (''corrupt:'' @ file_basename (path_name source));
             deadRecord = (case rec of None \<Rightarrow> CorruptRecord fallbackId now
               | Some r \<Rightarrow> DeadRecord r now cat status);
             deadId = (case rec of None \<Rightarrow> fallbackId | Some r \<Rightarrow> rc_recordId r) in
         fs_bind (atomicWriteDeadRecord E (Path (path_producer source) DeadDir (Named deadId)) deadRecord now) (\<lambda>_.
         fs_do (Remove source))))"

section \<open>Looking for a reservation\<close>

text \<open>The entries of a directory whose name ends in \<open>.json\<close>; temporary files are passed over.\<close>

definition json_name :: "file_name \<Rightarrow> bool" where
  "json_name n = (case n of OtherName x \<Rightarrow> drop (length x - 5) x = ''.json'' | _ \<Rightarrow> True)"

lemma json_name_own [simp]: "json_name (Named i)" "json_name (Claimed i t u)"
  by (simp_all add: json_name_def)

lemma json_name_basename: "json_name n \<longleftrightarrow> (\<exists>x. file_basename n = x @ ''.json'')"
proof (cases n)
  case (OtherName y)
  have "drop (length y - 5) y = ''.json'' \<Longrightarrow> y = take (length y - 5) y @ ''.json''"
    by (metis append_take_drop_id)
  with OtherName show ?thesis by (auto simp: json_name_def)
next
  case (Claimed i t u)
  then show ?thesis by (simp add: append_assoc [symmetric] del: append_assoc)
qed simp

definition dir_entries :: "string \<Rightarrow> state_dir \<Rightarrow> spool \<Rightarrow> spool" where
  "dir_entries producer d s = filter (\<lambda>(p, f). path_producer p = producer \<and> path_dir p = d \<and> json_name (path_name p)) s"

fun scanActive :: "outbox_env \<Rightarrow> string \<Rightarrow> spool \<Rightarrow> outbox_error + (spool_path \<times> stored) option" where
  "scanActive E i [] = Inr None"
| "scanActive E i ((p, f) # es) =
     rbind (decodeStoredRecord E f) (\<lambda>r.
       if rc_reservationId r = Some i then Inr (Some (p, r)) else scanActive E i es)"

definition findActiveReservation ::
  "outbox_env \<Rightarrow> string \<Rightarrow> string \<Rightarrow> spool \<Rightarrow> outbox_error + (spool_path \<times> stored) option" where
  "findActiveReservation E producer i s =
     scanActive E i (dir_entries producer Pending s @ dir_entries producer Processing s)"

fun scanDead :: "outbox_env \<Rightarrow> string \<Rightarrow> spool \<Rightarrow> outbox_error + stored option" where
  "scanDead E i [] = Inr None"
| "scanDead E i ((p, f) # es) =
     rbind (decodeDeadRecord E f) (\<lambda>d.
       case d of
         DeadRecord src t cat status \<Rightarrow>
           if rc_reservationId src = Some i then Inr (Some src) else scanDead E i es
       | CorruptRecord _ _ \<Rightarrow> scanDead E i es)"

definition findDeadReservation ::
  "outbox_env \<Rightarrow> string \<Rightarrow> string \<Rightarrow> spool \<Rightarrow> outbox_error + stored option" where
  "findDeadReservation E producer i s = scanDead E i (dir_entries producer DeadDir s)"

definition pathExists :: "spool_path \<Rightarrow> bool fs_op" where
  "pathExists p = fs_read (\<lambda>s. Inr (map_of s p \<noteq> None))"

text \<open>The ids of a marker and of a close.\<close>

definition pre_reserve_id :: "outbox_env \<Rightarrow> string \<Rightarrow> string" where
  "pre_reserve_id E key = oe_digest E (''pre-reserve:'' @ key)"

definition close_id :: "outbox_env \<Rightarrow> string \<Rightarrow> string" where
  "close_id E reservationId = oe_digest E (''close:'' @ reservationId)"

section \<open>Locks\<close>

definition with_lock :: "outbox_env \<Rightarrow> string \<Rightarrow> 'a fs_op \<Rightarrow> 'a fs_op" where
  "with_lock E key m = (if oe_lock E key then m else fs_throw OutboxUnavailable)"

definition withHandleReservationLock ::
  "outbox_env \<Rightarrow> settlement_handle \<Rightarrow> 'a fs_op \<Rightarrow> 'a fs_op" where
  "withHandleReservationLock E h m = (case hn_reservationId h of None \<Rightarrow> m
     | Some i \<Rightarrow> with_lock E (reservationLockKey i) m)"

section \<open>The operations\<close>

definition pre_reserve_record :: "outbox \<Rightarrow> string \<Rightarrow> string \<Rightarrow> int \<Rightarrow> stored" where
  "pre_reserve_record ob i key now =
     \<lparr>rc_recordId = i, rc_kind = PreReserve, rc_operation = RecoverPreDispatch, rc_createdAt = now,
      rc_updatedAt = now, rc_nextAttemptAt = now + ob_fallbackDelayMs ob, rc_attempts = 0,
      rc_requestKey = Some key, rc_reservationId = None, rc_payload = None\<rparr>"

definition persistPreReserve :: "outbox_env \<Rightarrow> outbox \<Rightarrow> int \<Rightarrow> string \<Rightarrow> settlement_handle fs_op" where
  "persistPreReserve E ob now key =
     (if js_trim key = [] then fs_throw OutboxUnavailable
      else
        (let i = pre_reserve_id E key; p = Path (ob_producer ob) Pending (Named i);
             h = \<lparr>hn_recordId = i, hn_path = p, hn_reservationId = None\<rparr> in
         with_lock E (recordLockKey i)
          (fs_bind (pathExists (Path (ob_producer ob) DeadDir (Named i))) (\<lambda>isDead.
           if isDead then fs_throw OutboxUnavailable
           else fs_bind (fs_read (readStored E p)) (\<lambda>existing.
             case existing of
               Some r \<Rightarrow>
                 if rc_kind r \<noteq> PreReserve \<or> rc_operation r \<noteq> RecoverPreDispatch \<or> rc_requestKey r \<noteq> Some key
                 then fs_throw ExactConflictError
                 else fs_bind (atomicWriteRecord E p (r\<lparr>rc_updatedAt := now,
                     rc_nextAttemptAt := now + ob_fallbackDelayMs ob, rc_attempts := 0\<rparr>) now) (\<lambda>_. fs_return h)
             | None \<Rightarrow>
                 fs_bind (atomicWriteRecord E p (pre_reserve_record ob i key now) now) (\<lambda>_. fs_return h))))))"

definition fallback_payload :: json where
  "fallback_payload = JObj [(''outcome'', JStr ''unknown''), (''reason'', JStr FALLBACK_REASON)]"

definition fallback_record :: "outbox \<Rightarrow> stored \<Rightarrow> string \<Rightarrow> int \<Rightarrow> stored" where
  "fallback_record ob r reservationId now =
     \<lparr>rc_recordId = rc_recordId r, rc_kind = Fallback, rc_operation = DoFail,
      rc_createdAt = rc_createdAt r, rc_updatedAt = now,
      rc_nextAttemptAt = now + ob_fallbackDelayMs ob, rc_attempts = 0,
      rc_requestKey = None, rc_reservationId = Some reservationId,
      rc_payload = Some fallback_payload\<rparr>"

definition armFallback ::
  "outbox_env \<Rightarrow> outbox \<Rightarrow> int \<Rightarrow> settlement_handle \<Rightarrow> string \<Rightarrow> string \<Rightarrow> settlement_handle fs_op" where
  "armFallback E ob now h reservationId requestKey =
     with_lock E (recordLockKey (hn_recordId h)) (with_lock E (reservationLockKey reservationId)
      (fs_bind (fs_read (readStored E (hn_path h))) (\<lambda>existing.
       case existing of
         None \<Rightarrow> fs_throw OutboxUnavailable
       | Some r \<Rightarrow>
           if rc_recordId r \<noteq> hn_recordId h \<or> rc_kind r \<noteq> PreReserve
             \<or> rc_operation r \<noteq> RecoverPreDispatch \<or> rc_requestKey r \<noteq> Some requestKey
           then fs_throw ExactConflictError
           else
            fs_bind (atomicWriteRecord E (hn_path h) (fallback_record ob r reservationId now) now) (\<lambda>_.
            fs_return \<lparr>hn_recordId = rc_recordId r, hn_path = hn_path h,
              hn_reservationId = Some reservationId\<rparr>))))"

definition cancel :: "outbox_env \<Rightarrow> settlement_handle \<Rightarrow> unit fs_op" where
  "cancel E h = with_lock E (recordLockKey (hn_recordId h)) (fs_do (Remove (hn_path h)))"

definition exact_record :: "string \<Rightarrow> string \<Rightarrow> record_operation \<Rightarrow> json \<Rightarrow> int \<Rightarrow> stored" where
  "exact_record i reservationId oper payload now =
     \<lparr>rc_recordId = i, rc_kind = Exact, rc_operation = oper, rc_createdAt = now, rc_updatedAt = now,
      rc_nextAttemptAt = now, rc_attempts = 0, rc_requestKey = None,
      rc_reservationId = Some reservationId, rc_payload = Some payload\<rparr>"

definition upgrade_record :: "stored \<Rightarrow> record_operation \<Rightarrow> json \<Rightarrow> int \<Rightarrow> stored" where
  "upgrade_record r oper payload now =
     r\<lparr>rc_kind := Exact, rc_operation := oper, rc_updatedAt := now, rc_nextAttemptAt := now,
       rc_attempts := 0, rc_payload := Some payload\<rparr>"

text \<open>The body is \<open>None\<close> when it cannot be serialized.\<close>

definition persistExact ::
  "outbox_env \<Rightarrow> outbox \<Rightarrow> int \<Rightarrow> string \<Rightarrow> record_operation \<Rightarrow> json option \<Rightarrow> settlement_handle fs_op" where
  "persistExact E ob now reservationId oper body =
     (if js_trim reservationId = [] then fs_throw OutboxUnavailable
      else case body of None \<Rightarrow> fs_throw OutboxUnavailable
      | Some payload \<Rightarrow>
        (let producer = ob_producer ob;
             handle_of = (\<lambda>i p. \<lparr>hn_recordId = i, hn_path = p, hn_reservationId = Some reservationId\<rparr>) in
         with_lock E (reservationLockKey reservationId)
         (fs_bind (fs_read (findDeadReservation E producer reservationId)) (\<lambda>d.
          case d of
            Some src \<Rightarrow>
              if rc_kind src = Exact \<and> \<not> sameExactIntent src oper payload then fs_throw ExactConflictError
              else fs_throw OutboxUnavailable
          | None \<Rightarrow>
            fs_bind (fs_read (findActiveReservation E producer reservationId)) (\<lambda>a.
            case a of
              Some (p, r) \<Rightarrow>
                if rc_kind r = Exact then
                  (if \<not> sameExactIntent r oper payload then fs_throw ExactConflictError
                   else fs_return (handle_of (rc_recordId r) p))
                else if path_dir p = Processing then fs_throw OutboxUnavailable
                else fs_bind (atomicWriteRecord E p (upgrade_record r oper payload now) now)
                       (\<lambda>_. fs_return (handle_of (rc_recordId r) p))
            | None \<Rightarrow>
                (let i = close_id E reservationId; p = Path producer Pending (Named i) in
                 fs_bind (pathExists (Path producer DeadDir (Named i))) (\<lambda>isDead.
                   if isDead then fs_throw OutboxUnavailable
                   else fs_bind (atomicWriteRecord E p (exact_record i reservationId oper payload now) now)
                     (\<lambda>_. fs_return (handle_of i p)))))))))"

fun removeDuplicates :: "outbox_env \<Rightarrow> string \<Rightarrow> spool_path \<Rightarrow> spool \<Rightarrow> unit fs_op" where
  "removeDuplicates E i acknowledged [] = fs_return ()"
| "removeDuplicates E i acknowledged ((p, f) # es) =
     (if p = acknowledged then removeDuplicates E i acknowledged es
      else fs_bind (fs_read (\<lambda>_. decodeStoredRecord E f)) (\<lambda>r.
        if rc_reservationId r = Some i \<and> rc_kind r = Fallback
        then fs_bind (fs_do (Remove p)) (\<lambda>_. removeDuplicates E i acknowledged es)
        else removeDuplicates E i acknowledged es))"

definition removeDuplicateFallbacks :: "outbox_env \<Rightarrow> string \<Rightarrow> string \<Rightarrow> spool_path \<Rightarrow> unit fs_op" where
  "removeDuplicateFallbacks E producer i acknowledged =
     fs_bind (fs_bind (fs_read (\<lambda>s. Inr (dir_entries producer Pending s)))
         (\<lambda>es. removeDuplicates E i acknowledged es)) (\<lambda>_.
     fs_bind (fs_read (\<lambda>s. Inr (dir_entries producer Processing s)))
       (\<lambda>es. removeDuplicates E i acknowledged es))"

definition acknowledge :: "outbox_env \<Rightarrow> outbox \<Rightarrow> settlement_handle \<Rightarrow> unit fs_op" where
  "acknowledge E ob h =
     withHandleReservationLock E h
      (fs_bind (fs_do (Remove (hn_path h))) (\<lambda>_.
       case hn_reservationId h of None \<Rightarrow> fs_return ()
       | Some i \<Rightarrow> removeDuplicateFallbacks E (ob_producer ob) i (hn_path h)))"

definition retried :: "stored \<Rightarrow> int \<Rightarrow> retry_configuration \<Rightarrow> int \<Rightarrow> stored" where
  "retried r attempts cfg now =
     r\<lparr>rc_attempts := attempts, rc_updatedAt := now, rc_nextAttemptAt := now + retryDelayMs attempts cfg\<rparr>"

definition retryLater :: "outbox_env \<Rightarrow> outbox \<Rightarrow> int \<Rightarrow> settlement_handle \<Rightarrow> unit fs_op" where
  "retryLater E ob now h =
     withHandleReservationLock E h
      (fs_bind (fs_read (readStored E (hn_path h))) (\<lambda>file.
       case file of
         None \<Rightarrow> fs_return ()
       | Some r \<Rightarrow>
          (let attempts = rc_attempts r + 1 in
           if attempts \<ge> rt_maxAttempts (ob_retry ob)
           then deadLetter E (hn_path h) (Some r) AttemptsExhausted now None
           else atomicWriteRecord E (hn_path h) (retried r attempts (ob_retry ob) now) now)))"

definition rejectTerminal ::
  "outbox_env \<Rightarrow> int \<Rightarrow> settlement_handle \<Rightarrow> int option \<Rightarrow> unit fs_op" where
  "rejectTerminal E now h status =
     withHandleReservationLock E h
      (fs_bind (fs_read (readStored E (hn_path h))) (\<lambda>file.
       case file of
         None \<Rightarrow> fs_return ()
       | Some r \<Rightarrow> deadLetter E (hn_path h) (Some r) TerminalClose now status))"

lemma pathExists_simps [simp]:
  "fs_result (pathExists p) s = Inr (map_of s p \<noteq> None)" "fs_final (pathExists p) s = s"
  "crash_safe P (pathExists p) s = P s"
  "crash_safe P (fs_bind (pathExists p) f) s \<longleftrightarrow> P s \<and> crash_safe P (f (map_of s p \<noteq> None)) s"
  by (simp_all add: pathExists_def)

end
