(* ===== verification/OutboxFacts.thy ===== *)
theory OutboxFacts
  imports Outbox
begin

text \<open>
  What the operations of a producer do at every crash point: the records they write decode again, the
  spool invariant holds, and an exact close, once written, stays as it is until it is acknowledged or
  dead-lettered.
\<close>

section \<open>Written files decode\<close>

lemma decode_record_file:
  "isStoredRecord r \<Longrightarrow> oe_size E r \<le> MAX_RECORD_BYTES \<Longrightarrow> decodeStoredRecord E (record_file E r now) = Inr r"
  by (simp add: decodeStoredRecord_def record_file_def)

lemma decode_dead_file:
  "isDeadRecord d \<Longrightarrow> oe_deadSize E d \<le> MAX_RECORD_BYTES \<Longrightarrow> decodeDeadRecord E (dead_file E d now) = Inr d"
  by (simp add: decodeDeadRecord_def dead_file_def)

lemma decode_not_dead [simp]:
  "decodeStoredRecord E (dead_file E d now) \<noteq> Inr r" "decodeDeadRecord E (record_file E r now) \<noteq> Inr d"
  by (simp_all add: decodeStoredRecord_def decodeDeadRecord_def dead_file_def record_file_def)

lemma decode_stored: "decodeStoredRecord E f = Inr r \<Longrightarrow> isStoredRecord r \<and> sf_size f \<le> MAX_RECORD_BYTES"
  by (auto simp: decodeStoredRecord_def split: if_splits file_text.splits)

lemma readStored_Some:
  "readStored E p s = Inr (Some r) \<longleftrightarrow> (\<exists>f. map_of s p = Some f \<and> decodeStoredRecord E f = Inr r)"
  by (auto simp: readStored_def rbind_eq_Inr split: option.splits)

lemma readStored_None: "readStored E p s = Inr None \<longleftrightarrow> map_of s p = None"
  by (auto simp: readStored_def rbind_eq_Inr split: option.splits)

lemma write_within:
  "oe_size E r \<le> MAX_RECORD_BYTES - DEAD_METADATA_RESERVE_BYTES \<Longrightarrow> oe_size E r \<le> MAX_RECORD_BYTES"
  by (simp add: DEAD_METADATA_RESERVE_BYTES_def)

lemma isStoredRecord_retried: "isStoredRecord r \<Longrightarrow> 0 \<le> n \<Longrightarrow> isStoredRecord (retried r n cfg now)"
  by (cases "rc_kind r"; cases "rc_payload r") (simp_all add: isStoredRecord_def retried_def)

lemma same_retried [simp]: "sameStoredIntent (retried r n cfg now) x \<longleftrightarrow> sameStoredIntent r x"
  by (simp add: sameStoredIntent_def retried_def payload_or_null_def)

lemma same_retried' [simp]: "sameStoredIntent x (retried r n cfg now) \<longleftrightarrow> sameStoredIntent x r"
  by (simp add: sameStoredIntent_def retried_def payload_or_null_def)

lemma retried_simps [simp]:
  "rc_recordId (retried r n cfg now) = rc_recordId r" "rc_kind (retried r n cfg now) = rc_kind r"
  "rc_attempts (retried r n cfg now) = n" "rc_operation (retried r n cfg now) = rc_operation r"
  "rc_reservationId (retried r n cfg now) = rc_reservationId r"
  "rc_nextAttemptAt (retried r n cfg now) = now + retryDelayMs n cfg"
  "rc_requestKey (retried r n cfg now) = rc_requestKey r" "rc_payload (retried r n cfg now) = rc_payload r"
  by (simp_all add: retried_def)

section \<open>Where a record is\<close>

definition active_at :: "outbox_env \<Rightarrow> spool_path \<Rightarrow> stored \<Rightarrow> spool \<Rightarrow> bool" where
  "active_at E p r s \<longleftrightarrow> (\<exists>x. readStored E p s = Inr (Some x) \<and> sameStoredIntent r x)"

definition dead_at :: "outbox_env \<Rightarrow> string \<Rightarrow> stored \<Rightarrow> spool \<Rightarrow> bool" where
  "dead_at E producer r s \<longleftrightarrow> (\<exists>src t cat status.
     readDead E (Path producer DeadDir (Named (rc_recordId r))) s = Inr (Some (DeadRecord src t cat status))
     \<and> sameStoredIntent r src)"

definition kept :: "outbox_env \<Rightarrow> spool_path \<Rightarrow> stored \<Rightarrow> spool \<Rightarrow> bool" where
  "kept E p r s \<longleftrightarrow> active_at E p r s \<or> dead_at E (path_producer p) r s"

lemma keptI [intro]: "active_at E p r s \<Longrightarrow> kept E p r s" "dead_at E (path_producer p) r s \<Longrightarrow> kept E p r s"
  by (simp_all add: kept_def)

lemma active_at_frame:
  "map_of s' p = map_of s p \<Longrightarrow> active_at E p r s' = active_at E p r s"
  by (simp add: active_at_def readStored_def)

lemma active_at_put:
  "isStoredRecord x \<Longrightarrow> oe_size E x \<le> MAX_RECORD_BYTES \<Longrightarrow>
    active_at E p r (perform (Put p (record_file E x now)) s) \<longleftrightarrow> sameStoredIntent r x"
  by (simp add: active_at_def readStored_def decode_record_file)

lemma active_at_other: "q \<noteq> p \<Longrightarrow> active_at E p r (perform (Put q f) s) = active_at E p r s"
  "q \<noteq> p \<Longrightarrow> active_at E p r (perform (Remove q) s) = active_at E p r s"
  by (rule active_at_frame; simp)+

lemma dead_at_put:
  assumes "isStoredRecord x" "cat \<noteq> Corrupt" "case status of None \<Rightarrow> True | Some n \<Rightarrow> 100 \<le> n \<and> n \<le> 599"
    "oe_deadSize E (DeadRecord x t cat status) \<le> MAX_RECORD_BYTES" "sameStoredIntent r x"
  shows "dead_at E pr r (perform (Put (Path pr DeadDir (Named (rc_recordId x)))
    (dead_file E (DeadRecord x t cat status) now)) s)"
  using assms by (simp add: dead_at_def readDead_def decode_dead_file sameStoredIntent_def)

lemma dead_at_remove:
  "path_dir q \<noteq> DeadDir \<Longrightarrow> dead_at E pr r (perform (Remove q) s) = dead_at E pr r s"
  by (auto simp: dead_at_def readDead_def)

text \<open>A dead letter keeps the intent of its source at every crash point.\<close>

definition status_ok :: "int option \<Rightarrow> bool" where
  "status_ok status = (case status of None \<Rightarrow> True | Some n \<Rightarrow> 100 \<le> n \<and> n \<le> 599)"

lemma deadLetter_keeps:
  assumes "active_at E p r s" "readStored E p s = Inr (Some x)" "path_dir p \<noteq> DeadDir"
    "cat \<noteq> Corrupt" "status_ok status"
  shows "crash_safe (kept E p r) (deadLetter E p (Some x) cat now status) s"
proof -
  have same: "sameStoredIntent r x" using assms(1,2) by (auto simp: active_at_def)
  have wf: "isStoredRecord x" using assms(2) decode_stored by (auto simp: readStored_Some)
  let ?q = "Path (path_producer p) DeadDir (Named (rc_recordId x))"
  have q: "?q \<noteq> p" using assms(3) by (cases p) auto
  show ?thesis
    using assms q same wf
    by (auto simp: deadLetter_def atomicWriteDeadRecord_def Let_def kept_def active_at_other dead_at_put
        dead_at_remove status_ok_def)
qed

lemma deadLetter_other:
  assumes "active_at E p r s" "p \<noteq> q" "path_dir p \<noteq> DeadDir"
  shows "crash_safe (active_at E p r) (deadLetter E q rec cat now status) s"
proof -
  have "Path (path_producer q) DeadDir i \<noteq> p" for i using assms(3) by (cases p) auto
  with assms show ?thesis
    by (auto simp: deadLetter_def atomicWriteDeadRecord_def Let_def active_at_other)
qed

section \<open>The spool invariant\<close>

text \<open>A record's id is the digest of its request key or of its reservation, and its file carries the
  id as its name.\<close>

definition origin_ok :: "outbox_env \<Rightarrow> stored \<Rightarrow> bool" where
  "origin_ok E r \<longleftrightarrow> (\<exists>key. rc_recordId r = pre_reserve_id E key)
     \<or> (\<exists>i. rc_reservationId r = Some i \<and> rc_recordId r = close_id E i)"

definition named_ok :: "outbox_env \<Rightarrow> spool_path \<Rightarrow> stored \<Rightarrow> bool" where
  "named_ok E p r \<longleftrightarrow> origin_ok E r
     \<and> (case path_dir p of Pending \<Rightarrow> path_name p = Named (rc_recordId r)
        | Processing \<Rightarrow> \<exists>t token. path_name p = Claimed (rc_recordId r) t token
        | DeadDir \<Rightarrow> False)"

definition dead_named_ok :: "outbox_env \<Rightarrow> spool_path \<Rightarrow> dead \<Rightarrow> bool" where
  "dead_named_ok E p d \<longleftrightarrow> (case d of CorruptRecord i t \<Rightarrow> True
     | DeadRecord src t cat status \<Rightarrow> origin_ok E src \<and> path_dir p = DeadDir \<and> path_name p = Named (rc_recordId src))"

definition spool_ok :: "outbox_env \<Rightarrow> spool \<Rightarrow> bool" where
  "spool_ok E s \<longleftrightarrow> (\<forall>p f. map_of s p = Some f \<longrightarrow>
     (\<forall>r. decodeStoredRecord E f = Inr r \<longrightarrow> named_ok E p r)
     \<and> (\<forall>d. decodeDeadRecord E f = Inr d \<longrightarrow> dead_named_ok E p d))"

lemma decode_record_fileD: "decodeStoredRecord E (record_file E r now) = Inr x \<Longrightarrow> x = r"
  by (simp add: decodeStoredRecord_def record_file_def split: if_splits)

lemma decode_dead_fileD: "decodeDeadRecord E (dead_file E d now) = Inr x \<Longrightarrow> x = d"
  by (simp add: decodeDeadRecord_def dead_file_def split: if_splits)

lemma spool_okD:
  assumes "spool_ok E s" "map_of s p = Some f"
  shows "decodeStoredRecord E f = Inr r \<Longrightarrow> named_ok E p r" "decodeDeadRecord E f = Inr d \<Longrightarrow> dead_named_ok E p d"
  using assms unfolding spool_ok_def by blast+

lemma spool_ok_put: "spool_ok E s \<Longrightarrow> named_ok E p x \<Longrightarrow> spool_ok E (perform (Put p (record_file E x now)) s)"
  by (auto simp: spool_ok_def dest: decode_record_fileD)

lemma spool_ok_put_dead:
  "spool_ok E s \<Longrightarrow> dead_named_ok E p d \<Longrightarrow> spool_ok E (perform (Put p (dead_file E d now)) s)"
  by (auto simp: spool_ok_def dest: decode_dead_fileD)

lemma spool_ok_remove [simp]: "spool_ok E s \<Longrightarrow> spool_ok E (perform (Remove p) s)"
  by (auto simp: spool_ok_def)

lemma spool_ok_move:
  assumes "spool_ok E s" "\<And>r. readStored E p s = Inr (Some r) \<Longrightarrow> named_ok E q r" "path_dir p \<noteq> DeadDir"
    "path_dir q \<noteq> DeadDir"
  shows "spool_ok E (perform (Move p q) s)"
proof (cases "map_of s p")
  case None
  with assms(1) show ?thesis by (simp add: spool_ok_def)
next
  case (Some f)
  have "dead_named_ok E q d" if "decodeDeadRecord E f = Inr d" for d
    using spool_okD(2) [OF assms(1) Some that] assms(3) by (cases d) (auto simp: dead_named_ok_def)
  moreover have "named_ok E q r" if "decodeStoredRecord E f = Inr r" for r
    using assms(2) Some that by (simp add: readStored_Some)
  ultimately show ?thesis using assms(1) Some by (auto simp: spool_ok_def)
qed

lemma spool_ok_read: "spool_ok E s \<Longrightarrow> readStored E p s = Inr (Some r) \<Longrightarrow> named_ok E p r"
  using spool_okD(1) unfolding readStored_Some by blast

lemma atomicWriteRecord_ok:
  "spool_ok E s \<Longrightarrow> named_ok E p r \<Longrightarrow> crash_safe (spool_ok E) (atomicWriteRecord E p r now) s
    \<and> spool_ok E (fs_final (atomicWriteRecord E p r now) s)"
  by (simp add: atomicWriteRecord_def spool_ok_put)

lemma deadLetter_ok:
  "spool_ok E s \<Longrightarrow> (\<And>r. rec = Some r \<Longrightarrow> origin_ok E r) \<Longrightarrow> crash_safe (spool_ok E) (deadLetter E p rec cat now status) s"
  by (auto simp: deadLetter_def atomicWriteDeadRecord_def Let_def spool_ok_put_dead dead_named_ok_def
      split: option.split)

lemma named_ok_cong:
  "rc_recordId x = rc_recordId r \<Longrightarrow> origin_ok E x \<Longrightarrow> named_ok E p r \<Longrightarrow> named_ok E p x"
  by (auto simp: named_ok_def split: state_dir.splits)

lemma origin_retried [simp]: "origin_ok E (retried r n cfg now) = origin_ok E r"
  by (simp add: origin_ok_def)

text \<open>The operations a producer makes of its own; \<open>cancel\<close> and \<open>acknowledge\<close> remove files on purpose.\<close>

datatype outbox_op =
    OpPreReserve int string
  | OpArm int settlement_handle string string
  | OpExact int string record_operation "json option"
  | OpRetry int settlement_handle
  | OpReject int settlement_handle "int option"
  | OpCancel settlement_handle
  | OpAcknowledge settlement_handle

fun run_op :: "outbox_env \<Rightarrow> outbox \<Rightarrow> outbox_op \<Rightarrow> unit fs_op" where
  "run_op E ob (OpPreReserve now key) = fs_bind (persistPreReserve E ob now key) (\<lambda>_. fs_return ())"
| "run_op E ob (OpArm now h i key) = fs_bind (armFallback E ob now h i key) (\<lambda>_. fs_return ())"
| "run_op E ob (OpExact now i oper body) = fs_bind (persistExact E ob now i oper body) (\<lambda>_. fs_return ())"
| "run_op E ob (OpRetry now h) = retryLater E ob now h"
| "run_op E ob (OpReject now h status) = rejectTerminal E now h status"
| "run_op E ob (OpCancel h) = cancel E h"
| "run_op E ob (OpAcknowledge h) = acknowledge E ob h"

lemma crash_safe_lock:
  "P s \<Longrightarrow> (oe_lock E key \<Longrightarrow> crash_safe P m s) \<Longrightarrow> crash_safe P (with_lock E key m) s"
  by (simp add: with_lock_def)

lemma crash_safe_handle_lock:
  "P s \<Longrightarrow> crash_safe P m s \<Longrightarrow> crash_safe P (withHandleReservationLock E h m) s"
  by (simp add: withHandleReservationLock_def with_lock_def split: option.split)

lemma crash_safe_apply: "crash_safe P (\<lambda>s. m s s) s = crash_safe P (m s) s"
  by (simp add: crash_safe_def)

lemma scanActive_Some:
  "scanActive E i es = Inr (Some (p, r)) \<Longrightarrow>
    rc_reservationId r = Some i \<and> (\<exists>f. (p, f) \<in> set es \<and> decodeStoredRecord E f = Inr r)"
  by (induction E i es rule: scanActive.induct) (auto simp: rbind_eq_Inr split: if_splits)

lemma scanActive_None:
  "scanActive E i es = Inr None \<Longrightarrow> (p, f) \<in> set es \<Longrightarrow>
    \<exists>r. decodeStoredRecord E f = Inr r \<and> rc_reservationId r \<noteq> Some i"
  by (induction E i es rule: scanActive.induct) (auto simp: rbind_eq_Inr split: if_splits)

lemma findActive_Some:
  assumes "findActiveReservation E producer i s = Inr (Some (p, r))" "distinct (map fst s)"
  shows "rc_reservationId r = Some i \<and> readStored E p s = Inr (Some r) \<and> path_producer p = producer
    \<and> path_dir p \<in> {Pending, Processing}"
proof -
  from scanActive_Some [OF assms(1) [unfolded findActiveReservation_def]] obtain f where
    f: "rc_reservationId r = Some i" "(p, f) \<in> set (dir_entries producer Pending s @ dir_entries producer Processing s)"
    "decodeStoredRecord E f = Inr r" by blast
  then have "(p, f) \<in> set s" "path_producer p = producer \<and> path_dir p \<in> {Pending, Processing}"
    by (auto simp: dir_entries_def)
  with f assms(2) show ?thesis by (auto simp: readStored_Some)
qed

lemma findActive_None:
  assumes "findActiveReservation E producer i s = Inr None" "readStored E p s = Inr (Some r)"
    "path_producer p = producer" "path_dir p \<in> {Pending, Processing}" "json_name (path_name p)"
  shows "rc_reservationId r \<noteq> Some i"
proof -
  obtain f where f: "map_of s p = Some f" "decodeStoredRecord E f = Inr r"
    using assms(2) by (auto simp: readStored_Some)
  then have "(p, f) \<in> set s" by (simp add: map_of_SomeD)
  with assms(3-5) have "(p, f) \<in> set (dir_entries producer Pending s @ dir_entries producer Processing s)"
    by (cases p) (auto simp: dir_entries_def)
  from scanActive_None [OF assms(1) [unfolded findActiveReservation_def] this] f(2) show ?thesis by auto
qed

text \<open>The list of files has one entry per path, and every action keeps that.\<close>

definition spool_inv :: "outbox_env \<Rightarrow> spool \<Rightarrow> bool" where
  "spool_inv E s \<longleftrightarrow> distinct (map fst s) \<and> spool_ok E s"

lemma perform_distinct: "distinct (map fst s) \<Longrightarrow> distinct (map fst (perform a s))"
  by (cases a) (auto simp: perform.simps distinct_update distinct_delete split: option.split)

lemma run_distinct: "distinct (map fst s) \<Longrightarrow> distinct (map fst (run_actions as s))"
  by (induction as arbitrary: s) (simp_all add: perform_distinct)

lemma crash_safe_inv:
  "spool_inv E s \<Longrightarrow> crash_safe (spool_ok E) m s \<Longrightarrow> crash_safe (spool_inv E) m s"
  by (auto simp: crash_safe_def spool_inv_def run_distinct)

lemma exact_record_simps [simp]:
  "rc_recordId (exact_record ri i oper payload now) = ri" "rc_kind (exact_record ri i oper payload now) = Exact"
  "rc_operation (exact_record ri i oper payload now) = oper"
  "rc_reservationId (exact_record ri i oper payload now) = Some i"
  "rc_payload (exact_record ri i oper payload now) = Some payload"
  by (simp_all add: exact_record_def)

lemma upgrade_record_simps [simp]:
  "rc_recordId (upgrade_record r oper payload now) = rc_recordId r"
  "rc_kind (upgrade_record r oper payload now) = Exact"
  "rc_operation (upgrade_record r oper payload now) = oper"
  "rc_reservationId (upgrade_record r oper payload now) = rc_reservationId r"
  "rc_payload (upgrade_record r oper payload now) = Some payload"
  by (simp_all add: upgrade_record_def)

text \<open>A write operation makes no action, or one write of a record of bounded size.\<close>

definition one_write :: "outbox_env \<Rightarrow> spool_path \<Rightarrow> stored \<Rightarrow> int \<Rightarrow> 'a fs_op \<Rightarrow> spool \<Rightarrow> bool" where
  "one_write E p x now m s \<longleftrightarrow> snd (m s) = [Put p (record_file E x now)]
     \<and> oe_size E x \<le> MAX_RECORD_BYTES - DEAD_METADATA_RESERVE_BYTES"

lemma crash_safe_nothing: "snd (m s) = [] \<Longrightarrow> crash_safe P m s \<longleftrightarrow> P s"
  by (simp add: crash_safe_def)

lemma crash_safe_one_write:
  "one_write E p x now m s \<Longrightarrow> crash_safe P m s \<longleftrightarrow> P s \<and> P (perform (Put p (record_file E x now)) s)"
  using crash_safe_do [of P "Put p (record_file E x now)" s]
  by (simp add: crash_safe_def one_write_def fs_do_def)

lemma write_then_return:
  "snd (fs_bind (atomicWriteRecord E p x now) (\<lambda>_. fs_return h) s) = []
    \<and> (\<exists>e. fst (fs_bind (atomicWriteRecord E p x now) (\<lambda>_. fs_return h) s) = Inl e)
   \<or> one_write E p x now (fs_bind (atomicWriteRecord E p x now) (\<lambda>_. fs_return h)) s
    \<and> fst (fs_bind (atomicWriteRecord E p x now) (\<lambda>_. fs_return h) s) = Inr h"
  by (simp add: one_write_def atomicWriteRecord_def fs_defs)

lemma persistPreReserve_effect:
  fixes E ob now key s
  defines "m \<equiv> persistPreReserve E ob now key"
    and "p \<equiv> Path (ob_producer ob) Pending (Named (pre_reserve_id E key))"
  shows "snd (m s) = [] \<and> (\<exists>e. fst (m s) = Inl e)
    \<or> (\<exists>x. one_write E p x now m s \<and> rc_requestKey x = Some key
        \<and> fst (m s) = Inr \<lparr>hn_recordId = pre_reserve_id E key, hn_path = p, hn_reservationId = None\<rparr>
        \<and> (readStored E p s = Inr None \<and> x = pre_reserve_record ob (pre_reserve_id E key) key now
           \<or> (\<exists>r. readStored E p s = Inr (Some r) \<and> rc_kind r = PreReserve
               \<and> x = r\<lparr>rc_updatedAt := now, rc_nextAttemptAt := now + ob_fallbackDelayMs ob, rc_attempts := 0\<rparr>)))"
  by (simp add: m_def p_def persistPreReserve_def with_lock_def Let_def pathExists_def one_write_def
      atomicWriteRecord_def fs_defs pre_reserve_record_def split: sum.split option.split)

lemma armFallback_effect:
  fixes E ob now h i key s
  defines "m \<equiv> armFallback E ob now h i key"
  shows "snd (m s) = [] \<and> (\<exists>e. fst (m s) = Inl e)
    \<or> (\<exists>r. readStored E (hn_path h) s = Inr (Some r) \<and> rc_kind r = PreReserve
        \<and> one_write E (hn_path h) (fallback_record ob r i now) now m s
        \<and> fst (m s) = Inr \<lparr>hn_recordId = rc_recordId r, hn_path = hn_path h, hn_reservationId = Some i\<rparr>)"
  by (simp add: m_def armFallback_def with_lock_def one_write_def atomicWriteRecord_def fs_defs
      split: sum.split option.split)

lemma persistExact_effect:
  fixes E ob now i oper body s
  defines "m \<equiv> persistExact E ob now i oper body"
  assumes "distinct (map fst s)"
  shows "snd (m s) = [] \<and> (\<exists>e. fst (m s) = Inl e)
    \<or> (\<exists>p r payload. body = Some payload \<and> snd (m s) = [] \<and> readStored E p s = Inr (Some r)
        \<and> rc_kind r = Exact \<and> rc_reservationId r = Some i \<and> sameExactIntent r oper payload
        \<and> fst (m s) = Inr \<lparr>hn_recordId = rc_recordId r, hn_path = p, hn_reservationId = Some i\<rparr>)
    \<or> (\<exists>p x payload. body = Some payload \<and> one_write E p x now m s \<and> rc_kind x = Exact
        \<and> sameExactIntent x oper payload
        \<and> fst (m s) = Inr \<lparr>hn_recordId = rc_recordId x, hn_path = p, hn_reservationId = Some i\<rparr>
        \<and> ((\<exists>r. readStored E p s = Inr (Some r) \<and> rc_kind r \<noteq> Exact \<and> rc_reservationId r = Some i
               \<and> x = upgrade_record r oper payload now)
           \<or> findActiveReservation E (ob_producer ob) i s = Inr None
             \<and> p = Path (ob_producer ob) Pending (Named (close_id E i))
             \<and> x = exact_record (close_id E i) i oper payload now))"
proof (cases "js_trim i = [] \<or> body = None \<or> \<not> oe_lock E (reservationLockKey i)")
  case True
  then show ?thesis by (auto simp: m_def persistExact_def Let_def with_lock_def fs_throw_def split: option.split)
next
  case False
  then obtain payload where b: "body = Some payload" by auto
  let ?pr = "ob_producer ob"
  note unf = m_def persistExact_def Let_def with_lock_def pathExists_def one_write_def
    atomicWriteRecord_def fs_defs
  show ?thesis
  proof (cases "findDeadReservation E ?pr i s = Inr None")
    case dead: True
    show ?thesis
    proof (cases "findActiveReservation E ?pr i s")
      case (Inl e)
      with False b dead show ?thesis by (simp add: unf)
    next
      case (Inr a)
      show ?thesis
      proof (cases a)
        case None
        with Inr False b dead show ?thesis
          by (auto simp: unf sameExactIntent_def)
      next
        case (Some pr)
        obtain p r where pr: "pr = (p, r)" by (cases pr)
        from Inr Some pr have found: "findActiveReservation E ?pr i s = Inr (Some (p, r))" by simp
        from findActive_Some [OF this assms(2)] False b dead found show ?thesis
          by (auto simp: unf sameExactIntent_def)
      qed
    qed
  next
    case dead: False
    with False b show ?thesis
      by (cases "findDeadReservation E ?pr i s") (auto simp: unf split: option.split)
  qed
qed

lemma persistPreReserve_ok:
  assumes "spool_ok E s"
  shows "crash_safe (spool_ok E) (persistPreReserve E ob now key) s"
  using persistPreReserve_effect [of E ob now key s]
proof (elim disjE conjE exE)
  fix x
  assume w: "one_write E (Path (ob_producer ob) Pending (Named (pre_reserve_id E key))) x now
      (persistPreReserve E ob now key) s" and x: "x = pre_reserve_record ob (pre_reserve_id E key) key now"
  have "named_ok E (Path (ob_producer ob) Pending (Named (pre_reserve_id E key))) x"
    by (auto simp: x named_ok_def origin_ok_def pre_reserve_record_def)
  with assms show ?thesis by (simp add: crash_safe_one_write [OF w] spool_ok_put)
next
  fix x r
  let ?p = "Path (ob_producer ob) Pending (Named (pre_reserve_id E key))"
  assume w: "one_write E ?p x now (persistPreReserve E ob now key) s"
    and r: "readStored E ?p s = Inr (Some r)" "rc_kind r = PreReserve"
    and x: "x = r\<lparr>rc_updatedAt := now, rc_nextAttemptAt := now + ob_fallbackDelayMs ob, rc_attempts := 0\<rparr>"
  have "named_ok E ?p x" using spool_ok_read [OF assms r(1)] by (simp add: x named_ok_def origin_ok_def)
  with assms show ?thesis by (simp add: crash_safe_one_write [OF w] spool_ok_put)
qed (simp add: crash_safe_nothing assms)

lemma marker_no_reservation:
  "readStored E p s = Inr (Some r) \<Longrightarrow> rc_kind r = PreReserve \<Longrightarrow> rc_reservationId r = None"
  using decode_stored by (fastforce simp: readStored_Some isStoredRecord_def)

lemma armFallback_ok:
  assumes "spool_ok E s"
  shows "crash_safe (spool_ok E) (armFallback E ob now h i key) s"
  using armFallback_effect [of E ob now h i key s]
proof (elim disjE conjE exE)
  fix r
  assume w: "one_write E (hn_path h) (fallback_record ob r i now) now (armFallback E ob now h i key) s"
    and r: "readStored E (hn_path h) s = Inr (Some r)" "rc_kind r = PreReserve"
  have "named_ok E (hn_path h) (fallback_record ob r i now)"
    using spool_ok_read [OF assms r(1)] marker_no_reservation [OF r]
    by (auto simp: named_ok_def origin_ok_def fallback_record_def split: state_dir.splits)
  with assms show ?thesis by (simp add: crash_safe_one_write [OF w] spool_ok_put)
qed (simp add: crash_safe_nothing assms)

lemma persistExact_ok:
  assumes "spool_inv E s"
  shows "crash_safe (spool_ok E) (persistExact E ob now i oper body) s"
proof -
  have ok: "spool_ok E s" and d: "distinct (map fst s)" using assms by (auto simp: spool_inv_def)
  show ?thesis
    using persistExact_effect [OF d, of E ob now i oper body]
  proof (elim disjE conjE exE)
    fix p x payload r
    assume w: "one_write E p x now (persistExact E ob now i oper body) s"
      and r: "readStored E p s = Inr (Some r)" "x = upgrade_record r oper payload now"
    have "named_ok E p x" using spool_ok_read [OF ok r(1)]
      by (auto simp: r(2) named_ok_def origin_ok_def upgrade_record_def split: state_dir.splits)
    with ok show ?thesis by (simp add: crash_safe_one_write [OF w] spool_ok_put)
  next
    fix p x payload
    assume w: "one_write E p x now (persistExact E ob now i oper body) s"
      and "p = Path (ob_producer ob) Pending (Named (close_id E i))"
        "x = exact_record (close_id E i) i oper payload now"
    then have "named_ok E p x" by (simp add: named_ok_def origin_ok_def exact_record_def)
    with ok show ?thesis by (simp add: crash_safe_one_write [OF w] spool_ok_put)
  qed (simp_all add: crash_safe_nothing ok)
qed

lemma retryLater_ok:
  assumes "spool_ok E s"
  shows "crash_safe (spool_ok E) (retryLater E ob now h) s"
proof -
  have "named_ok E (hn_path h) r" if "readStored E (hn_path h) s = Inr (Some r)" for r
    using assms that by (rule spool_ok_read)
  then have "named_ok E (hn_path h) (retried r n cfg now) \<and> origin_ok E r"
    if "readStored E (hn_path h) s = Inr (Some r)" for r n cfg
    using that named_ok_cong [of "retried r n cfg now" r E "hn_path h"] by (simp add: named_ok_def)
  then show ?thesis
    using assms by (auto simp: retryLater_def Let_def atomicWriteRecord_ok
        intro!: crash_safe_handle_lock deadLetter_ok split: option.split)
qed

lemma rejectTerminal_ok:
  assumes "spool_ok E s"
  shows "crash_safe (spool_ok E) (rejectTerminal E now h status) s"
proof -
  have "origin_ok E r" if "readStored E (hn_path h) s = Inr (Some r)" for r
    using spool_ok_read [OF assms that] by (simp add: named_ok_def)
  then show ?thesis
    using assms by (auto simp: rejectTerminal_def intro!: crash_safe_handle_lock deadLetter_ok split: option.split)
qed

lemma removeDuplicates_ok: "spool_ok E s \<Longrightarrow> crash_safe (spool_ok E) (removeDuplicates E i a es) s"
  by (induction E i a es arbitrary: s rule: removeDuplicates.induct) auto

lemma acknowledge_ok: "spool_ok E s \<Longrightarrow> crash_safe (spool_ok E) (acknowledge E ob h) s"
proof -
  assume ok: "spool_ok E s"
  have dup: "crash_safe (spool_ok E) (removeDuplicateFallbacks E pr i a) t" if "spool_ok E t" for pr i a t
    unfolding removeDuplicateFallbacks_def using that by (intro crash_bindI crash_readI removeDuplicates_ok) auto
  show ?thesis
    using ok dup by (auto simp: acknowledge_def intro!: crash_safe_handle_lock split: option.split)
qed

section \<open>An exact close stays\<close>

text \<open>The one way a record with another reservation could be overwritten is a collision of the digest
  with the id of a close.\<close>

definition no_collision :: "outbox_env \<Rightarrow> string \<Rightarrow> bool" where
  "no_collision E i \<longleftrightarrow> (\<forall>t. oe_digest E t = close_id E i \<longrightarrow> t = ''close:'' @ i)"

definition op_allowed :: "outbox_env \<Rightarrow> spool_path \<Rightarrow> outbox_op \<Rightarrow> bool" where
  "op_allowed E p oper = (case oper of OpExact now i k body \<Rightarrow> no_collision E i
     | OpReject now h status \<Rightarrow> status_ok status
     | OpCancel h \<Rightarrow> hn_path h \<noteq> p
     | OpAcknowledge h \<Rightarrow> hn_path h \<noteq> p
     | _ \<Rightarrow> True)"

lemma active_kind: "active_at E p r s \<Longrightarrow> readStored E p s = Inr (Some x) \<Longrightarrow> sameStoredIntent r x"
  by (simp add: active_at_def)

lemma active_read: "active_at E p r s \<Longrightarrow> readStored E p s \<noteq> Inr None"
  by (auto simp: active_at_def)

lemma one_write_other:
  assumes "active_at E p r s" "one_write E q x now m s" "q \<noteq> p"
  shows "crash_safe (kept E p r) m s"
  using assms by (simp add: crash_safe_one_write kept_def active_at_other)

lemma persistPreReserve_keeps:
  assumes "active_at E p r s" "rc_kind r = Exact"
  shows "crash_safe (kept E p r) (persistPreReserve E ob now key) s"
  using persistPreReserve_effect [of E ob now key s]
proof (elim disjE conjE exE)
  fix x
  assume w: "one_write E (Path (ob_producer ob) Pending (Named (pre_reserve_id E key))) x now
      (persistPreReserve E ob now key) s"
    and n: "readStored E (Path (ob_producer ob) Pending (Named (pre_reserve_id E key))) s = Inr None"
  show ?thesis by (rule one_write_other [OF assms(1) w]) (use n active_read [OF assms(1)] in auto)
next
  fix x y
  assume w: "one_write E (Path (ob_producer ob) Pending (Named (pre_reserve_id E key))) x now
      (persistPreReserve E ob now key) s"
    and y: "readStored E (Path (ob_producer ob) Pending (Named (pre_reserve_id E key))) s = Inr (Some y)"
      "rc_kind y = PreReserve"
  show ?thesis
    by (rule one_write_other [OF assms(1) w])
      (use y active_kind [OF assms(1)] assms(2) in \<open>auto simp: sameStoredIntent_def\<close>)
qed (simp add: crash_safe_nothing keptI assms)

lemma armFallback_keeps:
  assumes "active_at E p r s" "rc_kind r = Exact"
  shows "crash_safe (kept E p r) (armFallback E ob now h i key) s"
  using armFallback_effect [of E ob now h i key s]
proof (elim disjE conjE exE)
  fix y
  assume w: "one_write E (hn_path h) (fallback_record ob y i now) now (armFallback E ob now h i key) s"
    and y: "readStored E (hn_path h) s = Inr (Some y)" "rc_kind y = PreReserve"
  show ?thesis
    by (rule one_write_other [OF assms(1) w])
      (use y active_kind [OF assms(1)] assms(2) in \<open>auto simp: sameStoredIntent_def\<close>)
qed (simp add: crash_safe_nothing keptI assms)

lemma persistExact_keeps:
  assumes "spool_inv E s" "active_at E p r s" "rc_kind r = Exact" "no_collision E i"
  shows "crash_safe (kept E p r) (persistExact E ob now i oper body) s"
proof -
  have ok: "spool_ok E s" and d: "distinct (map fst s)" using assms by (auto simp: spool_inv_def)
  show ?thesis
    using persistExact_effect [OF d, of E ob now i oper body]
  proof (elim disjE conjE exE)
    fix q x payload y
    assume w: "one_write E q x now (persistExact E ob now i oper body) s"
      and y: "readStored E q s = Inr (Some y)" "rc_kind y \<noteq> Exact"
    show ?thesis
      by (rule one_write_other [OF assms(2) w])
        (use y active_kind [OF assms(2)] assms(3) in \<open>auto simp: sameStoredIntent_def\<close>)
  next
    fix q x payload
    let ?q = "Path (ob_producer ob) Pending (Named (close_id E i))"
    assume w: "one_write E q x now (persistExact E ob now i oper body) s"
      and none: "findActiveReservation E (ob_producer ob) i s = Inr None" and q: "q = ?q"
    have "q \<noteq> p"
    proof
      assume "q = p"
      then obtain y where y: "readStored E ?q s = Inr (Some y)" "sameStoredIntent r y"
        using assms(2) q by (auto simp: active_at_def)
      have "rc_reservationId y \<noteq> Some i" using findActive_None [OF none y(1)] by simp
      moreover have "named_ok E ?q y" using ok y(1) by (rule spool_ok_read)
      ultimately show False
        using assms(4) by (auto simp: named_ok_def origin_ok_def no_collision_def pre_reserve_id_def close_id_def)
    qed
    then show ?thesis by (rule one_write_other [OF assms(2) w])
  qed (simp_all add: crash_safe_nothing keptI assms)
qed

lemma kept_handle_lock:
  "kept E p r s \<Longrightarrow> crash_safe (kept E p r) m s \<Longrightarrow> crash_safe (kept E p r) (withHandleReservationLock E h m) s"
  by (rule crash_safe_handle_lock)

lemma crash_safe_mono: "crash_safe P m s \<Longrightarrow> (\<And>t. P t \<Longrightarrow> Q t) \<Longrightarrow> crash_safe Q m s"
  by (simp add: crash_safe_def)

lemma deadLetter_any_keeps:
  assumes "active_at E p r s" "path_dir p \<noteq> DeadDir" "readStored E q s = Inr (Some x)" "cat \<noteq> Corrupt" "status_ok status"
  shows "crash_safe (kept E p r) (deadLetter E q (Some x) cat now status) s"
proof (cases "q = p")
  case True
  from assms(1,3,2,4,5) show ?thesis unfolding True by (rule deadLetter_keeps)
next
  case False
  show ?thesis
    by (rule crash_safe_mono [OF deadLetter_other [OF assms(1) False [symmetric] assms(2)]]) auto
qed

lemma retryLater_keeps:
  assumes "active_at E p r s" "path_dir p \<noteq> DeadDir"
  shows "crash_safe (kept E p r) (retryLater E ob now h) s"
  unfolding retryLater_def
proof (intro kept_handle_lock crash_readI)
  show k: "kept E p r s" using assms by blast
  then show "kept E p r s" .
  fix fl
  assume fl: "readStored E (hn_path h) s = Inr fl"
  show "crash_safe (kept E p r) (case fl of None \<Rightarrow> fs_return ()
      | Some r \<Rightarrow> (let attempts = rc_attempts r + 1 in
         if attempts \<ge> rt_maxAttempts (ob_retry ob)
         then deadLetter E (hn_path h) (Some r) AttemptsExhausted now None
         else atomicWriteRecord E (hn_path h) (retried r attempts (ob_retry ob) now) now)) s"
  proof (cases fl)
    case None
    with k show ?thesis by simp
  next
    case (Some x)
    have dead: "crash_safe (kept E p r) (deadLetter E (hn_path h) (Some x) AttemptsExhausted now None) s"
      using assms fl Some by (intro deadLetter_any_keeps) (auto simp: status_ok_def)
    have wf: "isStoredRecord x" using fl Some decode_stored by (auto simp: readStored_Some)
    then have "0 \<le> rc_attempts x" by (simp add: isStoredRecord_def)
    with wf have wf': "isStoredRecord (retried x (rc_attempts x + 1) (ob_retry ob) now)"
      by (intro isStoredRecord_retried) auto
    have "crash_safe (kept E p r) (atomicWriteRecord E (hn_path h) (retried x (rc_attempts x + 1) (ob_retry ob) now) now) s"
    proof (cases "hn_path h = p")
      case True
      with assms(1) fl Some have "sameStoredIntent r x" by (simp add: active_at_def)
      with True k wf' show ?thesis
        by (simp add: atomicWriteRecord_def kept_def active_at_put write_within)
    next
      case False
      with assms(1) k show ?thesis by (simp add: atomicWriteRecord_def kept_def active_at_other)
    qed
    with dead Some show ?thesis by (simp add: Let_def)
  qed
qed

lemma rejectTerminal_keeps:
  assumes "active_at E p r s" "path_dir p \<noteq> DeadDir" "status_ok status"
  shows "crash_safe (kept E p r) (rejectTerminal E now h status) s"
  unfolding rejectTerminal_def
proof (intro kept_handle_lock crash_readI)
  show k: "kept E p r s" using assms by blast
  then show "kept E p r s" .
  fix fl
  assume "readStored E (hn_path h) s = Inr fl"
  with assms k show "crash_safe (kept E p r) (case fl of None \<Rightarrow> fs_return ()
      | Some r \<Rightarrow> deadLetter E (hn_path h) (Some r) TerminalClose now status) s"
    by (cases fl) (auto intro: deadLetter_any_keeps)
qed

lemma removeDuplicates_keeps:
  assumes "active_at E p r s" "\<forall>(q, f) \<in> set es. q = p \<longrightarrow> (\<forall>x. decodeStoredRecord E f = Inr x \<longrightarrow> rc_kind x \<noteq> Fallback)"
  shows "crash_safe (active_at E p r) (removeDuplicates E i a es) s"
  using assms
proof (induction E i a es arbitrary: s rule: removeDuplicates.induct)
  case (1 E i a)
  then show ?case by simp
next
  case (2 E i a q f es)
  then show ?case by (auto simp: active_at_other)
qed

lemma acknowledge_keeps:
  assumes "spool_inv E s" "active_at E p r s" "rc_kind r = Exact" "hn_path h \<noteq> p"
  shows "crash_safe (kept E p r) (acknowledge E ob h) s"
proof -
  have entries: "\<forall>(q, f) \<in> set (dir_entries pr dd t). q = p \<longrightarrow> (\<forall>x. decodeStoredRecord E f = Inr x \<longrightarrow> rc_kind x \<noteq> Fallback)"
    if "distinct (map fst t)" "active_at E p r t" for pr dd t
  proof (clarsimp simp: dir_entries_def)
    fix f x
    assume "(p, f) \<in> set t" and x: "decodeStoredRecord E f = Inr x" "rc_kind x = Fallback"
    with that(1) have "readStored E p t = Inr (Some x)" by (simp add: readStored_Some)
    from active_kind [OF that(2) this] x(2) assms(3) show False by (simp add: sameStoredIntent_def)
  qed
  have dup: "crash_safe (\<lambda>u. distinct (map fst u) \<and> active_at E p r u) (removeDuplicates E i a (dir_entries pr dd t)) t"
    if "distinct (map fst t)" "active_at E p r t" for i a pr dd t
    using removeDuplicates_keeps [OF that(2) entries [OF that]] that(1)
    by (auto simp: crash_safe_def run_distinct)
  let ?P = "\<lambda>u. distinct (map fst u) \<and> active_at E p r u"
  have "crash_safe ?P (removeDuplicateFallbacks E (ob_producer ob) i (hn_path h)) t" if "?P t" for i t
    unfolding removeDuplicateFallbacks_def using that by (intro crash_bindI crash_readI dup) (auto simp: dup)
  moreover have "?P (perform (Remove (hn_path h)) s)" "?P s"
    using assms perform_distinct by (auto simp: spool_inv_def active_at_other)
  ultimately have "crash_safe ?P (acknowledge E ob h) s"
    unfolding acknowledge_def
    by (intro crash_safe_handle_lock crash_bindI) (auto split: option.split)
  then show ?thesis by (rule crash_safe_mono) auto
qed

end
