(* ===== verification/OutboxDrain.thy ===== *)
theory OutboxDrain
  imports OutboxFacts
begin

text \<open>
  The drain of all spools, \<open>drainLlmSettlementOutbox\<close> of
  \<^verbatim>\<open>packages/llm-ledger-outbox/src/index.ts\<close>: expired claims return to pending, then every due record
  is claimed, dispatched to the ledger, and completed, rescheduled or dead-lettered.

  A pass has a \<open>drain_env\<close>: the outcome of the ledger call of each file, the clock read after the
  call, the random token of a claim, and the collation order of paths, all functions of the path.
  Other processes do not interleave with a pass; files may be gone when it reaches them.  The
  clean-up of expired temporary files is not modelled.
\<close>

datatype ledger_call =
    CallRecover string
  | CallSettle string json
  | CallFail string json
  | CallRelease string string

datatype dispatch_result = Accepted | CloseRefused bool "int option" | OtherFailure

record drain_env =
  dv_outbox :: outbox_env
  dv_retry :: retry_configuration
  dv_lease :: int
  dv_maxRecords :: int
  dv_now :: int
  dv_ledger :: "spool_path \<Rightarrow> ledger_call \<Rightarrow> dispatch_result"
  dv_clock :: "spool_path \<Rightarrow> int"
  dv_token :: "spool_path \<Rightarrow> string"
  dv_rank :: "spool_path \<Rightarrow> int"

record drain_result =
  dr_claimed :: int
  dr_completed :: int
  dr_retryScheduled :: int
  dr_deadLettered :: int
  dr_skipped :: int
  dr_reclaimed :: int

definition emptyDrainResult :: drain_result where
  "emptyDrainResult = \<lparr>dr_claimed = 0, dr_completed = 0, dr_retryScheduled = 0, dr_deadLettered = 0,
     dr_skipped = 0, dr_reclaimed = 0\<rparr>"

definition collectStateFiles :: "state_dir \<Rightarrow> spool \<Rightarrow> spool_path list" where
  "collectStateFiles d s = filter (\<lambda>p. path_dir p = d \<and> json_name (path_name p)) (map fst s)"

section \<open>The ledger call of a record\<close>

text \<open>\<open>None\<close> when the record has no such call, which the code reports as an outbox error.\<close>

definition dispatchRecord :: "stored \<Rightarrow> ledger_call option" where
  "dispatchRecord r =
     (if rc_kind r = PreReserve then map_option CallRecover (rc_requestKey r)
      else case (rc_reservationId r, rc_payload r) of
        (Some i, Some payload) \<Rightarrow>
          (case rc_operation r of
             DoSettle \<Rightarrow> Some (CallSettle i payload)
           | DoFail \<Rightarrow> Some (CallFail i payload)
           | DoRelease \<Rightarrow> (case (if isJsonObject payload then text_value (get_prop payload ''reason'') else None) of
               Some reason \<Rightarrow> Some (CallRelease i reason) | None \<Rightarrow> None)
           | RecoverPreDispatch \<Rightarrow> None)
      | _ \<Rightarrow> None)"

definition dispatch :: "drain_env \<Rightarrow> spool_path \<Rightarrow> stored \<Rightarrow> dispatch_result" where
  "dispatch V p r = (case dispatchRecord r of None \<Rightarrow> OtherFailure | Some c \<Rightarrow> dv_ledger V p c)"

section \<open>One pending file\<close>

definition pending_path :: "string \<Rightarrow> string \<Rightarrow> spool_path" where
  "pending_path producer i = Path producer Pending (Named i)"

definition claimed_path :: "drain_env \<Rightarrow> spool_path \<Rightarrow> stored \<Rightarrow> spool_path" where
  "claimed_path V p r = Path (path_producer p) Processing (Claimed (rc_recordId r) (dv_now V) (dv_token V p))"

definition returnForRetry :: "drain_env \<Rightarrow> spool_path \<Rightarrow> stored \<Rightarrow> int \<Rightarrow> int \<Rightarrow> unit fs_op" where
  "returnForRetry V claimed r attempts now =
     (let E = dv_outbox V; updated = retried r attempts (dv_retry V) now;
          target = pending_path (path_producer claimed) (rc_recordId r) in
      fs_bind (atomicWriteRecord E claimed updated now) (\<lambda>_.
      fs_bind (pathExists target) (\<lambda>exists.
      if exists then
        fs_bind (fs_read (readStored E target)) (\<lambda>pending.
        case pending of
          Some x \<Rightarrow> if sameStoredIntent x updated then fs_do (Remove claimed)
            else deadLetter E claimed (Some updated) ExactConflict now None
        | None \<Rightarrow> deadLetter E claimed (Some updated) ExactConflict now None)
      else fs_do (Move claimed target))))"

datatype file_outcome = Completed | Rescheduled | DeadLettered

text \<open>The claimed record: dispatch and what follows.\<close>

definition processClaimed :: "drain_env \<Rightarrow> spool_path \<Rightarrow> stored \<Rightarrow> file_outcome fs_op" where
  "processClaimed V p r =
     (let E = dv_outbox V; claimed = claimed_path V p r in
      if rc_attempts r \<ge> rt_maxAttempts (dv_retry V) then
        fs_bind (deadLetter E claimed (Some r) AttemptsExhausted (dv_now V) None) (\<lambda>_. fs_return DeadLettered)
      else
        case dispatch V p r of
          Accepted \<Rightarrow> fs_bind (fs_do (Remove claimed)) (\<lambda>_. fs_return Completed)
        | other \<Rightarrow>
           (case other of CloseRefused False status \<Rightarrow>
              fs_bind (deadLetter E claimed (Some r) TerminalClose (dv_clock V p) status)
                (\<lambda>_. fs_return DeadLettered)
            | _ \<Rightarrow>
              if rc_attempts r + 1 \<ge> rt_maxAttempts (dv_retry V) then
                fs_bind (deadLetter E claimed (Some r) AttemptsExhausted (dv_clock V p) None)
                  (\<lambda>_. fs_return DeadLettered)
              else
                fs_bind (returnForRetry V claimed r (rc_attempts r + 1) (dv_clock V p))
                  (\<lambda>_. fs_return Rescheduled)))"

definition count_outcome :: "file_outcome \<Rightarrow> drain_result \<Rightarrow> drain_result" where
  "count_outcome outcome res = (case outcome of
     Completed \<Rightarrow> res\<lparr>dr_claimed := dr_claimed res + 1, dr_completed := dr_completed res + 1\<rparr>
   | Rescheduled \<Rightarrow> res\<lparr>dr_claimed := dr_claimed res + 1, dr_retryScheduled := dr_retryScheduled res + 1\<rparr>
   | DeadLettered \<Rightarrow> res\<lparr>dr_claimed := dr_claimed res + 1, dr_deadLettered := dr_deadLettered res + 1\<rparr>)"

definition count_skipped :: "drain_result \<Rightarrow> drain_result" where
  "count_skipped res = res\<lparr>dr_skipped := dr_skipped res + 1\<rparr>"

text \<open>One file of the list: a file that cannot be read, for whatever reason, is dead-lettered as
  corrupt.\<close>

definition drainFile :: "drain_env \<Rightarrow> spool_path \<Rightarrow> drain_result \<Rightarrow> drain_result fs_op" where
  "drainFile V p res =
     fs_bind (fs_read (\<lambda>s. Inr (readStored (dv_outbox V) p s))) (\<lambda>validated.
     case validated of
       Inr (Some r) \<Rightarrow>
         if rc_nextAttemptAt r > dv_now V then fs_return (count_skipped res)
         else if \<not> oe_lock (dv_outbox V) (storedRecordLockKey r) then fs_return (count_skipped res)
         else
           fs_bind (fs_do (Move p (claimed_path V p r))) (\<lambda>_.
           fs_bind (processClaimed V p r) (\<lambda>outcome. fs_return (count_outcome outcome res)))
     | _ \<Rightarrow>
         fs_bind (deadLetter (dv_outbox V) p None Corrupt (dv_now V) None) (\<lambda>_.
         fs_return (res\<lparr>dr_deadLettered := dr_deadLettered res + 1\<rparr>)))"

fun drainFiles :: "drain_env \<Rightarrow> spool_path list \<Rightarrow> drain_result \<Rightarrow> drain_result fs_op" where
  "drainFiles V [] res = fs_return res"
| "drainFiles V (p # ps) res =
     (if dr_claimed res \<ge> dv_maxRecords V then drainFiles V ps (count_skipped res)
      else fs_bind (drainFile V p res) (drainFiles V ps))"

section \<open>Expired claims\<close>

fun parseClaimTimestamp :: "file_name \<Rightarrow> int option" where
  "parseClaimTimestamp (Claimed i t token) = Some t"
| "parseClaimTimestamp _ = None"

definition startedAt :: "spool_path \<Rightarrow> spool \<Rightarrow> int" where
  "startedAt p s = (case parseClaimTimestamp (path_name p) of Some t \<Rightarrow> t
     | None \<Rightarrow> (case map_of s p of None \<Rightarrow> 0 | Some f \<Rightarrow> sf_mtime f))"

text \<open>One file of the processing directories; the result tells whether it counts as reclaimed.\<close>

definition reclaimFile :: "drain_env \<Rightarrow> spool_path \<Rightarrow> bool fs_op" where
  "reclaimFile V p =
     (let E = dv_outbox V; now = dv_now V in
      fs_bind (fs_read (\<lambda>s. Inr (startedAt p s, readStored E p s))) (\<lambda>(started, candidate).
      if started + dv_lease V > now then fs_return False
      else case candidate of
        Inr (Some r) \<Rightarrow>
          if \<not> oe_lock E (storedRecordLockKey r) then fs_return False
          else
            (let target = pending_path (path_producer p) (rc_recordId r) in
             fs_bind (pathExists target) (\<lambda>exists.
             if exists then
               fs_bind (fs_read (readStored E target)) (\<lambda>pending.
               case pending of
                 Some x \<Rightarrow>
                   if sameStoredIntent x r then fs_bind (fs_do (Remove p)) (\<lambda>_. fs_return True)
                   else fs_bind (deadLetter E p (Some r) ExactConflict now None) (\<lambda>_. fs_return False)
               | None \<Rightarrow> fs_bind (deadLetter E p (Some r) ExactConflict now None) (\<lambda>_. fs_return False))
             else fs_bind (fs_do (Move p target)) (\<lambda>_. fs_return True)))
      | _ \<Rightarrow> fs_bind (deadLetter E p None Corrupt now None) (\<lambda>_. fs_return False)))"

fun reclaimFiles :: "drain_env \<Rightarrow> spool_path list \<Rightarrow> int \<Rightarrow> int fs_op" where
  "reclaimFiles V [] n = fs_return n"
| "reclaimFiles V (p # ps) n =
     fs_bind (reclaimFile V p) (\<lambda>b. reclaimFiles V ps (if b then n + 1 else n))"

definition reclaimExpiredProcessing :: "drain_env \<Rightarrow> int fs_op" where
  "reclaimExpiredProcessing V =
     fs_bind (fs_read (\<lambda>s. Inr (collectStateFiles Processing s))) (\<lambda>ps. reclaimFiles V ps 0)"

definition drain :: "drain_env \<Rightarrow> drain_result fs_op" where
  "drain V =
     fs_bind (reclaimExpiredProcessing V) (\<lambda>n.
     fs_bind (fs_read (\<lambda>s. Inr (sort_key (dv_rank V) (collectStateFiles Pending s)))) (\<lambda>ps.
     drainFiles V ps (emptyDrainResult\<lparr>dr_reclaimed := n\<rparr>)))"

end
