(* ===== verification/OutboxDrainFacts.thy ===== *)
theory OutboxDrainFacts
  imports OutboxDrain
begin

text \<open>
  What a drain pass does at every crash point: the spool invariant holds, a record taken up is in the
  spool, dead-lettered or accepted by the ledger, and the counters account for every file.
\<close>

lemma decode_readStored: "map_of s p = Some f \<Longrightarrow> readStored E p s = rbind (decodeStoredRecord E f) (\<lambda>r. Inr (Some r))"
  by (simp add: readStored_def)

lemma readStored_move [simp]:
  "q \<noteq> p \<Longrightarrow> readStored E p s = Inr (Some r) \<Longrightarrow> readStored E q (perform (Move p q) s) = Inr (Some r)"
  by (auto simp: readStored_Some)

lemma readStored_put:
  "isStoredRecord x \<Longrightarrow> oe_size E x \<le> MAX_RECORD_BYTES \<Longrightarrow>
    readStored E p (perform (Put p (record_file E x now)) s) = Inr (Some x)"
  by (simp add: readStored_def decode_record_file)

lemma readStored_wf: "readStored E p s = Inr (Some r) \<Longrightarrow> isStoredRecord r"
  using decode_stored by (auto simp: readStored_Some)

lemma claimed_simps [simp]:
  "path_dir (claimed_path V p r) = Processing" "path_producer (claimed_path V p r) = path_producer p"
  "path_name (claimed_path V p r) = Claimed (rc_recordId r) (dv_now V) (dv_token V p)"
  by (simp_all add: claimed_path_def)

lemma pending_simps [simp]:
  "path_dir (pending_path pr i) = Pending" "path_producer (pending_path pr i) = pr"
  "path_name (pending_path pr i) = Named i"
  by (simp_all add: pending_path_def)

lemma path_neq: "path_dir p \<noteq> path_dir q \<Longrightarrow> p \<noteq> q"
  by auto

section \<open>The invariant\<close>

lemma named_claimed: "named_ok E p r \<Longrightarrow> named_ok E (claimed_path V p r) r"
  by (simp add: named_ok_def)

lemma named_pending: "origin_ok E r \<Longrightarrow> named_ok E (pending_path pr (rc_recordId r)) r"
  by (simp add: named_ok_def)

lemma named_retried: "named_ok E p (retried r n cfg now) = named_ok E p r"
  by (simp add: named_ok_def split: state_dir.split)

lemma returnForRetry_ok:
  assumes "spool_ok (dv_outbox V) s" "readStored (dv_outbox V) c s = Inr (Some r)" "path_dir c = Processing" "0 \<le> n"
  shows "crash_safe (spool_ok (dv_outbox V)) (returnForRetry V c r n now) s"
proof -
  let ?E = "dv_outbox V" and ?x = "retried r n (dv_retry V) now" and ?t = "pending_path (path_producer c) (rc_recordId r)"
  have nm: "named_ok ?E c r" using assms(1,2) by (rule spool_ok_read)
  then have origin: "origin_ok ?E r" by (simp add: named_ok_def)
  show ?thesis
  proof (cases "oe_size ?E ?x > MAX_RECORD_BYTES - DEAD_METADATA_RESERVE_BYTES")
    case True
    with assms(1) show ?thesis by (simp add: returnForRetry_def Let_def atomicWriteRecord_def)
  next
    case False
    let ?s = "perform (Put c (record_file ?E ?x now)) s"
    have ok: "spool_ok ?E ?s" using assms(1) nm by (intro spool_ok_put) (simp_all add: named_retried)
    have "spool_ok ?E (perform (Move c ?t) ?s)"
    proof (rule spool_ok_move [OF ok])
      fix y
      assume "readStored ?E c ?s = Inr (Some y)"
      then have "y = ?x" by (auto simp: readStored_Some dest: decode_record_fileD)
      with origin show "named_ok ?E ?t y" by (simp add: named_ok_def)
    qed (use assms(3) in auto)
    moreover have "crash_safe (spool_ok ?E) (deadLetter ?E c (Some ?x) ExactConflict now None) ?s"
      using ok origin by (intro deadLetter_ok) auto
    ultimately show ?thesis
      using False assms(1) ok
      by (auto simp: returnForRetry_def Let_def atomicWriteRecord_def split: option.split)
  qed
qed

lemma processClaimed_ok:
  assumes "spool_ok (dv_outbox V) s" "readStored (dv_outbox V) (claimed_path V p r) s = Inr (Some r)"
  shows "crash_safe (spool_ok (dv_outbox V)) (processClaimed V p r) s"
proof -
  have "named_ok (dv_outbox V) (claimed_path V p r) r" using assms by (rule spool_ok_read)
  then have origin: "origin_ok (dv_outbox V) r" by (simp add: named_ok_def)
  have dead: "crash_safe (spool_ok (dv_outbox V)) (deadLetter (dv_outbox V) (claimed_path V p r) (Some r) cat now st) s"
    for cat now st using assms(1) origin by (intro deadLetter_ok) auto
  have "0 \<le> rc_attempts r + 1" using readStored_wf [OF assms(2)] by (simp add: isStoredRecord_def)
  from returnForRetry_ok [OF assms _ this]
  have "crash_safe (spool_ok (dv_outbox V)) (returnForRetry V (claimed_path V p r) r (rc_attempts r + 1) now) s" for now
    by simp
  with dead assms(1) show ?thesis
    by (simp add: processClaimed_def Let_def split: dispatch_result.split bool.split)
qed

lemma drainFile_ok:
  assumes "spool_ok (dv_outbox V) s" "path_dir p = Pending"
  shows "crash_safe (spool_ok (dv_outbox V)) (drainFile V p res) s"
proof -
  let ?E = "dv_outbox V"
  have corrupt: "crash_safe (spool_ok ?E) (deadLetter ?E p None Corrupt (dv_now V) None) s"
    using assms(1) by (intro deadLetter_ok) auto
  show ?thesis
  proof (cases "\<exists>r. readStored ?E p s = Inr (Some r)")
    case True
    then obtain r where r: "readStored ?E p s = Inr (Some r)" by blast
    let ?s = "perform (Move p (claimed_path V p r)) s"
    have ne: "claimed_path V p r \<noteq> p" using assms(2) by (intro path_neq) simp
    have "spool_ok ?E ?s"
      using assms(1) r spool_ok_read [OF assms(1) r] assms(2)
      by (intro spool_ok_move) (auto simp: named_claimed)
    then have "crash_safe (spool_ok ?E) (fs_bind (processClaimed V p r) (\<lambda>oc. fs_return (count_outcome oc res))) ?s"
      using r ne by (simp add: processClaimed_ok)
    with r assms(1) show ?thesis
      by (auto simp: drainFile_def intro!: crash_readI crash_bindI dest: crash_safe_start)
  next
    case False
    then show ?thesis
      using assms(1) corrupt by (auto simp: drainFile_def split: sum.split option.split)
  qed
qed

lemma drainFiles_ok:
  assumes "spool_ok (dv_outbox V) s" "\<forall>p \<in> set ps. path_dir p = Pending"
  shows "crash_safe (spool_ok (dv_outbox V)) (drainFiles V ps res) s"
  using assms
proof (induction V ps res arbitrary: s rule: drainFiles.induct)
  case (1 V res)
  then show ?case by simp
next
  case (2 V p ps res)
  show ?case
  proof (cases "dr_claimed res \<ge> dv_maxRecords V")
    case True
    with 2 show ?thesis by simp
  next
    case False
    have c: "crash_safe (spool_ok (dv_outbox V)) (drainFile V p res) s"
      using 2(3,4) by (intro drainFile_ok) auto
    with False 2(2) 2(4) show ?thesis by (auto intro: crash_bindI)
  qed
qed

lemma reclaimFile_ok:
  assumes "spool_ok (dv_outbox V) s" "path_dir p = Processing"
  shows "crash_safe (spool_ok (dv_outbox V)) (reclaimFile V p) s"
proof -
  let ?E = "dv_outbox V"
  have corrupt: "crash_safe (spool_ok ?E) (deadLetter ?E p None Corrupt (dv_now V) None) s"
    using assms(1) by (intro deadLetter_ok) auto
  have dead: "crash_safe (spool_ok ?E) (deadLetter ?E p (Some r) ExactConflict (dv_now V) None) s"
    and move: "spool_ok ?E (perform (Move p (pending_path (path_producer p) (rc_recordId r))) s)"
    if r: "readStored ?E p s = Inr (Some r)" for r
  proof -
    have origin: "origin_ok ?E r" using spool_ok_read [OF assms(1) r] by (simp add: named_ok_def)
    then show "crash_safe (spool_ok ?E) (deadLetter ?E p (Some r) ExactConflict (dv_now V) None) s"
      using assms(1) by (intro deadLetter_ok) auto
    show "spool_ok ?E (perform (Move p (pending_path (path_producer p) (rc_recordId r))) s)"
      using assms r origin by (intro spool_ok_move) (auto simp: named_pending)
  qed
  show ?thesis
  proof (cases "\<exists>r. readStored ?E p s = Inr (Some r)")
    case True
    then obtain r where r: "readStored ?E p s = Inr (Some r)" by blast
    then show ?thesis
      using assms(1) dead [OF r] move [OF r]
      by (simp add: reclaimFile_def Let_def split: option.split)
  next
    case False
    then show ?thesis
      using assms(1) corrupt by (auto simp: reclaimFile_def Let_def split: sum.split option.split)
  qed
qed

lemma reclaimFiles_ok:
  assumes "spool_ok (dv_outbox V) s" "\<forall>p \<in> set ps. path_dir p = Processing"
  shows "crash_safe (spool_ok (dv_outbox V)) (reclaimFiles V ps n) s"
  using assms
proof (induction V ps n arbitrary: s rule: reclaimFiles.induct)
  case (2 V p ps n)
  have c: "crash_safe (spool_ok (dv_outbox V)) (reclaimFile V p) s"
    using 2(2,3) by (intro reclaimFile_ok) auto
  show ?case unfolding reclaimFiles.simps
    using c 2(1) 2(3) by (intro crash_bindI) auto
qed simp

lemma drain_ok:
  assumes "spool_ok (dv_outbox V) s"
  shows "crash_safe (spool_ok (dv_outbox V)) (drain V) s"
proof -
  have re: "crash_safe (spool_ok (dv_outbox V)) (reclaimExpiredProcessing V) s"
    unfolding reclaimExpiredProcessing_def using assms
    by (intro crash_readI reclaimFiles_ok) (auto simp: collectStateFiles_def)
  show ?thesis unfolding drain_def
    by (intro crash_bindI crash_readI re drainFiles_ok) (auto simp: collectStateFiles_def)
qed

section \<open>Nothing else is disturbed\<close>

text \<open>A path outside the dead directory keeps its file; a dead letter is never removed.\<close>

definition undisturbed :: "spool_path \<Rightarrow> spool_file option \<Rightarrow> spool \<Rightarrow> bool" where
  "undisturbed u v t \<longleftrightarrow> (if path_dir u = DeadDir then map_of t u \<noteq> None else map_of t u = v)"

lemma undisturbed_perform:
  "undisturbed u v s \<Longrightarrow> u \<noteq> q \<or> path_dir u = DeadDir \<Longrightarrow> undisturbed u v (perform (Put q f) s)"
  "undisturbed u v s \<Longrightarrow> u \<noteq> q \<Longrightarrow> undisturbed u v (perform (Remove q) s)"
  "undisturbed u v s \<Longrightarrow> u \<noteq> q \<Longrightarrow> u \<noteq> q' \<Longrightarrow> undisturbed u v (perform (Move q q') s)"
  by (auto simp: undisturbed_def split: option.split)

lemma deadLetter_undisturbed:
  assumes "undisturbed u v s" "u \<noteq> q" "path_dir q \<noteq> DeadDir"
  shows "crash_safe (undisturbed u v) (deadLetter E q rec cat now st) s"
proof -
  have put: "undisturbed u v (perform (Put (Path pr DeadDir nm) f) s)" for pr nm f
    using assms(1) by (intro undisturbed_perform) auto
  with assms show ?thesis
    by (auto simp: deadLetter_def atomicWriteDeadRecord_def Let_def undisturbed_perform(2))
qed

lemma returnForRetry_undisturbed:
  assumes "undisturbed u v s" "u \<noteq> c" "u \<noteq> pending_path (path_producer c) (rc_recordId r)" "path_dir c = Processing"
  shows "crash_safe (undisturbed u v) (returnForRetry V c r n now) s"
proof -
  let ?x = "retried r n (dv_retry V) now"
  let ?s = "perform (Put c (record_file (dv_outbox V) ?x now)) s"
  have 1: "undisturbed u v ?s" using assms by (intro undisturbed_perform) auto
  have 2: "crash_safe (undisturbed u v) (deadLetter (dv_outbox V) c (Some ?x) ExactConflict now None) ?s"
    using 1 assms by (intro deadLetter_undisturbed) auto
  have 3: "undisturbed u v (perform (Remove c) ?s)"
    "undisturbed u v (perform (Move c (pending_path (path_producer c) (rc_recordId r))) ?s)"
    using 1 assms by (auto intro: undisturbed_perform)
  from 1 2 3 assms(1) show ?thesis
    by (simp add: returnForRetry_def Let_def atomicWriteRecord_def split: option.split)
qed

lemma processClaimed_undisturbed:
  assumes "undisturbed u v s" "u \<noteq> claimed_path V q r" "u \<noteq> pending_path (path_producer q) (rc_recordId r)"
  shows "crash_safe (undisturbed u v) (processClaimed V q r) s"
proof -
  have "crash_safe (undisturbed u v) (deadLetter (dv_outbox V) (claimed_path V q r) (Some r) cat now st) s" for cat now st
    using assms by (intro deadLetter_undisturbed) auto
  moreover have "crash_safe (undisturbed u v) (returnForRetry V (claimed_path V q r) r n now) s" for n now
    using assms by (intro returnForRetry_undisturbed) auto
  moreover have "undisturbed u v (perform (Remove (claimed_path V q r)) s)"
    using assms by (intro undisturbed_perform)
  ultimately show ?thesis using assms(1)
    by (simp add: processClaimed_def Let_def split: dispatch_result.split bool.split)
qed

lemma drainFile_undisturbed:
  assumes "spool_ok (dv_outbox V) s" "undisturbed u v s" "path_dir q = Pending" "u \<noteq> q"
    "\<And>r. readStored (dv_outbox V) q s = Inr (Some r) \<Longrightarrow> u \<noteq> claimed_path V q r"
  shows "crash_safe (undisturbed u v) (drainFile V q res) s"
proof -
  let ?E = "dv_outbox V"
  have corrupt: "crash_safe (undisturbed u v) (deadLetter ?E q None Corrupt (dv_now V) None) s"
    using assms by (intro deadLetter_undisturbed) auto
  show ?thesis
  proof (cases "\<exists>r. readStored ?E q s = Inr (Some r)")
    case True
    then obtain r where r: "readStored ?E q s = Inr (Some r)" by blast
    have "q = pending_path (path_producer q) (rc_recordId r)"
      using spool_ok_read [OF assms(1) r] assms(3) by (cases q) (simp add: named_ok_def pending_path_def)
    with assms(4) have "u \<noteq> pending_path (path_producer q) (rc_recordId r)" by simp
    moreover have "undisturbed u v (perform (Move q (claimed_path V q r)) s)"
      using assms(2,4) assms(5) [OF r] by (intro undisturbed_perform)
    ultimately have "crash_safe (undisturbed u v) (processClaimed V q r) (perform (Move q (claimed_path V q r)) s)"
      using assms(5) [OF r] by (intro processClaimed_undisturbed)
    with r assms(2) show ?thesis by (simp add: drainFile_def)
  next
    case False
    with assms(2) corrupt show ?thesis by (auto simp: drainFile_def split: sum.split option.split)
  qed
qed

section \<open>A record of the list\<close>

definition dead_path :: "spool_path \<Rightarrow> stored \<Rightarrow> spool_path" where
  "dead_path p r = Path (path_producer p) DeadDir (Named (rc_recordId r))"

text \<open>Where the intent of a pending record can be during a pass.\<close>

definition accounted :: "drain_env \<Rightarrow> spool_path \<Rightarrow> stored \<Rightarrow> spool \<Rightarrow> bool" where
  "accounted V p r t \<longleftrightarrow> active_at (dv_outbox V) p r t \<or> active_at (dv_outbox V) (claimed_path V p r) r t
     \<or> map_of t (dead_path p r) \<noteq> None \<or> dispatch V p r = Accepted"

lemma dead_path_simps [simp]:
  "path_dir (dead_path p r) = DeadDir" "path_producer (dead_path p r) = path_producer p"
  "path_name (dead_path p r) = Named (rc_recordId r)"
  by (simp_all add: dead_path_def)

lemma active_undisturbed:
  assumes "active_at E p r s" "path_dir p \<noteq> DeadDir"
  shows "undisturbed p (map_of s p) s" "undisturbed p (map_of s p) t \<Longrightarrow> active_at E p r t"
  using assms by (auto simp: undisturbed_def active_at_def readStored_def)

lemma deadLetter_accounted:
  assumes "readStored (dv_outbox V) (claimed_path V p r) s = Inr (Some x)" "sameStoredIntent r x" "cat \<noteq> Corrupt"
  shows "crash_safe (accounted V p r) (deadLetter (dv_outbox V) (claimed_path V p r) (Some x) cat now st) s"
proof -
  have "active_at (dv_outbox V) (claimed_path V p r) r s" using assms(1,2) by (auto simp: active_at_def)
  moreover have "rc_recordId x = rc_recordId r" using assms(2) by (simp add: sameStoredIntent_def)
  moreover have "claimed_path V p r \<noteq> dead_path p r" by (intro path_neq) simp
  ultimately show ?thesis using assms(3)
    by (auto simp: deadLetter_def Let_def atomicWriteDeadRecord_def accounted_def dead_path_def)
qed

lemma returnForRetry_accounted:
  assumes "readStored (dv_outbox V) (claimed_path V p r) s = Inr (Some r)" "map_of s p = None"
    "p = pending_path (path_producer p) (rc_recordId r)" "0 \<le> n"
  shows "crash_safe (accounted V p r) (returnForRetry V (claimed_path V p r) r n now) s"
proof -
  let ?E = "dv_outbox V" and ?c = "claimed_path V p r" and ?x = "retried r n (dv_retry V) now"
  have start: "accounted V p r s" using assms(1) by (auto simp: accounted_def active_at_def)
  have wf: "isStoredRecord ?x" using readStored_wf [OF assms(1)] assms(4) by (rule isStoredRecord_retried)
  have ne: "?c \<noteq> p" using assms(3) by (intro path_neq) (metis claimed_simps(1) pending_simps(1) state_dir.distinct(1))
  show ?thesis
  proof (cases "oe_size ?E ?x > MAX_RECORD_BYTES - DEAD_METADATA_RESERVE_BYTES")
    case True
    with start show ?thesis by (simp add: returnForRetry_def Let_def atomicWriteRecord_def)
  next
    case False
    let ?s = "perform (Put ?c (record_file ?E ?x now)) s"
    have put: "readStored ?E ?c ?s = Inr (Some ?x)"
      by (rule readStored_put [OF wf]) (use False in \<open>simp add: DEAD_METADATA_RESERVE_BYTES_def\<close>)
    have "accounted V p r ?s" using put by (auto simp: accounted_def active_at_def)
    moreover have "readStored ?E p (perform (Move ?c p) ?s) = Inr (Some ?x)"
      using put ne by (intro readStored_move) auto
    then have "accounted V p r (perform (Move ?c p) ?s)" by (auto simp: accounted_def active_at_def)
    moreover have "map_of ?s p = None" using ne assms(2) by simp
    ultimately show ?thesis
      using False start assms(3) by (simp add: returnForRetry_def Let_def atomicWriteRecord_def)
  qed
qed

lemma drainFile_accounted:
  assumes "spool_ok (dv_outbox V) s" "readStored (dv_outbox V) p s = Inr (Some r)" "path_dir p = Pending"
  shows "crash_safe (accounted V p r) (drainFile V p res) s"
proof -
  let ?E = "dv_outbox V" and ?c = "claimed_path V p r"
  let ?s = "perform (Move p ?c) s"
  have start: "accounted V p r s" using assms(2) by (auto simp: accounted_def active_at_def)
  have p: "p = pending_path (path_producer p) (rc_recordId r)"
    using spool_ok_read [OF assms(1,2)] assms(3) by (cases p) (simp add: named_ok_def pending_path_def)
  have ne: "?c \<noteq> p" using assms(3) by (intro path_neq) simp
  have c: "readStored ?E ?c ?s = Inr (Some r)" using ne assms(2) by (rule readStored_move)
  have gone: "map_of ?s p = None" using ne by (auto split: option.split)
  have s': "accounted V p r ?s" using c by (auto simp: accounted_def active_at_def)
  have dead: "crash_safe (accounted V p r) (deadLetter ?E ?c (Some r) cat now st) ?s" if "cat \<noteq> Corrupt" for cat now st
    using deadLetter_accounted [OF c _ that] by simp
  have "0 \<le> rc_attempts r + 1" using readStored_wf [OF assms(2)] by (simp add: isStoredRecord_def)
  then have ret: "crash_safe (accounted V p r) (returnForRetry V ?c r (rc_attempts r + 1) now) ?s" for now
    using returnForRetry_accounted [OF c gone p] by blast
  have acc: "accounted V p r t" if "dispatch V p r = Accepted" for t using that by (simp add: accounted_def)
  have "crash_safe (accounted V p r) (processClaimed V p r) ?s"
    using dead ret s' acc by (simp add: processClaimed_def Let_def split: dispatch_result.split bool.split)
  with assms(2) start show ?thesis by (simp add: drainFile_def)
qed

lemma drainFile_others_accounted:
  assumes "spool_ok (dv_outbox V) s" "accounted V p r s" "path_dir q = Pending" "q \<noteq> p"
    "path_dir p = Pending" "path_name p = Named (rc_recordId r)"
  shows "crash_safe (accounted V p r) (drainFile V q res) s"
proof -
  let ?E = "dv_outbox V"
  have other: "claimed_path V p r \<noteq> claimed_path V q x \<and> p \<noteq> claimed_path V q x \<and> dead_path p r \<noteq> claimed_path V q x"
    if "readStored ?E q s = Inr (Some x)" for x
  proof -
    have "path_name q = Named (rc_recordId x)" using spool_ok_read [OF assms(1) that] assms(3) by (simp add: named_ok_def)
    moreover have "p = Path (path_producer p) (path_dir p) (path_name p)" "q = Path (path_producer q) (path_dir q) (path_name q)"
      by simp_all
    ultimately show ?thesis using assms(3-6) path_neq by (force simp: claimed_path_def dead_path_def)
  qed
  have keep: "crash_safe (active_at ?E u r) (drainFile V q res) s"
    if "active_at ?E u r s" "path_dir u \<noteq> DeadDir" "u \<noteq> q" "\<And>x. readStored ?E q s = Inr (Some x) \<Longrightarrow> u \<noteq> claimed_path V q x" for u
    by (rule crash_safe_mono [OF drainFile_undisturbed [OF assms(1) active_undisturbed(1) [OF that(1,2)] assms(3) that(3,4)]])
      (use active_undisturbed(2) [OF that(1,2)] in auto)
  have pc: "claimed_path V p r \<noteq> q" "dead_path p r \<noteq> q" using assms(3) by (auto intro: path_neq)
  from assms(2) consider "active_at ?E p r s" | "active_at ?E (claimed_path V p r) r s"
    | "map_of s (dead_path p r) \<noteq> None" | "dispatch V p r = Accepted" unfolding accounted_def by blast
  then show ?thesis
  proof cases
    case 1
    have "crash_safe (active_at ?E p r) (drainFile V q res) s"
      using 1 assms(4,5) other by (intro keep) auto
    then show ?thesis by (rule crash_safe_mono) (simp add: accounted_def)
  next
    case 2
    have "crash_safe (active_at ?E (claimed_path V p r) r) (drainFile V q res) s"
      using 2 pc other by (intro keep) auto
    then show ?thesis by (rule crash_safe_mono) (simp add: accounted_def)
  next
    case 3
    then have "undisturbed (dead_path p r) None s" by (simp add: undisturbed_def)
    then have "crash_safe (undisturbed (dead_path p r) None) (drainFile V q res) s"
      using assms(1,3) pc other by (intro drainFile_undisturbed) auto
    then show ?thesis by (rule crash_safe_mono) (simp add: accounted_def undisturbed_def)
  next
    case 4
    then show ?thesis by (simp add: crash_safe_def accounted_def)
  qed
qed

lemma drainFiles_later:
  assumes "spool_ok (dv_outbox V) s" "accounted V p r s" "\<forall>q \<in> set ps. path_dir q = Pending" "p \<notin> set ps"
    "path_dir p = Pending" "path_name p = Named (rc_recordId r)"
  shows "crash_safe (accounted V p r) (drainFiles V ps res) s"
  using assms
proof (induction ps arbitrary: s res)
  case Nil
  then show ?case by simp
next
  case (Cons q ps)
  show ?case
  proof (cases "dr_claimed res \<ge> dv_maxRecords V")
    case True
    with Cons show ?thesis by simp
  next
    case False
    have a: "crash_safe (accounted V p r) (drainFile V q res) s"
      using Cons.prems by (intro drainFile_others_accounted) auto
    have o: "crash_safe (spool_ok (dv_outbox V)) (drainFile V q res) s"
      using Cons.prems by (intro drainFile_ok) auto
    have "crash_safe (accounted V p r) (fs_bind (drainFile V q res) (drainFiles V ps)) s"
    proof (rule crash_bindI [OF a])
      fix x
      assume "accounted V p r (fs_final (drainFile V q res) s)"
      with crash_safe_final [OF o] Cons show "crash_safe (accounted V p r) (drainFiles V ps x) (fs_final (drainFile V q res) s)"
        by auto
    qed
    with False show ?thesis by simp
  qed
qed

lemma readStored_undisturbed:
  assumes "readStored E p s = Inr (Some r)" "path_dir p \<noteq> DeadDir"
  shows "undisturbed p (map_of s p) s" "undisturbed p (map_of s p) t \<Longrightarrow> readStored E p t = Inr (Some r)"
  using assms by (auto simp: undisturbed_def readStored_def)

lemma drainFiles_accounted:
  assumes "spool_ok (dv_outbox V) s" "readStored (dv_outbox V) p s = Inr (Some r)" "path_dir p = Pending"
    "\<forall>q \<in> set ps. path_dir q = Pending" "distinct ps"
  shows "crash_safe (accounted V p r) (drainFiles V ps res) s"
  using assms
proof (induction ps arbitrary: s res)
  case Nil
  then show ?case by (auto simp: accounted_def active_at_def)
next
  case (Cons q ps)
  show ?case
  proof (cases "dr_claimed res \<ge> dv_maxRecords V")
    case True
    with Cons show ?thesis by simp
  next
    case False
    have o: "crash_safe (spool_ok (dv_outbox V)) (drainFile V q res) s"
      using Cons.prems by (intro drainFile_ok) auto
    have nm: "path_name p = Named (rc_recordId r)"
      using spool_ok_read [OF Cons.prems(1,2)] Cons.prems(3) by (simp add: named_ok_def)
    have "crash_safe (accounted V p r) (fs_bind (drainFile V q res) (drainFiles V ps)) s"
    proof (cases "q = p")
      case True
      have a: "crash_safe (accounted V p r) (drainFile V q res) s"
        unfolding True using Cons.prems by (intro drainFile_accounted) auto
      show ?thesis
      proof (rule crash_bindI [OF a])
        fix x
        assume "accounted V p r (fs_final (drainFile V q res) s)"
        with crash_safe_final [OF o] Cons.prems True nm
        show "crash_safe (accounted V p r) (drainFiles V ps x) (fs_final (drainFile V q res) s)"
          by (intro drainFiles_later) auto
      qed
    next
      case False
      note u = readStored_undisturbed [OF Cons.prems(2)]
      have keep: "crash_safe (undisturbed p (map_of s p)) (drainFile V q res) s"
        using Cons.prems False u(1) by (intro drainFile_undisturbed) (auto intro: path_neq)
      have same: "readStored (dv_outbox V) p t = Inr (Some r)" if "undisturbed p (map_of s p) t" for t
        using u(2) that Cons.prems(3) by simp
      have a: "crash_safe (accounted V p r) (drainFile V q res) s"
        by (rule crash_safe_mono [OF keep]) (use same in \<open>auto simp: accounted_def active_at_def\<close>)
      show ?thesis
      proof (rule crash_bindI [OF a])
        fix x
        show "crash_safe (accounted V p r) (drainFiles V ps x) (fs_final (drainFile V q res) s)"
          using crash_safe_final [OF o] same [OF crash_safe_final [OF keep]] Cons by auto
      qed
    qed
    with False show ?thesis by simp
  qed
qed

section \<open>Expired claims return\<close>

lemma reclaimFile_undisturbed:
  assumes "undisturbed u v s" "v \<noteq> None" "u \<noteq> q" "path_dir q = Processing"
  shows "crash_safe (undisturbed u v) (reclaimFile V q) s"
proof -
  let ?E = "dv_outbox V"
  have dead: "crash_safe (undisturbed u v) (deadLetter ?E q rec cat now st) s" for rec cat now st
    using assms by (intro deadLetter_undisturbed) auto
  have rm: "undisturbed u v (perform (Remove q) s)" using assms by (intro undisturbed_perform)
  have mv: "undisturbed u v (perform (Move q (pending_path pr i)) s)" if "map_of s (pending_path pr i) = None" for pr i
  proof -
    have "u \<noteq> pending_path pr i" using assms(1,2) that by (auto simp: undisturbed_def split: if_splits)
    with assms show ?thesis by (intro undisturbed_perform)
  qed
  show ?thesis
    using assms(1) dead rm mv
    by (auto simp: reclaimFile_def Let_def split: sum.split option.split)
qed

lemma reclaimFiles_undisturbed:
  assumes "undisturbed u v s" "v \<noteq> None" "path_dir u = Pending" "\<forall>q \<in> set ps. path_dir q = Processing"
  shows "crash_safe (undisturbed u v) (reclaimFiles V ps n) s"
  using assms
proof (induction V ps n arbitrary: s rule: reclaimFiles.induct)
  case (2 V p ps n)
  have a: "crash_safe (undisturbed u v) (reclaimFile V p) s"
    using 2 by (intro reclaimFile_undisturbed) auto
  show ?case unfolding reclaimFiles.simps using a 2 by (intro crash_bindI) auto
qed simp

text \<open>A claimed record is still claimed, back in pending (or its intent already was), or dead.\<close>

definition reclaim_accounted :: "outbox_env \<Rightarrow> spool_path \<Rightarrow> stored \<Rightarrow> spool \<Rightarrow> bool" where
  "reclaim_accounted E p r t \<longleftrightarrow> active_at E p r t
     \<or> active_at E (pending_path (path_producer p) (rc_recordId r)) r t \<or> dead_at E (path_producer p) r t"

lemma reclaimFile_accounted:
  assumes "readStored (dv_outbox V) p s = Inr (Some r)" "path_dir p = Processing"
  shows "crash_safe (reclaim_accounted (dv_outbox V) p r) (reclaimFile V p) s"
proof -
  let ?E = "dv_outbox V" and ?t = "pending_path (path_producer p) (rc_recordId r)"
  have ne: "?t \<noteq> p" using assms(2) by (intro path_neq) simp
  have start: "reclaim_accounted ?E p r s" using assms(1) by (auto simp: reclaim_accounted_def active_at_def)
  have "crash_safe (kept ?E p r) (deadLetter ?E p (Some r) ExactConflict (dv_now V) None) s"
    using assms by (intro deadLetter_keeps) (auto simp: active_at_def status_ok_def)
  then have dead: "crash_safe (reclaim_accounted ?E p r) (deadLetter ?E p (Some r) ExactConflict (dv_now V) None) s"
    by (rule crash_safe_mono) (auto simp: kept_def reclaim_accounted_def)
  have "readStored ?E ?t (perform (Move p ?t) s) = Inr (Some r)" using ne assms(1) by (rule readStored_move)
  then have mv: "reclaim_accounted ?E p r (perform (Move p ?t) s)"
    by (auto simp: reclaim_accounted_def active_at_def)
  have rm: "reclaim_accounted ?E p r (perform (Remove p) s)"
    if "readStored ?E ?t s = Inr (Some x)" "sameStoredIntent x r" for x
  proof -
    have "active_at ?E ?t r s" using that sameStoredIntent_sym by (auto simp: active_at_def)
    then have "active_at ?E ?t r (perform (Remove p) s)" using ne by (simp add: active_at_other)
    then show ?thesis by (simp add: reclaim_accounted_def)
  qed
  show ?thesis
    using assms(1) start dead mv rm by (auto simp: reclaimFile_def Let_def split: option.split)
qed

section \<open>Counting\<close>

definition seen :: "drain_result \<Rightarrow> int" where
  "seen res = dr_completed res + dr_retryScheduled res + dr_deadLettered res + dr_skipped res"

lemma count_outcome_seen [simp]: "seen (count_outcome oc res) = seen res + 1"
  by (cases oc) (simp_all add: seen_def count_outcome_def)

lemma count_outcome_claimed [simp]: "dr_claimed (count_outcome oc res) = dr_claimed res + 1"
  by (cases oc) (simp_all add: count_outcome_def)

lemma drainFile_counts:
  assumes "fs_result (drainFile V p res) s = Inr res'"
  shows "seen res' = seen res + 1 \<and> dr_claimed res' \<le> dr_claimed res + 1"
proof (cases "\<exists>r. readStored (dv_outbox V) p s = Inr (Some r)")
  case True
  with assms show ?thesis
    by (auto simp: drainFile_def count_skipped_def seen_def [of "res\<lparr>dr_skipped := _\<rparr>"] seen_def [of res]
        split: if_splits sum.splits)
next
  case False
  then have "fs_result (drainFile V p res) s = Inr res' \<Longrightarrow> res' = res\<lparr>dr_deadLettered := dr_deadLettered res + 1\<rparr>"
    by (auto simp: drainFile_def split: sum.splits option.splits)
  with assms show ?thesis by (simp add: seen_def)
qed

lemma drainFile_claims:
  assumes "fs_result (drainFile V p res) s = Inr res'"
  shows "dr_claimed res \<le> dr_claimed res'"
proof (cases "\<exists>r. readStored (dv_outbox V) p s = Inr (Some r)")
  case True
  with assms show ?thesis by (auto simp: drainFile_def count_skipped_def split: if_splits sum.splits)
next
  case False
  with assms show ?thesis by (auto simp: drainFile_def split: sum.splits option.splits)
qed

lemma drainFiles_counts:
  assumes "fs_result (drainFiles V ps res) s = Inr res'" "dr_claimed res \<le> max 0 (dv_maxRecords V)" "0 \<le> dr_claimed res"
  shows "seen res' = seen res + int (length ps) \<and> dr_claimed res' \<le> max 0 (dv_maxRecords V)"
  using assms
proof (induction ps arbitrary: res s)
  case Nil
  then show ?case by simp
next
  case (Cons p ps)
  show ?case
  proof (cases "dr_claimed res \<ge> dv_maxRecords V")
    case True
    with Cons.prems Cons.IH [of "count_skipped res" s] show ?thesis
      by (simp add: count_skipped_def seen_def)
  next
    case False
    with Cons.prems(1) obtain res1 where r: "fs_result (drainFile V p res) s = Inr res1"
      "fs_result (drainFiles V ps res1) (fs_final (drainFile V p res) s) = Inr res'"
      by (auto split: sum.splits)
    from drainFile_counts [OF r(1)] drainFile_claims [OF r(1)] Cons.IH [OF r(2)] False Cons.prems(2,3)
    show ?thesis by auto
  qed
qed

end
