(* ===== verification/OutboxLiveness.thy ===== *)
theory OutboxLiveness
  imports OutboxDrainFacts
begin

text \<open>
  Bounds of the retry delay, and the end of a record whose dispatch keeps failing: after as many due
  passes as attempts are left it is in the dead-letter directory.
\<close>

definition cfg_ok :: "retry_configuration \<Rightarrow> bool" where
  "cfg_ok cfg \<longleftrightarrow> 1 \<le> rt_maxAttempts cfg \<and> 1 \<le> rt_retryBaseDelayMs cfg \<and> 1 \<le> rt_retryMaxDelayMs cfg"

lemma boundedInteger_bounds:
  "minimum \<le> fallback \<Longrightarrow> fallback \<le> maximum \<Longrightarrow> minimum \<le> boundedInteger v fallback minimum maximum
    \<and> boundedInteger v fallback minimum maximum \<le> maximum"
  by (auto simp: boundedInteger_def split: option.split jsnum.split)

lemma make_retry_ok: "cfg_ok (make_retry a b c) \<and> rt_maxAttempts (make_retry a b c) \<le> 1000"
  using boundedInteger_bounds [of 1 32 1000 a] boundedInteger_bounds [of 1 1000 "60 * 60000" b]
    boundedInteger_bounds [of 1 "15 * 60000" "24 * 60 * 60000" c]
  by (simp add: cfg_ok_def make_retry_def)

lemma retryDelayMs_le: "retryDelayMs n cfg \<le> rt_retryMaxDelayMs cfg"
  by (simp add: retryDelayMs_def Let_def)

lemma retryDelayMs_pos: "cfg_ok cfg \<Longrightarrow> 1 \<le> retryDelayMs n cfg"
  using mult_mono [of 1 "rt_retryBaseDelayMs cfg" 1 "2 ^ nat (min (max (n - 1) 0) 30)"]
  by (simp add: retryDelayMs_def Let_def cfg_ok_def)

lemma retryDelayMs_mono:
  assumes "m \<le> n" "0 \<le> rt_retryBaseDelayMs cfg"
  shows "retryDelayMs m cfg \<le> retryDelayMs n cfg"
proof -
  have "(2::int) ^ nat (min (max (m - 1) 0) 30) \<le> 2 ^ nat (min (max (n - 1) 0) 30)"
    using assms(1) by (intro power_increasing) auto
  then have "rt_retryBaseDelayMs cfg * 2 ^ nat (min (max (m - 1) 0) 30)
      \<le> rt_retryBaseDelayMs cfg * 2 ^ nat (min (max (n - 1) 0) 30)"
    using assms(2) by (intro mult_left_mono)
  then show ?thesis by (simp add: retryDelayMs_def Let_def min.coboundedI1)
qed

section \<open>One failing attempt\<close>

text \<open>Every version of the record fits into a file, alone and as a dead letter.\<close>

definition fits :: "outbox_env \<Rightarrow> stored \<Rightarrow> bool" where
  "fits E r \<longleftrightarrow> (\<forall>x. sameStoredIntent r x \<longrightarrow> oe_size E x \<le> MAX_RECORD_BYTES - DEAD_METADATA_RESERVE_BYTES
     \<and> (\<forall>t cat status. oe_deadSize E (DeadRecord x t cat status) \<le> MAX_RECORD_BYTES))"

definition never_accepts :: "drain_env \<Rightarrow> spool_path \<Rightarrow> bool" where
  "never_accepts V p \<longleftrightarrow> (\<forall>c. dv_ledger V p c \<noteq> Accepted)"

lemma dispatch_fails: "never_accepts V p \<Longrightarrow> dispatch V p r \<noteq> Accepted"
  by (simp add: never_accepts_def dispatch_def split: option.split)

lemma deadLetter_final:
  assumes "cat \<noteq> Corrupt" "oe_deadSize E (DeadRecord x now cat status) \<le> MAX_RECORD_BYTES" "path_dir q \<noteq> DeadDir"
  shows "map_of (fs_final (deadLetter E q (Some x) cat now status) s) q = None
    \<and> map_of (fs_final (deadLetter E q (Some x) cat now status) s) (dead_path q x) \<noteq> None
    \<and> (\<forall>u. u \<noteq> q \<and> path_dir u \<noteq> DeadDir \<longrightarrow> map_of (fs_final (deadLetter E q (Some x) cat now status) s) u = map_of s u)"
proof -
  have "dead_path q x \<noteq> q" using assms(3) by (intro path_neq) simp
  with assms show ?thesis by (auto simp: deadLetter_def Let_def atomicWriteDeadRecord_def dead_path_def)
qed

lemma returnForRetry_final:
  assumes "readStored (dv_outbox V) c s = Inr (Some r)" "map_of s t = None" "path_dir c = Processing" "0 \<le> n"
    "t = pending_path (path_producer c) (rc_recordId r)"
    "oe_size (dv_outbox V) (retried r n (dv_retry V) now) \<le> MAX_RECORD_BYTES - DEAD_METADATA_RESERVE_BYTES"
  shows "readStored (dv_outbox V) t (fs_final (returnForRetry V c r n now) s) = Inr (Some (retried r n (dv_retry V) now))"
proof -
  let ?x = "retried r n (dv_retry V) now"
  let ?s = "perform (Put c (record_file (dv_outbox V) ?x now)) s"
  have wf: "isStoredRecord ?x" using readStored_wf [OF assms(1)] assms(4) by (rule isStoredRecord_retried)
  have ne: "t \<noteq> c" using assms(3,5) by (intro path_neq) simp
  have "readStored (dv_outbox V) c ?s = Inr (Some ?x)"
    by (rule readStored_put [OF wf]) (use assms(6) in \<open>simp add: DEAD_METADATA_RESERVE_BYTES_def\<close>)
  then have "readStored (dv_outbox V) t (perform (Move c t) ?s) = Inr (Some ?x)" using ne by (intro readStored_move)
  with assms(2,5,6) ne show ?thesis
    by (simp add: returnForRetry_def Let_def atomicWriteRecord_def)
qed

lemma failing_attempt:
  fixes V p res s x
  assumes "spool_ok (dv_outbox V) s" "readStored (dv_outbox V) p s = Inr (Some x)" "path_dir p = Pending"
    "rc_nextAttemptAt x \<le> dv_now V" "oe_lock (dv_outbox V) (storedRecordLockKey x)" "never_accepts V p"
    "fits (dv_outbox V) x"
  defines "s' \<equiv> fs_final (drainFile V p res) s"
  shows "map_of s' p = None \<and> map_of s' (dead_path p x) \<noteq> None
    \<or> rc_attempts x + 1 < rt_maxAttempts (dv_retry V)
      \<and> readStored (dv_outbox V) p s' = Inr (Some (retried x (rc_attempts x + 1) (dv_retry V) (dv_clock V p)))"
proof -
  let ?E = "dv_outbox V" and ?c = "claimed_path V p x"
  let ?s = "perform (Move p ?c) s"
  have p: "p = pending_path (path_producer p) (rc_recordId x)"
    using spool_ok_read [OF assms(1,2)] assms(3) by (cases p) (simp add: named_ok_def pending_path_def)
  have ne: "?c \<noteq> p" using assms(3) by (intro path_neq) simp
  have c: "readStored ?E ?c ?s = Inr (Some x)" using ne assms(2) by (rule readStored_move)
  have gone: "map_of ?s p = None" using ne by (auto split: option.split)
  have pos: "0 \<le> rc_attempts x + 1" using readStored_wf [OF assms(2)] by (simp add: isStoredRecord_def)
  have fit: "oe_size ?E (retried x n cfg t) \<le> MAX_RECORD_BYTES - DEAD_METADATA_RESERVE_BYTES"
    "oe_deadSize ?E (DeadRecord x t cat st) \<le> MAX_RECORD_BYTES" for n cfg t cat st
    using assms(7) unfolding fits_def by (simp_all only: same_retried' sameStoredIntent_refl simp_thms)
  have dp: "dead_path ?c x = dead_path p x" by (simp add: dead_path_def)
  have dead: "map_of (fs_final (deadLetter ?E ?c (Some x) cat t st) ?s) p = None
      \<and> map_of (fs_final (deadLetter ?E ?c (Some x) cat t st) ?s) (dead_path p x) \<noteq> None" if "cat \<noteq> Corrupt" for cat t st
    using deadLetter_final [OF that fit(2), of ?c t st ?s] gone ne assms(3) dp by auto
  have ret: "readStored ?E p (fs_final (returnForRetry V ?c x (rc_attempts x + 1) t) ?s)
      = Inr (Some (retried x (rc_attempts x + 1) (dv_retry V) t))" for t
    using returnForRetry_final [OF c gone _ pos _ fit(1)] p by simp
  have final: "s' = fs_final (processClaimed V p x) ?s"
    using assms(2,4,5) by (simp add: s'_def drainFile_def split: sum.split)
  show ?thesis
    using dispatch_fails [OF assms(6), of x] dead ret
    unfolding final by (auto simp: processClaimed_def Let_def split: dispatch_result.split bool.split sum.split)
qed

section \<open>Repeated passes\<close>

text \<open>A pass takes up the file only when it is in the pending directory.\<close>

definition pass :: "spool_path \<Rightarrow> drain_env \<Rightarrow> spool \<Rightarrow> spool" where
  "pass p V s = (if map_of s p = None then s else fs_final (drainFile V p emptyDrainResult) s)"

fun due_chain :: "retry_configuration \<Rightarrow> spool_path \<Rightarrow> int \<Rightarrow> drain_env list \<Rightarrow> bool" where
  "due_chain cfg p t [] = True"
| "due_chain cfg p t (V # Vs) \<longleftrightarrow>
     t \<le> dv_now V \<and> due_chain cfg p (dv_clock V p + rt_retryMaxDelayMs cfg) Vs"

lemma due_chain_mono: "due_chain cfg p t Vs \<Longrightarrow> t' \<le> t \<Longrightarrow> due_chain cfg p t' Vs"
  by (cases Vs) auto

lemma passes_dead:
  "map_of s p = None \<Longrightarrow> fold (pass p) Vs s = s"
  by (induction Vs) (simp_all add: pass_def)

lemma passes_end:
  assumes "spool_ok E s" "readStored E p s = Inr (Some x)" "path_dir p = Pending" "sameStoredIntent r x"
    "oe_lock E (storedRecordLockKey r)" "fits E r" "due_chain cfg p (rc_nextAttemptAt x) Vs"
    "\<forall>V \<in> set Vs. dv_outbox V = E \<and> dv_retry V = cfg \<and> never_accepts V p"
    "rt_maxAttempts cfg - rc_attempts x \<le> int (length Vs)" "Vs \<noteq> []"
  shows "map_of (fold (pass p) Vs s) p = None \<and> map_of (fold (pass p) Vs s) (dead_path p r) \<noteq> None"
  using assms
proof (induction Vs arbitrary: s x)
  case Nil
  then show ?case by simp
next
  case (Cons V Vs)
  let ?s = "fs_final (drainFile V p emptyDrainResult) s"
  have ids: "rc_recordId x = rc_recordId r" "storedRecordLockKey x = storedRecordLockKey r"
    using Cons.prems(4) by (auto simp: sameStoredIntent_def storedRecordLockKey_def split: option.split)
  have V: "dv_outbox V = E" "dv_retry V = cfg" "never_accepts V p" using Cons.prems(8) by auto
  have fit: "fits E x" using Cons.prems(4,6) sameStoredIntent_trans unfolding fits_def by blast
  have dp: "dead_path p x = dead_path p r" using ids by (simp add: dead_path_def)
  have "map_of s p \<noteq> None" using Cons.prems(2) by (auto simp: readStored_Some)
  then have here: "pass p V s = ?s" by (auto simp: pass_def)
  have ok: "spool_ok E ?s"
    using crash_safe_final [OF drainFile_ok [of V s p emptyDrainResult]] V Cons.prems(1,3) by simp
  from failing_attempt [of V s p x emptyDrainResult] V Cons.prems(1-5,7) ids fit
  have "map_of ?s p = None \<and> map_of ?s (dead_path p x) \<noteq> None
    \<or> rc_attempts x + 1 < rt_maxAttempts cfg
      \<and> readStored E p ?s = Inr (Some (retried x (rc_attempts x + 1) cfg (dv_clock V p)))"
    by simp
  then show ?case
  proof
    assume "map_of ?s p = None \<and> map_of ?s (dead_path p x) \<noteq> None"
    then show ?thesis using here dp passes_dead [of ?s p Vs] by simp
  next
    let ?x = "retried x (rc_attempts x + 1) cfg (dv_clock V p)"
    assume again: "rc_attempts x + 1 < rt_maxAttempts cfg \<and> readStored E p ?s = Inr (Some ?x)"
    then have n: "Vs \<noteq> []" "rt_maxAttempts cfg - rc_attempts ?x \<le> int (length Vs)"
      using Cons.prems(9) by auto
    have due: "due_chain cfg p (rc_nextAttemptAt ?x) Vs"
      by (rule due_chain_mono [of cfg p "dv_clock V p + rt_retryMaxDelayMs cfg"])
        (use Cons.prems(7) in \<open>simp_all add: retryDelayMs_le\<close>)
    have same: "sameStoredIntent r ?x" using Cons.prems(4) by simp
    have Vs: "\<forall>V \<in> set Vs. dv_outbox V = E \<and> dv_retry V = cfg \<and> never_accepts V p" using Cons.prems(8) by simp
    have "map_of (fold (pass p) Vs ?s) p = None \<and> map_of (fold (pass p) Vs ?s) (dead_path p r) \<noteq> None"
      by (rule Cons.IH [OF ok again [THEN conjunct2] Cons.prems(3) same Cons.prems(5,6) due Vs n(2,1)])
    then show ?thesis using here by simp
  qed
qed

end
