(* ===== verification/OutboxProps.thy ===== *)
theory OutboxProps
  imports OutboxLiveness
begin

text \<open>
  What the durable outbox promises, over all operations of a producer and the whole drain: its
  invariant at every crash point, that an exact close and a pending record are never lost, what the
  counters of a drain say, and the end of a record that keeps failing.  The last section holds two
  behaviours that differ from what the code means to do.
\<close>

section \<open>A sample spool\<close>

definition sample_env :: outbox_env where
  "sample_env = \<lparr>oe_digest = (\<lambda>t. if t = ''close:r1'' then replicate 64 CHR ''a'' else replicate 64 CHR ''b''),
     oe_checksum = (\<lambda>_. []), oe_deadChecksum = (\<lambda>_. []), oe_size = (\<lambda>_. 100), oe_deadSize = (\<lambda>_. 100),
     oe_lock = (\<lambda>_. True)\<rparr>"

definition sample_outbox :: outbox where
  "sample_outbox = \<lparr>ob_producer = ''core'', ob_fallbackDelayMs = 1000, ob_retry = make_retry (Some (Fin 2)) None None\<rparr>"

definition sample_path :: spool_path where
  "sample_path = Path ''core'' Pending (Named (replicate 64 CHR ''a''))"

definition sample_exact :: stored where
  "sample_exact = exact_record (replicate 64 CHR ''a'') ''r1'' DoSettle (JObj []) 5"

definition sample_spool :: spool where
  "sample_spool = [(sample_path, record_file sample_env sample_exact 5)]"

definition sample_drain :: drain_env where
  "sample_drain = \<lparr>dv_outbox = sample_env, dv_retry = make_retry (Some (Fin 2)) None None, dv_lease = 1000, dv_maxRecords = 10,
     dv_now = 5, dv_ledger = (\<lambda>_ _. OtherFailure), dv_clock = (\<lambda>_. 6), dv_token = (\<lambda>_. ''t''), dv_rank = (\<lambda>_. 0)\<rparr>"

lemma sample_wf: "isStoredRecord sample_exact"
  by (simp add: sample_exact_def exact_record_def isStoredRecord_def is_hex64_def isValidExactPayload_def
      isJsonObject_def list_all_iff)

lemma sample_read: "readStored sample_env sample_path sample_spool = Inr (Some sample_exact)"
  using sample_wf by (simp add: readStored_def sample_spool_def decode_record_file sample_env_def MAX_RECORD_BYTES_def)

lemma sample_named: "named_ok sample_env sample_path sample_exact"
  by (simp add: named_ok_def origin_ok_def sample_path_def sample_exact_def exact_record_def close_id_def sample_env_def)

lemma sample_inv: "spool_inv sample_env sample_spool"
proof -
  have "spool_ok sample_env (perform (Put sample_path (record_file sample_env sample_exact 5)) [])"
    using sample_named by (intro spool_ok_put) (auto simp: spool_ok_def)
  then show ?thesis by (simp add: spool_inv_def sample_spool_def perform.simps)
qed

lemma sample_simps [simp]:
  "oe_lock sample_env key" "oe_size sample_env r = 100" "oe_deadSize sample_env d = 100"
  "dv_outbox sample_drain = sample_env" "ob_producer sample_outbox = ''core''"
  "rc_recordId sample_exact = replicate 64 CHR ''a''" "rc_kind sample_exact = Exact"
  "rc_reservationId sample_exact = Some ''r1''" "rc_operation sample_exact = DoSettle"
  "rc_payload sample_exact = Some (JObj [])" "rc_attempts sample_exact = 0" "rc_nextAttemptAt sample_exact = 5"
  by (simp_all add: sample_env_def sample_drain_def sample_outbox_def sample_exact_def exact_record_def)

lemma sample_hex: "is_hex64 (oe_digest sample_env t)"
  by (simp add: sample_env_def is_hex64_def list_all_iff)

lemma sample_dir [simp]: "path_dir sample_path = Pending"
  by (simp add: sample_path_def)

section \<open>The invariant\<close>

lemma cancel_ok: "spool_ok E s \<Longrightarrow> crash_safe (spool_ok E) (cancel E h) s"
  by (simp add: cancel_def with_lock_def)

lemma run_op_ok:
  assumes "spool_inv E s"
  shows "crash_safe (spool_ok E) (run_op E ob oper) s"
proof -
  have ok: "spool_ok E s" using assms by (simp add: spool_inv_def)
  show ?thesis
    by (cases oper)
      (simp_all add: ok persistPreReserve_ok armFallback_ok persistExact_ok [OF assms] retryLater_ok
        rejectTerminal_ok cancel_ok acknowledge_ok)
qed

text \<open>C33. Whatever a producer or a drain does, and wherever a crash cuts it off, every file of the spool
  that decodes is the record its name and directory say: its id is the digest of its request key or of
  its reservation, pending records carry their id as name, claimed ones the id with the claim, dead
  letters the id of their source; and no path occurs twice.\<close>
theorem spool_invariant:
  assumes "spool_inv (dv_outbox V) s"
  shows "crash_safe (spool_inv (dv_outbox V)) (run_op (dv_outbox V) ob oper) s
    \<and> crash_safe (spool_inv (dv_outbox V)) (drain V) s"
  using crash_safe_inv [OF assms run_op_ok [OF assms]] crash_safe_inv [OF assms drain_ok] assms
  by (simp add: spool_inv_def)

theorem spool_invariant_witness:
  "spool_inv sample_env (fs_final (drain sample_drain) sample_spool)"
  using crash_safe_final [OF spool_invariant [of sample_drain sample_spool, THEN conjunct2]] sample_inv
  by simp

section \<open>An exact close stays\<close>

text \<open>C32. Once the exact close of a reservation is in the spool, no later operation of the producer
  replaces or drops it, at any crash point: it stays where it is with its intent, or is a dead letter
  with that intent.  Only the acknowledgement or the cancellation of that very file removes it.\<close>
theorem exact_close_kept:
  assumes "spool_inv E s" "active_at E p r s" "rc_kind r = Exact" "path_dir p \<noteq> DeadDir" "op_allowed E p oper"
  shows "crash_safe (kept E p r) (run_op E ob oper) s"
proof (cases oper)
  case (OpReject now h status)
  with assms show ?thesis by (simp add: op_allowed_def rejectTerminal_keeps)
next
  case (OpCancel h)
  with assms show ?thesis by (auto simp: op_allowed_def cancel_def with_lock_def active_at_other)
qed (use assms in \<open>simp_all add: op_allowed_def persistPreReserve_keeps armFallback_keeps persistExact_keeps
       retryLater_keeps acknowledge_keeps\<close>)

theorem exact_close_kept_witness:
  "crash_safe (kept sample_env sample_path sample_exact)
     (run_op sample_env sample_outbox (OpExact 9 ''r1'' DoRelease (Some (JObj [])))) sample_spool"
proof (rule exact_close_kept [OF sample_inv])
  show "active_at sample_env sample_path sample_exact sample_spool"
    using sample_read by (simp add: active_at_def)
  show "op_allowed sample_env sample_path (OpExact 9 ''r1'' DoRelease (Some (JObj [])))"
    by (auto simp: op_allowed_def no_collision_def close_id_def sample_env_def)
qed (simp_all add: sample_exact_def exact_record_def)

lemma one_write_read:
  "one_write E p x now m s \<Longrightarrow> isStoredRecord x \<Longrightarrow> readStored E p (fs_final m s) = Inr (Some x)"
  by (simp add: one_write_def fs_final_def readStored_put DEAD_METADATA_RESERVE_BYTES_def)

lemma exact_record_wf:
  "is_hex64 ri \<Longrightarrow> i \<noteq> [] \<Longrightarrow> isValidExactPayload oper payload \<Longrightarrow> oper \<noteq> RecoverPreDispatch \<Longrightarrow>
    isStoredRecord (exact_record ri i oper payload now)"
  by (simp add: isStoredRecord_def exact_record_def)

lemma upgrade_record_wf:
  "isStoredRecord r \<Longrightarrow> rc_reservationId r = Some i \<Longrightarrow> isValidExactPayload oper payload \<Longrightarrow>
    oper \<noteq> RecoverPreDispatch \<Longrightarrow> isStoredRecord (upgrade_record r oper payload now)"
  by (cases "rc_kind r") (auto simp: isStoredRecord_def upgrade_record_def)

lemma durable_exact:
  assumes "distinct (map fst s)" "fs_result (persistExact E ob now i oper (Some payload)) s = Inr h"
    "oper \<noteq> RecoverPreDispatch" "isValidExactPayload oper payload" "\<forall>t. is_hex64 (oe_digest E t)"
  shows "\<exists>r. readStored E (hn_path h) (fs_final (persistExact E ob now i oper (Some payload)) s) = Inr (Some r)
    \<and> rc_kind r = Exact \<and> rc_reservationId r = Some i \<and> sameExactIntent r oper payload
    \<and> h = \<lparr>hn_recordId = rc_recordId r, hn_path = hn_path h, hn_reservationId = Some i\<rparr>"
proof -
  have i: "i \<noteq> []" using assms(2) by (auto simp: persistExact_def trim_id)
  have fst: "fst (persistExact E ob now i oper (Some payload) s) = Inr h" using assms(2) by (simp add: fs_result_def)
  show ?thesis
    using persistExact_effect [OF assms(1), of E ob now i oper "Some payload"]
  proof (elim disjE conjE exE)
    fix p r payload'
    assume "Some payload = Some payload'" "snd (persistExact E ob now i oper (Some payload) s) = []"
      "readStored E p s = Inr (Some r)" "rc_kind r = Exact" "rc_reservationId r = Some i" "sameExactIntent r oper payload'"
      "fst (persistExact E ob now i oper (Some payload) s)
        = Inr \<lparr>hn_recordId = rc_recordId r, hn_path = p, hn_reservationId = Some i\<rparr>"
    with fst show ?thesis by (auto simp: fs_final_def)
  next
    fix p x payload' r
    assume w: "one_write E p x now (persistExact E ob now i oper (Some payload)) s" and
      f: "fst (persistExact E ob now i oper (Some payload) s)
        = Inr \<lparr>hn_recordId = rc_recordId x, hn_path = p, hn_reservationId = Some i\<rparr>"
      and r: "readStored E p s = Inr (Some r)" "rc_reservationId r = Some i" "x = upgrade_record r oper payload' now"
        "Some payload = Some payload'"
    have "isStoredRecord x" using r assms(3,4) readStored_wf [OF r(1)] by (auto intro: upgrade_record_wf)
    from one_write_read [OF w this] f fst r show ?thesis by (auto simp: sameExactIntent_def)
  next
    fix p x payload'
    assume w: "one_write E p x now (persistExact E ob now i oper (Some payload)) s" and
      f: "fst (persistExact E ob now i oper (Some payload) s)
        = Inr \<lparr>hn_recordId = rc_recordId x, hn_path = p, hn_reservationId = Some i\<rparr>"
      and r: "x = exact_record (close_id E i) i oper payload' now" "Some payload = Some payload'"
    have "isStoredRecord x" using r assms(3-5) i by (auto intro!: exact_record_wf simp: close_id_def)
    from one_write_read [OF w this] f fst r show ?thesis by (auto simp: sameExactIntent_def)
  qed (use fst in auto)
qed

text \<open>An exact close that \<open>persistExact\<close> reports as stored is on disk under the path of its handle,
  as the exact close of that reservation with the operation and the payload asked for.\<close>
theorem persisted_exact_is_durable:
  assumes "distinct (map fst s)" "fs_result (persistExact E ob now i oper (Some payload)) s = Inr h"
    "oper \<noteq> RecoverPreDispatch" "isValidExactPayload oper payload" "\<forall>t. is_hex64 (oe_digest E t)"
  shows "\<exists>r. readStored E (hn_path h) (fs_final (persistExact E ob now i oper (Some payload)) s) = Inr (Some r)
    \<and> rc_kind r = Exact \<and> rc_reservationId r = Some i \<and> sameExactIntent r oper payload
    \<and> h = \<lparr>hn_recordId = rc_recordId r, hn_path = hn_path h, hn_reservationId = Some i\<rparr>"
  by (rule durable_exact [OF assms])

lemma sample_close_stored:
  "fs_result (persistExact sample_env sample_outbox 9 ''r1'' DoSettle (Some (JObj []))) sample_spool
      = Inr \<lparr>hn_recordId = rc_recordId sample_exact, hn_path = sample_path, hn_reservationId = Some ''r1''\<rparr>"
proof -
  have "findActiveReservation sample_env ''core'' ''r1'' sample_spool = Inr (Some (sample_path, sample_exact))"
    using sample_read by (simp add: findActiveReservation_def dir_entries_def sample_spool_def sample_path_def
        readStored_def rbind_eq_Inr sample_exact_def)
  moreover have "findDeadReservation sample_env ''core'' ''r1'' sample_spool = Inr None"
    by (simp add: findDeadReservation_def dir_entries_def sample_spool_def)
  ultimately show ?thesis
    by (simp add: persistExact_def trim_id is_ws_def Let_def with_lock_def sameExactIntent_def)
qed

theorem persisted_exact_is_durable_witness:
  "\<exists>r. readStored sample_env sample_path
      (fs_final (persistExact sample_env sample_outbox 9 ''r1'' DoSettle (Some (JObj []))) sample_spool) = Inr (Some r)
    \<and> rc_kind r = Exact \<and> sameExactIntent r DoSettle (JObj [])"
  using persisted_exact_is_durable [OF _ sample_close_stored] sample_inv sample_hex
  by (auto simp: spool_inv_def isValidExactPayload_def isJsonObject_def)

section \<open>A drain\<close>

lemma reclaim_keeps_pending:
  assumes "undisturbed u v s" "v \<noteq> None" "path_dir u = Pending"
  shows "crash_safe (undisturbed u v) (reclaimExpiredProcessing V) s"
  unfolding reclaimExpiredProcessing_def
  using assms by (intro crash_readI reclaimFiles_undisturbed) (auto simp: collectStateFiles_def)

lemma run_final_distinct: "distinct (map fst s) \<Longrightarrow> distinct (map fst (fs_final m s))"
  by (simp add: fs_final_def run_distinct)

lemma pending_list_distinct:
  "distinct (map fst s) \<Longrightarrow> distinct (sort_key f (collectStateFiles Pending s))"
  by (simp add: collectStateFiles_def)

text \<open>C35. A drain loses nothing: at every crash point a record that was pending when the drain began is
  still in its pending file, or is claimed in the processing directory of its producer, or has its dead
  letter, unless the ledger accepted its dispatch.\<close>
theorem drain_loses_nothing:
  assumes "spool_inv (dv_outbox V) s" "readStored (dv_outbox V) p s = Inr (Some r)" "path_dir p = Pending"
  shows "crash_safe (accounted V p r) (drain V) s"
proof -
  let ?E = "dv_outbox V"
  have ok: "spool_ok ?E s" and d: "distinct (map fst s)" using assms(1) by (auto simp: spool_inv_def)
  note u = readStored_undisturbed [OF assms(2)]
  have v: "map_of s p \<noteq> None" using assms(2) by (auto simp: readStored_Some)
  have u1: "undisturbed p (map_of s p) s" using u(1) assms(3) by simp
  have u2: "readStored ?E p t = Inr (Some r)" if "undisturbed p (map_of s p) t" for t
    using u(2) assms(3) that by simp
  have keep: "crash_safe (undisturbed p (map_of s p)) (reclaimExpiredProcessing V) s"
    using u1 v assms(3) by (rule reclaim_keeps_pending)
  have first: "crash_safe (accounted V p r) (reclaimExpiredProcessing V) s"
    by (rule crash_safe_mono [OF keep]) (use u2 in \<open>auto simp: accounted_def active_at_def\<close>)
  have okr: "crash_safe (spool_ok ?E) (reclaimExpiredProcessing V) s"
    unfolding reclaimExpiredProcessing_def using ok
    by (intro crash_readI reclaimFiles_ok) (auto simp: collectStateFiles_def)
  show ?thesis unfolding drain_def
  proof (rule crash_bindI [OF first])
    fix n
    let ?t = "fs_final (reclaimExpiredProcessing V) s"
    assume acc: "accounted V p r ?t"
    show "crash_safe (accounted V p r)
        (fs_bind (fs_read (\<lambda>s. Inr (sort_key (dv_rank V) (collectStateFiles Pending s))))
          (\<lambda>ps. drainFiles V ps (emptyDrainResult\<lparr>dr_reclaimed := n\<rparr>))) ?t"
    proof (rule crash_readI)
      show "accounted V p r ?t" by (rule acc)
      fix ps
      assume "Inr (sort_key (dv_rank V) (collectStateFiles Pending ?t)) = Inr ps"
      then have ps: "ps = sort_key (dv_rank V) (collectStateFiles Pending ?t)" by simp
      show "crash_safe (accounted V p r) (drainFiles V ps (emptyDrainResult\<lparr>dr_reclaimed := n\<rparr>)) ?t"
        unfolding ps
        using crash_safe_final [OF okr] u2 [OF crash_safe_final [OF keep]] assms(3)
        by (intro drainFiles_accounted pending_list_distinct run_final_distinct d) (auto simp: collectStateFiles_def)
    qed
  qed
qed

theorem drain_loses_nothing_witness:
  "accounted sample_drain sample_path sample_exact (fs_final (drain sample_drain) sample_spool)"
  using crash_safe_final [OF drain_loses_nothing [of sample_drain sample_spool sample_path sample_exact]]
    sample_inv sample_read by simp

text \<open>The counters of a drain tell apart every pending file exactly once: completed, rescheduled,
  dead-lettered or skipped; and no more than the limit of records are claimed.\<close>
theorem drain_counts:
  assumes "fs_result (drain V) s = Inr res"
  shows "dr_completed res + dr_retryScheduled res + dr_deadLettered res + dr_skipped res
      = int (length (collectStateFiles Pending (fs_final (reclaimExpiredProcessing V) s)))
    \<and> dr_claimed res \<le> max 0 (dv_maxRecords V)"
proof -
  let ?t = "fs_final (reclaimExpiredProcessing V) s"
  from assms obtain n where
    "fs_result (drainFiles V (sort_key (dv_rank V) (collectStateFiles Pending ?t)) (emptyDrainResult\<lparr>dr_reclaimed := n\<rparr>)) ?t
      = Inr res"
    by (auto simp: drain_def split: sum.splits)
  from drainFiles_counts [OF this] show ?thesis by (simp add: emptyDrainResult_def seen_def)
qed

lemma sample_drain_file:
  "fs_result (drainFile sample_drain sample_path emptyDrainResult) sample_spool
    = Inr (emptyDrainResult\<lparr>dr_claimed := 1, dr_retryScheduled := 1\<rparr>)"
proof -
  have "rt_maxAttempts (dv_retry sample_drain) = 2" "dv_now sample_drain = 5" "\<not> 2 \<le> (1::int)"
    by (simp_all add: sample_drain_def make_retry_def boundedInteger_def)
  moreover have "dispatch sample_drain sample_path sample_exact = OtherFailure"
    by (simp add: dispatch_def sample_drain_def split: option.split)
  moreover have "claimed_path sample_drain sample_path sample_exact \<noteq> sample_path" by (intro path_neq) simp
  moreover have "pending_path ''core'' (rc_recordId sample_exact) = sample_path" "path_producer sample_path = ''core''"
    by (simp_all add: pending_path_def sample_path_def)
  moreover have "map_of sample_spool sample_path = Some (record_file sample_env sample_exact 5)"
    by (simp add: sample_spool_def)
  ultimately show ?thesis using sample_read
    by (simp add: drainFile_def processClaimed_def Let_def returnForRetry_def atomicWriteRecord_def count_outcome_def
        emptyDrainResult_def MAX_RECORD_BYTES_def DEAD_METADATA_RESERVE_BYTES_def)
qed

lemma sample_drain_result:
  "fs_result (drain sample_drain) sample_spool = Inr (emptyDrainResult\<lparr>dr_claimed := 1, dr_retryScheduled := 1\<rparr>)"
proof -
  have "collectStateFiles Processing sample_spool = []" "collectStateFiles Pending sample_spool = [sample_path]"
    by (simp_all add: collectStateFiles_def sample_spool_def sample_path_def)
  moreover have "emptyDrainResult\<lparr>dr_reclaimed := 0\<rparr> = emptyDrainResult" "dr_claimed emptyDrainResult = 0" "dv_maxRecords sample_drain = 10"
    by (simp_all add: emptyDrainResult_def sample_drain_def)
  ultimately show ?thesis
    by (simp add: drain_def reclaimExpiredProcessing_def sample_drain_file)
qed

theorem drain_counts_witness:
  "fs_result (drain sample_drain) sample_spool = Inr (emptyDrainResult\<lparr>dr_claimed := 1, dr_retryScheduled := 1\<rparr>)
    \<and> length (collectStateFiles Pending (fs_final (reclaimExpiredProcessing sample_drain) sample_spool)) = 1"
  using drain_counts [OF sample_drain_result] sample_drain_result by (simp add: emptyDrainResult_def)

section \<open>Retries end\<close>

text \<open>The retry delay of a configuration the code builds is between one millisecond and a day, and
  never decreases with the number of attempts.\<close>
theorem retry_delay_bounds:
  "\<forall>m n. 1 \<le> retryDelayMs n (make_retry a b c) \<and> retryDelayMs n (make_retry a b c) \<le> 24 * 60 * 60000
    \<and> retryDelayMs (min m n) (make_retry a b c) \<le> retryDelayMs n (make_retry a b c)"
proof (intro allI conjI)
  fix m n
  have ok: "cfg_ok (make_retry a b c)" using make_retry_ok by blast
  then show "1 \<le> retryDelayMs n (make_retry a b c)" by (rule retryDelayMs_pos)
  have "rt_retryMaxDelayMs (make_retry a b c) \<le> 24 * 60 * 60000"
    using boundedInteger_bounds [of 1 "15 * 60000" "24 * 60 * 60000" c] by (simp add: make_retry_def)
  with retryDelayMs_le [of n "make_retry a b c"] show "retryDelayMs n (make_retry a b c) \<le> 24 * 60 * 60000" by simp
  show "retryDelayMs (min m n) (make_retry a b c) \<le> retryDelayMs n (make_retry a b c)"
    using ok by (intro retryDelayMs_mono) (auto simp: cfg_ok_def)
qed

text \<open>C36. A record whose dispatch never succeeds does not stay in the spool: after as many due passes as
  it has attempts left, its pending file is gone and its dead letter is there.\<close>
theorem failing_record_is_dead_lettered:
  assumes "spool_ok E s" "readStored E p s = Inr (Some r)" "path_dir p = Pending"
    "oe_lock E (storedRecordLockKey r)" "fits E r" "due_chain cfg p (rc_nextAttemptAt r) Vs"
    "\<forall>V \<in> set Vs. dv_outbox V = E \<and> dv_retry V = cfg \<and> never_accepts V p"
    "rt_maxAttempts cfg - rc_attempts r \<le> int (length Vs)" "Vs \<noteq> []"
  shows "map_of (fold (pass p) Vs s) p = None \<and> map_of (fold (pass p) Vs s) (dead_path p r) \<noteq> None"
  using passes_end [of E s p r r cfg Vs] assms by simp

theorem failing_record_is_dead_lettered_witness:
  "map_of (fold (pass sample_path) [sample_drain, sample_drain\<lparr>dv_now := 900006\<rparr>] sample_spool) sample_path = None"
proof -
  have "rt_maxAttempts (make_retry (Some (Fin 2)) None None) = 2" "rt_retryMaxDelayMs (make_retry (Some (Fin 2)) None None) = 900000"
    by (simp_all add: make_retry_def boundedInteger_def)
  then show ?thesis
    using failing_record_is_dead_lettered [of sample_env sample_spool sample_path sample_exact
      "make_retry (Some (Fin 2)) None None" "[sample_drain, sample_drain\<lparr>dv_now := 900006\<rparr>]"]
      sample_inv sample_read
    by (simp add: spool_inv_def fits_def MAX_RECORD_BYTES_def DEAD_METADATA_RESERVE_BYTES_def sample_drain_def never_accepts_def)
qed

section \<open>Two surprises\<close>

text \<open>C38. A pending file that is gone when the drain reads it, because its producer acknowledged or
  cancelled it after the listing, is reported as a corrupt dead letter.\<close>
theorem vanished_file_becomes_corrupt:
  assumes "map_of s p = None" "path_dir p = Pending"
    "oe_deadSize (dv_outbox V) (CorruptRecord (oe_digest (dv_outbox V) (''corrupt:'' @ file_basename (path_name p))) (dv_now V))
      \<le> MAX_RECORD_BYTES"
  shows "fs_result (drainFile V p res) s = Inr (res\<lparr>dr_deadLettered := dr_deadLettered res + 1\<rparr>)
    \<and> map_of (fs_final (drainFile V p res) s)
        (Path (path_producer p) DeadDir (Named (oe_digest (dv_outbox V) (''corrupt:'' @ file_basename (path_name p))))) \<noteq> None"
proof -
  have "readStored (dv_outbox V) p s = Inr None" using assms(1) by (simp add: readStored_None)
  moreover have "Path (path_producer p) DeadDir i \<noteq> p" for i using assms(2) by (cases p) auto
  ultimately show ?thesis
    using assms(3) by (simp add: drainFile_def deadLetter_def Let_def atomicWriteDeadRecord_def)
qed

theorem vanished_file_becomes_corrupt_witness:
  "fs_result (drainFile sample_drain sample_path emptyDrainResult) [] = Inr (emptyDrainResult\<lparr>dr_deadLettered := 1\<rparr>)"
  using vanished_file_becomes_corrupt [of "[]" sample_path sample_drain emptyDrainResult]
  by (simp add: MAX_RECORD_BYTES_def emptyDrainResult_def)

definition sample_handle :: settlement_handle where
  "sample_handle = \<lparr>hn_recordId = replicate 64 CHR ''b'', hn_path = Path ''core'' Pending (Named (replicate 64 CHR ''b'')),
     hn_reservationId = None\<rparr>"

definition sample_claim :: spool_path where
  "sample_claim = Path ''core'' Processing (Claimed (replicate 64 CHR ''b'') 4 ''t'')"

definition the_record :: "spool_file \<Rightarrow> stored" where
  "the_record f = (case sf_text f of RecordText r c \<Rightarrow> r | _ \<Rightarrow> sample_exact)"

text \<open>A reserve of the request key, the fallback of its reservation and the exact close.\<close>

definition reserve_and_close :: "int \<Rightarrow> json \<Rightarrow> spool \<Rightarrow> (outbox_error + settlement_handle) \<times> spool" where
  "reserve_and_close now payload s =
     (let m = fs_bind (persistPreReserve sample_env sample_outbox now ''k'') (\<lambda>h.
         fs_bind (armFallback sample_env sample_outbox now h ''r1'' ''k'') (\<lambda>_.
         persistExact sample_env sample_outbox now ''r1'' DoSettle (Some payload)))
      in (fs_result m s, fs_final m s))"

text \<open>While a drain holds the exact close of a reservation in processing, a producer that reserves
  the same request key again (the ledger replays the reservation) can store a second, different exact
  close of that reservation; both are then in the spool.\<close>
theorem second_exact_close_accepted:
  "let first = snd (reserve_and_close 1 (JObj []) []);
       claimed = perform (Move (hn_path sample_handle) sample_claim) first;
       (r, s) = reserve_and_close 5 (JObj [(''outcome'', JStr ''x'')]) claimed
   in fst (reserve_and_close 1 (JObj []) []) = r \<and> r \<noteq> Inl ExactConflictError
     \<and> map_option (rc_payload \<circ> the_record) (map_of s sample_claim) = Some (Some (JObj []))
     \<and> map_option (rc_payload \<circ> the_record) (map_of s (hn_path sample_handle)) = Some (Some (JObj [(''outcome'', JStr ''x'')]))"
  by code_simp

end
