(* ===== verification/DurableLedger.thy ===== *)
theory DurableLedger
  imports OutboxProps
begin

text \<open>
  \<open>DurableLlmLedger\<close> of \<^verbatim>\<open>packages/llm-ledger-outbox/src/index.ts\<close>: a ledger client wrapped with the
  outbox.  The wrapped client is a port with a state \<open>'w\<close>; the two contracts it must meet are locales,
  interpreted at the end on the HTTP client of \<open>LedgerClient\<close>.  \<open>now\<close> gives the clock reading of each
  outbox operation of the call.
\<close>

datatype durable_error = LedgerFailure client_error | OutboxFailure outbox_error

section \<open>The operations\<close>

definition is_denial :: "client_error \<Rightarrow> bool" where
  "is_denial e = (case e of BudgetDenied _ _ _ \<Rightarrow> True | _ \<Rightarrow> False)"

definition durable_reserve ::
  "outbox_env \<Rightarrow> outbox \<Rightarrow> (nat \<Rightarrow> int) \<Rightarrow> (string \<Rightarrow> 'w \<Rightarrow> (client_error + client_reservation \<times> client_budget) \<times> 'w)
    \<Rightarrow> string \<Rightarrow> spool \<Rightarrow> 'w \<Rightarrow> (durable_error + client_reservation \<times> client_budget) \<times> spool \<times> 'w" where
  "durable_reserve E ob now send_reserve key s w =
     (let mark = persistPreReserve E ob (now 0) key; s1 = fs_final mark s in
      case fs_result mark s of
        Inl e \<Rightarrow> (Inl (OutboxFailure e), s1, w)
      | Inr marker \<Rightarrow>
         (case send_reserve key w of
            (Inl e, w1) \<Rightarrow>
              (if is_denial e then
                 (case fs_result (cancel E marker) s1 of
                    Inl e' \<Rightarrow> (Inl (OutboxFailure e'), fs_final (cancel E marker) s1, w1)
                  | Inr _ \<Rightarrow> (Inl (LedgerFailure e), fs_final (cancel E marker) s1, w1))
               else (Inl (LedgerFailure e), s1, w1))
          | (Inr (rs, bd), w1) \<Rightarrow>
             (let arm = armFallback E ob (now 1) marker (cr_id rs) (cr_requestKey rs) in
              case fs_result arm s1 of
                Inl e \<Rightarrow> (Inl (OutboxFailure e), fs_final arm s1, w1)
              | Inr _ \<Rightarrow> (Inr (rs, bd), fs_final arm s1, w1))))"

definition after_close :: "outbox_env \<Rightarrow> outbox \<Rightarrow> int \<Rightarrow> settlement_handle \<Rightarrow> client_error + json \<Rightarrow> unit fs_op" where
  "after_close E ob now h reply = (case reply of
     Inl (CloseFailed False st) \<Rightarrow> rejectTerminal E now h st
   | Inl _ \<Rightarrow> retryLater E ob now h
   | Inr _ \<Rightarrow> acknowledge E ob h)"

definition durable_close ::
  "outbox_env \<Rightarrow> outbox \<Rightarrow> (nat \<Rightarrow> int) \<Rightarrow> ('w \<Rightarrow> (client_error + json) \<times> 'w) \<Rightarrow> string \<Rightarrow> record_operation
    \<Rightarrow> json option \<Rightarrow> spool \<Rightarrow> 'w \<Rightarrow> (durable_error + unit) \<times> spool \<times> 'w" where
  "durable_close E ob now send_close i oper body s w =
     (let store = persistExact E ob (now 0) i oper body; s1 = fs_final store s in
      case fs_result store s of
        Inl e \<Rightarrow> (Inl (OutboxFailure e), s1, w)
      | Inr h \<Rightarrow>
         (case send_close w of (reply, w1) \<Rightarrow>
           (let rest = after_close E ob (now 1) h reply; s2 = fs_final rest s1 in
            case fs_result rest s1 of
              Inl e \<Rightarrow> (Inl (OutboxFailure e), s2, w1)
            | Inr _ \<Rightarrow> ((case reply of Inl e \<Rightarrow> Inl (LedgerFailure e) | Inr _ \<Rightarrow> Inr ()), s2, w1))))"

definition durable_settle where
  "durable_settle E ob now c i request s w =
     durable_close E ob now (client_settle c i request) i DoSettle request s w"

definition durable_fail where
  "durable_fail E ob now c i request s w =
     durable_close E ob now (client_fail c i request) i DoFail (Some (fail_body request)) s w"

definition durable_release where
  "durable_release E ob now c i reason s w =
     durable_close E ob now (client_release c i reason) i DoRelease (Some (JObj [(''reason'', JStr reason)])) s w"

section \<open>What the outbox operations leave\<close>

definition marker_path :: "outbox_env \<Rightarrow> outbox \<Rightarrow> string \<Rightarrow> spool_path" where
  "marker_path E ob key = Path (ob_producer ob) Pending (Named (pre_reserve_id E key))"

definition is_marker :: "outbox_env \<Rightarrow> spool_path \<Rightarrow> string \<Rightarrow> spool \<Rightarrow> bool" where
  "is_marker E p key s \<longleftrightarrow> (\<exists>r. readStored E p s = Inr (Some r) \<and> rc_kind r = PreReserve \<and> rc_requestKey r = Some key)"

definition is_fallback :: "outbox_env \<Rightarrow> spool_path \<Rightarrow> string \<Rightarrow> spool \<Rightarrow> bool" where
  "is_fallback E p i s \<longleftrightarrow> (\<exists>r. readStored E p s = Inr (Some r) \<and> rc_kind r = Fallback \<and> rc_operation r = DoFail
     \<and> rc_reservationId r = Some i)"

lemma marker_wf: "is_hex64 i \<Longrightarrow> key \<noteq> [] \<Longrightarrow> isStoredRecord (pre_reserve_record ob i key now)"
  by (simp add: isStoredRecord_def pre_reserve_record_def)

lemma marker_key: "isStoredRecord r \<Longrightarrow> rc_kind r = PreReserve \<Longrightarrow> rc_operation r = RecoverPreDispatch"
  by (simp add: isStoredRecord_def)

lemma fallback_wf: "isStoredRecord r \<Longrightarrow> i \<noteq> [] \<Longrightarrow> isStoredRecord (fallback_record ob r i now)"
  by (simp add: isStoredRecord_def fallback_record_def isFallbackPayload_def fallback_payload_def isJsonObject_def
      get_prop_def obj_of_def)

lemma marker_written:
  assumes "fs_result (persistPreReserve E ob now key) s = Inr h" "\<forall>t. is_hex64 (oe_digest E t)"
  shows "h = \<lparr>hn_recordId = pre_reserve_id E key, hn_path = marker_path E ob key, hn_reservationId = None\<rparr>"
    "is_marker E (marker_path E ob key) key (fs_final (persistPreReserve E ob now key) s)"
proof -
  have key: "key \<noteq> []" using assms(1) by (auto simp: persistPreReserve_def trim_id)
  have fst: "fst (persistPreReserve E ob now key s) = Inr h" using assms(1) by (simp add: fs_result_def)
  then obtain x where x: "one_write E (marker_path E ob key) x now (persistPreReserve E ob now key) s"
    "rc_requestKey x = Some key" "h = \<lparr>hn_recordId = pre_reserve_id E key, hn_path = marker_path E ob key, hn_reservationId = None\<rparr>"
    "x = pre_reserve_record ob (pre_reserve_id E key) key now
      \<or> (\<exists>r. readStored E (marker_path E ob key) s = Inr (Some r) \<and> rc_kind r = PreReserve
           \<and> x = r\<lparr>rc_updatedAt := now, rc_nextAttemptAt := now + ob_fallbackDelayMs ob, rc_attempts := 0\<rparr>)"
    using persistPreReserve_effect [of E ob now key s] unfolding marker_path_def by (elim disjE conjE exE) auto
  have hex: "is_hex64 (pre_reserve_id E key)" using assms(2) by (simp add: pre_reserve_id_def)
  have wf: "isStoredRecord x \<and> rc_kind x = PreReserve"
    using x(4)
  proof (elim disjE exE conjE)
    assume "x = pre_reserve_record ob (pre_reserve_id E key) key now"
    then show ?thesis using marker_wf [OF hex key] by (simp add: pre_reserve_record_def)
  next
    fix r
    assume "readStored E (marker_path E ob key) s = Inr (Some r)" "rc_kind r = PreReserve"
      "x = r\<lparr>rc_updatedAt := now, rc_nextAttemptAt := now + ob_fallbackDelayMs ob, rc_attempts := 0\<rparr>"
    moreover from this have "isStoredRecord r" using readStored_wf by blast
    ultimately show ?thesis by (simp add: isStoredRecord_def)
  qed
  show "is_marker E (marker_path E ob key) key (fs_final (persistPreReserve E ob now key) s)"
    using one_write_read [OF x(1)] wf x(2) by (auto simp: is_marker_def)
  show "h = \<lparr>hn_recordId = pre_reserve_id E key, hn_path = marker_path E ob key, hn_reservationId = None\<rparr>"
    by (rule x(3))
qed

lemma fallback_written:
  assumes "fs_result (armFallback E ob now h i key) s = Inr h'" "i \<noteq> []"
  shows "is_fallback E (hn_path h) i (fs_final (armFallback E ob now h i key) s)"
proof -
  have "fst (armFallback E ob now h i key s) = Inr h'" using assms(1) by (simp add: fs_result_def)
  then obtain r where r: "readStored E (hn_path h) s = Inr (Some r)"
    "one_write E (hn_path h) (fallback_record ob r i now) now (armFallback E ob now h i key) s"
    using armFallback_effect [of E ob now h i key s] by auto
  from one_write_read [OF r(2)] fallback_wf [OF readStored_wf [OF r(1)] assms(2)] show ?thesis
    by (auto simp: is_fallback_def fallback_record_def)
qed

lemma arm_failed: "fs_result (armFallback E ob now h i key) s = Inl e \<Longrightarrow> fs_final (armFallback E ob now h i key) s = s"
  using armFallback_effect [of E ob now h i key s] by (auto simp: fs_result_def fs_final_def)

lemma cancel_failed: "fs_result (cancel E h) s = Inl e \<Longrightarrow> fs_final (cancel E h) s = s"
  by (auto simp: cancel_def with_lock_def split: if_splits)

section \<open>A reserve port\<close>

text \<open>What the fallback relies on: the reservation the port returns is the one of the key asked for.\<close>

locale reserve_port =
  fixes send_reserve :: "string \<Rightarrow> 'w \<Rightarrow> (client_error + client_reservation \<times> client_budget) \<times> 'w"
  assumes same_key: "send_reserve key w = (Inr (rs, bd), w1) \<Longrightarrow> cr_requestKey rs = key"
begin

lemma guarded:
  assumes "durable_reserve E ob now send_reserve key s w = (r, s', w')" "\<forall>t. is_hex64 (oe_digest E t)"
    "\<And>rs bd w1. send_reserve key w = (Inr (rs, bd), w1) \<Longrightarrow> cr_id rs \<noteq> []"
  shows "case r of
      Inr (rs, bd) \<Rightarrow> is_fallback E (marker_path E ob key) (cr_id rs) s'
    | Inl (LedgerFailure e) \<Rightarrow> is_denial e \<or> is_marker E (marker_path E ob key) key s'
    | Inl (OutboxFailure e) \<Rightarrow> w' = w \<or> is_marker E (marker_path E ob key) key s'"
proof (cases "fs_result (persistPreReserve E ob (now 0) key) s")
  case (Inl e)
  with assms(1) show ?thesis by (auto simp: durable_reserve_def Let_def)
next
  case (Inr h)
  note m = marker_written [OF Inr assms(2)]
  let ?s1 = "fs_final (persistPreReserve E ob (now 0) key) s"
  obtain reply w1 where sent: "send_reserve key w = (reply, w1)" by (cases "send_reserve key w")
  show ?thesis
  proof (cases reply)
    case e: (Inl e)
    show ?thesis
    proof (cases "fs_result (cancel E h) ?s1")
      case (Inl e')
      with assms(1) Inr sent e m(2) cancel_failed [OF Inl] show ?thesis
        by (cases "is_denial e") (auto simp: durable_reserve_def Let_def)
    next
      case c: (Inr u)
      with assms(1) Inr sent e m(2) show ?thesis
        by (cases "is_denial e") (auto simp: durable_reserve_def Let_def)
    qed
  next
    case g: (Inr granted)
    obtain rs bd where rs: "granted = (rs, bd)" by (cases granted)
    with g sent have id: "cr_id rs \<noteq> []" using assms(3) by auto
    let ?arm = "armFallback E ob (now 1) h (cr_id rs) (cr_requestKey rs)"
    show ?thesis
    proof (cases "fs_result ?arm ?s1")
      case (Inl e)
      with assms(1) Inr sent g rs m(2) arm_failed [OF Inl] show ?thesis
        by (auto simp: durable_reserve_def Let_def)
    next
      case a: (Inr h')
      with assms(1) Inr sent g rs have "r = Inr (rs, bd)" "s' = fs_final ?arm ?s1"
        by (auto simp: durable_reserve_def Let_def)
      with fallback_written [OF a id] m(1) show ?thesis by simp
    qed
  qed
qed

text \<open>With the locks free and the records small enough, the reply of the port is the reply of the call.\<close>

lemma reply_returned:
  assumes "fs_result (persistPreReserve E ob (now 0) key) s = Inr h" "\<forall>t. is_hex64 (oe_digest E t)" "spool_ok E s"
    "\<forall>k. oe_lock E k" "\<forall>x. oe_size E x \<le> MAX_RECORD_BYTES - DEAD_METADATA_RESERVE_BYTES"
  shows "fst (durable_reserve E ob now send_reserve key s w)
    = (case fst (send_reserve key w) of Inl e \<Rightarrow> Inl (LedgerFailure e) | Inr g \<Rightarrow> Inr g)"
proof -
  note m = marker_written [OF assms(1,2)]
  let ?s1 = "fs_final (persistPreReserve E ob (now 0) key) s"
  from m(2) obtain r where r: "readStored E (marker_path E ob key) ?s1 = Inr (Some r)" "rc_kind r = PreReserve"
    "rc_requestKey r = Some key" by (auto simp: is_marker_def)
  have "spool_ok E ?s1" using crash_safe_final [OF persistPreReserve_ok [OF assms(3)]] .
  from spool_ok_read [OF this r(1)] have "rc_recordId r = pre_reserve_id E key"
    by (simp add: named_ok_def marker_path_def)
  with r m(1) assms(4,5) readStored_wf [OF r(1)] marker_key
  have arm: "\<exists>h'. fs_result (armFallback E ob (now 1) h i key) ?s1 = Inr h'" for i
    by (simp add: armFallback_def with_lock_def atomicWriteRecord_def not_less)
  have cancel: "fs_result (cancel E h) ?s1 = Inr ()" using assms(4) by (simp add: cancel_def with_lock_def)
  obtain reply w1 where sent: "send_reserve key w = (reply, w1)" by (cases "send_reserve key w")
  show ?thesis
  proof (cases reply)
    case (Inl e)
    with assms(1) sent cancel show ?thesis by (simp add: durable_reserve_def Let_def)
  next
    case (Inr g)
    obtain rs bd where g: "g = (rs, bd)" by (cases g)
    have "cr_requestKey rs = key" using same_key sent Inr g by simp
    with arm [of "cr_id rs"] assms(1) sent Inr g show ?thesis by (auto simp: durable_reserve_def Let_def)
  qed
qed

end

interpretation http_reserve: reserve_port "\<lambda>key. client_reserve key body" for body
proof unfold_locales
  fix key w rs bd w1
  assume "client_reserve key body w = (Inr (rs, bd), w1)"
  then obtain j where "reserveOutcome key j = Inr (rs, bd)"
    by (auto simp: client_reserve_def split: option.splits prod.splits sum.splits)
  then show "cr_requestKey rs = key" using reserveOutcome_granted by blast
qed

section \<open>A close port\<close>

text \<open>A final refusal carries a status a dead letter can record.\<close>

locale close_port =
  fixes send_close :: "'w \<Rightarrow> (client_error + json) \<times> 'w"
    and good :: "'w \<Rightarrow> bool"
  assumes terminal_status: "good w \<Longrightarrow> send_close w = (Inl (CloseFailed False st), w1) \<Longrightarrow> status_ok st"
begin

lemma rest_keeps:
  assumes "active_at E p r s" "path_dir p \<noteq> DeadDir" "good w" "send_close w = (Inl e, w1)"
  shows "kept E p r (fs_final (after_close E ob now h (Inl e)) s)"
proof (cases "\<exists>st. e = CloseFailed False st")
  case True
  then obtain st where e: "e = CloseFailed False st" by blast
  from terminal_status [OF assms(3) assms(4) [unfolded e]] assms(1,2)
  have "crash_safe (kept E p r) (rejectTerminal E now h st) s" by (intro rejectTerminal_keeps)
  from crash_safe_final [OF this] show ?thesis by (simp add: e after_close_def)
next
  case False
  then have "after_close E ob now h (Inl e) = retryLater E ob now h"
    by (auto simp: after_close_def split: client_error.split bool.split)
  with crash_safe_final [OF retryLater_keeps [OF assms(1,2)]] show ?thesis by simp
qed

lemma honest:
  assumes "spool_inv E s" "good w" "oper \<noteq> RecoverPreDispatch" "isValidExactPayload oper payload"
    "\<forall>t. is_hex64 (oe_digest E t)"
    "durable_close E ob now send_close i oper (Some payload) s w = (r, s', w')"
  shows "(r = Inr () \<longrightarrow> (\<exists>j. send_close w = (Inr j, w')))
    \<and> (r \<noteq> Inr () \<longrightarrow> w' = w \<and> s' = s \<or> (\<exists>j. send_close w = (Inr j, w'))
        \<or> (\<exists>p x. rc_kind x = Exact \<and> rc_reservationId x = Some i \<and> sameExactIntent x oper payload \<and> kept E p x s'))"
proof (cases "fs_result (persistExact E ob (now 0) i oper (Some payload)) s")
  case (Inl e)
  have d: "distinct (map fst s)" using assms(1) by (simp add: spool_inv_def)
  have "fs_final (persistExact E ob (now 0) i oper (Some payload)) s = s"
    using persistExact_effect [OF d, of E ob "now 0" i oper "Some payload"] Inl
    by (auto simp: fs_result_def fs_final_def)
  with Inl assms(6) show ?thesis by (auto simp: durable_close_def Let_def)
next
  case (Inr h)
  let ?s1 = "fs_final (persistExact E ob (now 0) i oper (Some payload)) s"
  have d: "distinct (map fst s)" using assms(1) by (simp add: spool_inv_def)
  from durable_exact [OF d Inr assms(3-5)] obtain x where x: "readStored E (hn_path h) ?s1 = Inr (Some x)"
    "rc_kind x = Exact" "rc_reservationId x = Some i" "sameExactIntent x oper payload" by blast
  have "spool_ok E ?s1" using crash_safe_final [OF persistExact_ok [OF assms(1)]] .
  from spool_ok_read [OF this x(1)] have dir: "path_dir (hn_path h) \<noteq> DeadDir" by (auto simp: named_ok_def)
  have act: "active_at E (hn_path h) x ?s1" using x(1) by (simp add: active_at_def)
  obtain reply w1 where sent: "send_close w = (reply, w1)" by (cases "send_close w")
  have w': "w' = w1" using assms(6) Inr sent by (auto simp: durable_close_def Let_def split: sum.splits)
  show ?thesis
  proof (cases reply)
    case e: (Inl e)
    from assms(6) Inr sent e have "s' = fs_final (after_close E ob (now 1) h (Inl e)) ?s1" "r \<noteq> Inr ()"
      by (auto simp: durable_close_def Let_def split: sum.splits)
    with rest_keeps [OF act dir assms(2) sent [unfolded e]] x show ?thesis by blast
  qed (use sent w' in auto)
qed

end

lemma closeLoop_terminal:
  assumes "closeLoop c path body 1 left w = (Inl (CloseFailed False st), w')" "0 \<le> cl_closeRetryBaseDelayMs c" "0 < left"
    "\<forall>n a. run_net w n = Answer a \<longrightarrow> 100 \<le> hr_status a \<and> hr_status a \<le> 599"
  shows "status_ok st"
proof -
  from closeLoop_run [OF assms(1-3)] obtain re where net: "run_net w' = run_net w"
    and re: "last_outcome w' = Inl re" "closeError re = CloseFailed False st" by auto
  from closeError_terminal [OF re(1) [unfolded last_outcome_def] re(2)] net assms(4) show ?thesis
    by (auto simp: status_ok_def)
qed

text \<open>The statuses of HTTP answers.\<close>

definition http_net :: "client_run \<Rightarrow> bool" where
  "http_net w \<longleftrightarrow> (\<forall>n a. run_net w n = Answer a \<longrightarrow> 100 \<le> hr_status a \<and> hr_status a \<le> 599)"

interpretation http_close: close_port "close (make_client a b) path body" http_net for a b path body
proof unfold_locales
  fix w st w1
  assume "http_net w" and c: "close (make_client a b) path body w = (Inl (CloseFailed False st), w1)"
  then show "status_ok st"
    using closeLoop_terminal [of "make_client a b" path _ _ w st w1] make_client_bounds [of a b]
    by (cases body) (auto simp: close_def http_net_def status_ok_def)
qed

section \<open>Properties\<close>

text \<open>C30. A granted reservation is never unguarded: when the durable reserve returns one, the spool holds
  the fallback that will close it as failed with an unknown outcome; and when the call ends otherwise
  after a POST was made, then either Core denied it or the recovery marker of the request key is still in
  the spool.  With free locks and records that fit, the answer is the one of the ledger client.\<close>
theorem reservation_never_unguarded:
  assumes "durable_reserve E ob now (\<lambda>k. client_reserve k body) key s w = (r, s', w')"
    "\<forall>t. is_hex64 (oe_digest E t)" "\<forall>rs bd w1. client_reserve key body w = (Inr (rs, bd), w1) \<longrightarrow> cr_id rs \<noteq> []"
  shows "(case r of
      Inr (rs, bd) \<Rightarrow> is_fallback E (marker_path E ob key) (cr_id rs) s'
    | Inl (LedgerFailure e) \<Rightarrow> is_denial e \<or> is_marker E (marker_path E ob key) key s'
    | Inl (OutboxFailure e) \<Rightarrow> w' = w \<or> is_marker E (marker_path E ob key) key s')
    \<and> (spool_ok E s \<and> (\<forall>k. oe_lock E k) \<and> (\<forall>x. oe_size E x \<le> MAX_RECORD_BYTES - DEAD_METADATA_RESERVE_BYTES)
         \<and> (\<exists>h. fs_result (persistPreReserve E ob (now 0) key) s = Inr h)
       \<longrightarrow> r = (case fst (client_reserve key body w) of Inl e \<Rightarrow> Inl (LedgerFailure e) | Inr g \<Rightarrow> Inr g))"
  using http_reserve.guarded [OF assms(1,2)] http_reserve.reply_returned [OF _ assms(2),
      where ob = ob and now = now and key = key and s = s and body = body and w = w]
    assms(1,3) by auto

definition lost_run :: client_run where
  "lost_run = \<lparr>run_net = (\<lambda>n. if n = 0 then Unreachable else Answer \<lparr>hr_status = 404, hr_retryAfter = None,
     hr_body = BodyEmpty, hr_now = 0\<rparr>), run_waitOk = (\<lambda>_. True), run_posts = [], run_waits = []\<rparr>"

lemma lost_reserve: "\<exists>e w'. client_reserve ''k'' (Some JNull) lost_run = (Inl (RequestFailed e), w')"
  by (simp add: client_reserve_def send_def lost_run_def postOnce_def)

theorem reservation_never_unguarded_witness:
  "is_marker sample_env (marker_path sample_env sample_outbox ''k'') ''k''
     (fst (snd (durable_reserve sample_env sample_outbox (\<lambda>_. 1) (\<lambda>k. client_reserve k (Some JNull)) ''k'' [] lost_run)))"
proof -
  obtain e w1 where c: "client_reserve ''k'' (Some JNull) lost_run = (Inl (RequestFailed e), w1)"
    using lost_reserve by blast
  have mark: "\<exists>h. fs_result (persistPreReserve sample_env sample_outbox 1 ''k'') [] = Inr h"
    by (simp add: persistPreReserve_def trim_id is_ws_def Let_def with_lock_def readStored_def atomicWriteRecord_def
        MAX_RECORD_BYTES_def DEAD_METADATA_RESERVE_BYTES_def)
  obtain r s' w' where d: "durable_reserve sample_env sample_outbox (\<lambda>_. 1) (\<lambda>k. client_reserve k (Some JNull)) ''k'' [] lost_run
      = (r, s', w')"
    by (metis prod_cases3)
  with mark c have "r = Inl (LedgerFailure (RequestFailed e))"
    by (auto simp: durable_reserve_def Let_def is_denial_def)
  with reservation_never_unguarded [OF d] sample_hex c d show ?thesis by (simp add: is_denial_def)
qed

text \<open>C31. A durable close that returns normally was confirmed by Core; one that fails has either done
  nothing at all, or was confirmed by Core, or its exact intent is still in the spool, pending or as a
  dead letter.\<close>
theorem durable_close_is_honest:
  assumes "spool_inv E s" "http_net w" "oper \<noteq> RecoverPreDispatch" "isValidExactPayload oper payload"
    "\<forall>t. is_hex64 (oe_digest E t)"
    "durable_close E ob now (close (make_client a b) path (Some payload)) i oper (Some payload) s w = (r, s', w')"
  shows "(r = Inr () \<longrightarrow> (\<exists>j. close (make_client a b) path (Some payload) w = (Inr j, w')))
    \<and> (r \<noteq> Inr () \<longrightarrow> w' = w \<and> s' = s \<or> (\<exists>j. close (make_client a b) path (Some payload) w = (Inr j, w'))
        \<or> (\<exists>p x. rc_kind x = Exact \<and> rc_reservationId x = Some i \<and> sameExactIntent x oper payload \<and> kept E p x s'))"
  using http_close.honest [OF assms] .

lemma lost_close:
  "\<exists>w'. close (make_client None None) ''/p'' (Some (JObj [])) lost_run = (Inl (CloseFailed False (Some 404)), w') \<and> run_waits w' = [100]"
  by (simp add: close_def make_client_def boundedInteger_def eval_nat_numeral lost_run_def send_def
      postOnce_def Let_def MAX_CLOSE_RETRY_DELAY_MS_def closeError_def response_ok_def retryableHttpStatus_def)

theorem durable_close_is_honest_witness:
  "case durable_close sample_env sample_outbox (\<lambda>_. 9) (close (make_client None None) ''/p'' (Some (JObj []))) ''r1'' DoSettle
      (Some (JObj [])) sample_spool lost_run of
    (r, s', w') \<Rightarrow> r \<noteq> Inr () \<and> (\<exists>p x. rc_kind x = Exact \<and> rc_reservationId x = Some ''r1'' \<and> kept sample_env p x s')"
proof -
  obtain r s' w' where d: "durable_close sample_env sample_outbox (\<lambda>_. 9) (close (make_client None None) ''/p'' (Some (JObj [])))
      ''r1'' DoSettle (Some (JObj [])) sample_spool lost_run = (r, s', w')"
    by (metis prod_cases3)
  obtain w1 where c: "close (make_client None None) ''/p'' (Some (JObj [])) lost_run = (Inl (CloseFailed False (Some 404)), w1)"
    "run_waits w1 = [100]" using lost_close by blast
  have "w' = w1" using d c sample_close_stored by (auto simp: durable_close_def Let_def split: sum.splits)
  then have "w' \<noteq> lost_run" using c(2) by (auto simp: lost_run_def)
  moreover have "http_net lost_run" by (simp add: http_net_def lost_run_def)
  moreover have "isValidExactPayload DoSettle (JObj [])" by (simp add: isValidExactPayload_def isJsonObject_def)
  ultimately have "r \<noteq> Inr () \<and> (\<exists>p x. rc_kind x = Exact \<and> rc_reservationId x = Some ''r1'' \<and> kept sample_env p x s')"
    using durable_close_is_honest [OF sample_inv _ _ _ _ d] c(1) sample_hex by auto
  with d show ?thesis by simp
qed

end
