(* ===== verification/UnitStatus.thy ===== *)
theory UnitStatus
  imports Prelude
begin

text \<open>
  The status machine of an equipment unit, \<^verbatim>\<open>packages/shared/src/globerent/unit-status.ts\<close>: the
  statuses as texts, the semantic transitions with the statuses they start from, and the lists the
  warehouse service consults.  Display texts are left out.
\<close>

section \<open>Statuses and transitions\<close>

definition UNIT_STATUSES :: "string list" where
  "UNIT_STATUSES =
     [''NEW_REQUEST'', ''CONTRACT_SIGNED'', ''IN_PRODUCTION'', ''READY_FOR_SHIPMENT'',
      ''IN_TRANSIT_TO_BORDER'', ''IN_TRANSIT_TO_UZ'', ''AT_BORDER'', ''CUSTOMS_CLEARANCE'',
      ''IM74'', ''IM40'', ''DELIVERED_TO_WH'', ''IN_STOCK'', ''RESERVED'', ''SOLD'',
      ''DELIVERED_TO_CLIENT'', ''ARCHIVED'', ''CANCELLED'']"

record transition =
  tr_to :: string
  tr_from :: "string list"

definition UNIT_TRANSITIONS :: "(string \<times> transition) list" where
  "UNIT_TRANSITIONS =
     [(''mark-in-production'', \<lparr>tr_to = ''IN_PRODUCTION'', tr_from = [''CONTRACT_SIGNED'']\<rparr>),
      (''mark-ready-to-ship'', \<lparr>tr_to = ''READY_FOR_SHIPMENT'',
        tr_from = [''CONTRACT_SIGNED'', ''IN_PRODUCTION'']\<rparr>),
      (''mark-in-transit'', \<lparr>tr_to = ''IN_TRANSIT_TO_UZ'',
        tr_from = [''CUSTOMS_CLEARANCE'', ''AT_BORDER'', ''READY_FOR_SHIPMENT'', ''IN_TRANSIT_TO_BORDER'']\<rparr>),
      (''mark-at-border'', \<lparr>tr_to = ''AT_BORDER'',
        tr_from = [''IN_TRANSIT_TO_BORDER'', ''IN_TRANSIT_TO_UZ'', ''READY_FOR_SHIPMENT'']\<rparr>),
      (''mark-customs-im74'', \<lparr>tr_to = ''IM74'',
        tr_from = [''IN_TRANSIT_TO_UZ'', ''AT_BORDER'', ''CUSTOMS_CLEARANCE'']\<rparr>),
      (''mark-customs-im40'', \<lparr>tr_to = ''IM40'',
        tr_from = [''IN_TRANSIT_TO_UZ'', ''AT_BORDER'', ''CUSTOMS_CLEARANCE'', ''IM74'']\<rparr>),
      (''mark-delivered'', \<lparr>tr_to = ''DELIVERED_TO_WH'',
        tr_from = [''IM74'', ''IM40'', ''IN_TRANSIT_TO_UZ'', ''AT_BORDER'']\<rparr>),
      (''to-stock'', \<lparr>tr_to = ''IN_STOCK'', tr_from = [''DELIVERED_TO_WH'']\<rparr>),
      (''mark-sold'', \<lparr>tr_to = ''SOLD'', tr_from = [''IN_STOCK'', ''RESERVED'', ''DELIVERED_TO_WH'']\<rparr>),
      (''mark-handover'', \<lparr>tr_to = ''DELIVERED_TO_CLIENT'', tr_from = [''SOLD'']\<rparr>),
      (''cancel'', \<lparr>tr_to = ''CANCELLED'', tr_from = [''NEW_REQUEST'', ''CONTRACT_SIGNED'', ''IN_PRODUCTION'']\<rparr>),
      (''archive'', \<lparr>tr_to = ''ARCHIVED'', tr_from = [''DELIVERED_TO_CLIENT'', ''CANCELLED'']\<rparr>)]"

datatype transition_error = UnknownAction string | UnknownStatus string | NotFrom string string

definition unitTransitionError :: "string \<Rightarrow> string \<Rightarrow> transition_error option" where
  "unitTransitionError action current = (case map_of UNIT_TRANSITIONS action of
     None \<Rightarrow> Some (UnknownAction action)
   | Some t \<Rightarrow>
       if current \<notin> set UNIT_STATUSES then Some (UnknownStatus current)
       else if current \<notin> set (tr_from t) then Some (NotFrom action current)
       else None)"

section \<open>Lists the services consult\<close>

definition VIN_UNBIND_ALLOWED :: "string list" where
  "VIN_UNBIND_ALLOWED = [''IN_TRANSIT_TO_UZ'', ''CONTRACT_SIGNED'']"

definition RESERVE_ALLOWED :: "string list" where
  "RESERVE_ALLOWED = [''IN_STOCK'', ''DELIVERED_TO_WH'']"

definition SALE_START_ALLOWED :: "string list" where
  "SALE_START_ALLOWED = [''IN_STOCK'', ''DELIVERED_TO_WH'', ''RESERVED'']"

definition UNIT_GROUPS :: "(string \<times> string list) list" where
  "UNIT_GROUPS =
     [(''zayavka'', [''NEW_REQUEST'', ''CONTRACT_SIGNED'']),
      (''production'', [''IN_PRODUCTION'', ''READY_FOR_SHIPMENT'']),
      (''transit'', [''IN_TRANSIT_TO_BORDER'', ''IN_TRANSIT_TO_UZ'']),
      (''border'', [''AT_BORDER'']),
      (''im74'', [''CUSTOMS_CLEARANCE'', ''IM74'']),
      (''im40'', [''IM40'']),
      (''stock'', [''DELIVERED_TO_WH'', ''IN_STOCK'', ''RESERVED'', ''SOLD'', ''DELIVERED_TO_CLIENT'']),
      (''closed'', [''ARCHIVED'', ''CANCELLED''])]"

definition SALES_STAGES :: "string list" where
  "SALES_STAGES =
     [''NEW_LEAD'', ''NEGOTIATION'', ''PRICE_OFFER'', ''WAITING_CONTRACT'', ''WAITING_ADVANCE'',
      ''ADVANCE_PAID'', ''WAITING_FINAL'', ''FULLY_PAID'', ''READY_TO_SHIP'', ''DELIVERED'', ''CLOSED'', ''LOST'']"

definition STAGES_REQUIRE_PRICE :: "string list" where
  "STAGES_REQUIRE_PRICE = [''WAITING_ADVANCE'', ''WAITING_FINAL'', ''READY_TO_SHIP'']"

section \<open>Facts about the tables\<close>

lemma groups_distinct: "distinct (concat (map snd UNIT_GROUPS))"
  by (simp add: UNIT_GROUPS_def)

lemma groups_cover: "set (concat (map snd UNIT_GROUPS)) = set UNIT_STATUSES"
  by (auto simp: UNIT_GROUPS_def UNIT_STATUSES_def)

lemma transition_statuses:
  "map_of UNIT_TRANSITIONS a = Some t \<Longrightarrow> tr_to t \<in> set UNIT_STATUSES \<and> set (tr_from t) \<subseteq> set UNIT_STATUSES"
  by (auto simp: UNIT_TRANSITIONS_def UNIT_STATUSES_def split: if_splits)

lemma transition_not_reserved:
  "map_of UNIT_TRANSITIONS a = Some t \<Longrightarrow> tr_to t \<noteq> ''RESERVED''"
  by (auto simp: UNIT_TRANSITIONS_def split: if_splits)

lemma reserved_only_sold:
  "map_of UNIT_TRANSITIONS a = Some t \<Longrightarrow> ''RESERVED'' \<in> set (tr_from t) \<Longrightarrow> a = ''mark-sold''"
  by (auto simp: UNIT_TRANSITIONS_def split: if_splits)

lemma unitTransitionError_None:
  "unitTransitionError a s = None \<longleftrightarrow> (\<exists>t. map_of UNIT_TRANSITIONS a = Some t \<and> s \<in> set (tr_from t))"
  using transition_statuses by (auto simp: unitTransitionError_def split: option.split)

lemma archived_final: "unitTransitionError a ''ARCHIVED'' \<noteq> None"
  by (auto simp: unitTransitionError_None UNIT_TRANSITIONS_def split: if_splits)

end
