(* ===== verification/ImportLifecycle.thy ===== *)
theory ImportLifecycle
  imports UnitStatus
begin

text \<open>
  The life cycle of an import contract, \<^verbatim>\<open>packages/shared/src/globerent/import-lifecycle.ts\<close>: phases
  ordered by their rank, the phase derived from the statuses of the units, and the step that only moves
  forward.  The rank makes the phases an instance of the library's linear orders.
\<close>

datatype import_lifecycle =
    LcDraft | LcSigned | LcPaying | LcShipping | LcCustoms | LcWarehoused | LcDelivered | LcClosed | LcCancelled

definition IMPORT_LIFECYCLE :: "import_lifecycle list" where
  "IMPORT_LIFECYCLE =
     [LcDraft, LcSigned, LcPaying, LcShipping, LcCustoms, LcWarehoused, LcDelivered, LcClosed, LcCancelled]"

fun lifecycleRank :: "import_lifecycle \<Rightarrow> int" where
  "lifecycleRank LcCancelled = -1"
| "lifecycleRank LcDraft = 0"
| "lifecycleRank LcSigned = 1"
| "lifecycleRank LcPaying = 2"
| "lifecycleRank LcShipping = 3"
| "lifecycleRank LcCustoms = 4"
| "lifecycleRank LcWarehoused = 5"
| "lifecycleRank LcDelivered = 6"
| "lifecycleRank LcClosed = 7"

lemma lifecycleRank_inj: "lifecycleRank a = lifecycleRank b \<Longrightarrow> a = b"
  by (cases a; cases b) simp_all

instantiation import_lifecycle :: linorder
begin

definition less_eq_import_lifecycle :: "import_lifecycle \<Rightarrow> import_lifecycle \<Rightarrow> bool" where
  "less_eq_import_lifecycle a b \<longleftrightarrow> lifecycleRank a \<le> lifecycleRank b"

definition less_import_lifecycle :: "import_lifecycle \<Rightarrow> import_lifecycle \<Rightarrow> bool" where
  "less_import_lifecycle a b \<longleftrightarrow> lifecycleRank a < lifecycleRank b"

instance
proof
  fix a b c :: import_lifecycle
  show "(a < b) = (a \<le> b \<and> \<not> b \<le> a)" "a \<le> a"
    by (auto simp: less_eq_import_lifecycle_def less_import_lifecycle_def)
  show "a \<le> b \<Longrightarrow> b \<le> c \<Longrightarrow> a \<le> c" "a \<le> b \<or> b \<le> a"
    by (auto simp: less_eq_import_lifecycle_def)
  show "a \<le> b \<Longrightarrow> b \<le> a \<Longrightarrow> a = b"
    by (auto simp: less_eq_import_lifecycle_def intro: lifecycleRank_inj)
qed

end

section \<open>The phase of a contract\<close>

definition WAREHOUSED_UNITS :: "string list" where
  "WAREHOUSED_UNITS = [''DELIVERED_TO_WH'', ''IM40'']"

definition CUSTOMS_UNITS :: "string list" where
  "CUSTOMS_UNITS = [''AT_BORDER'', ''CUSTOMS_CLEARANCE'', ''IM74'']"

definition SHIPPING_UNITS :: "string list" where
  "SHIPPING_UNITS = [''READY_FOR_SHIPMENT'', ''IN_TRANSIT_TO_BORDER'', ''IN_TRANSIT_TO_UZ'']"

definition is_active_status :: "string \<Rightarrow> bool" where
  "is_active_status s \<longleftrightarrow> s \<noteq> ''CANCELLED'' \<and> s \<noteq> ''ARCHIVED''"

definition lifecycleFromUnits :: "string list \<Rightarrow> import_lifecycle option" where
  "lifecycleFromUnits unitStatuses =
     (let active = filter is_active_status unitStatuses;
          has = (\<lambda>xs. list_ex (\<lambda>s. s \<in> set xs) active) in
      if active = [] then None
      else if has WAREHOUSED_UNITS then Some LcWarehoused
      else if has CUSTOMS_UNITS then Some LcCustoms
      else if has SHIPPING_UNITS then Some LcShipping
      else Some LcSigned)"

definition monotonicLifecycleStep ::
  "import_lifecycle \<Rightarrow> import_lifecycle option \<Rightarrow> import_lifecycle option" where
  "monotonicLifecycleStep current computed = (case computed of
     None \<Rightarrow> None
   | Some c \<Rightarrow>
       if current = LcClosed \<or> current = LcCancelled then None
       else if lifecycleRank c > lifecycleRank current then Some c
       else None)"

definition finalLifecycle :: "(bool \<times> bool) list \<Rightarrow> bool \<Rightarrow> import_lifecycle option" where
  "finalLifecycle activeUnits allSaleContractsPaid =
     (if activeUnits = [] then None
      else if \<not> list_all (\<lambda>(inHandoverAct, hasSaleContract). inHandoverAct \<and> hasSaleContract) activeUnits then None
      else Some (if allSaleContractsPaid then LcClosed else LcDelivered))"

section \<open>Facts\<close>

lemma step_increases: "monotonicLifecycleStep current computed = Some c \<Longrightarrow> current < c \<and> computed = Some c"
  by (auto simp: monotonicLifecycleStep_def less_import_lifecycle_def split: option.splits if_splits)

lemma step_frozen: "current = LcClosed \<or> current = LcCancelled \<Longrightarrow> monotonicLifecycleStep current computed = None"
  by (auto simp: monotonicLifecycleStep_def split: option.split)

lemma lifecycleFromUnits_range:
  "lifecycleFromUnits ss = Some c \<Longrightarrow> c \<in> {LcSigned, LcShipping, LcCustoms, LcWarehoused}"
  by (auto simp: lifecycleFromUnits_def Let_def split: if_splits)

text \<open>Moving units forward along the pipeline up to the warehouse never lowers the derived phase.\<close>

lemma least_phase: "lifecycleFromUnits ss = Some c \<Longrightarrow> LcSigned \<le> c"
  using lifecycleFromUnits_range by (fastforce simp: less_eq_import_lifecycle_def)

end
