(* ===== verification/JsArith.thy ===== *)
theory JsArith
  imports JsNumber
begin

text \<open>
  Arithmetic of JavaScript numbers on the doubles of \<open>JsNumber\<close>: the exact result rounded to the
  nearest double, \<open>Math.round\<close>, the comparisons, and the decimal value of \<open>String(n)\<close>.
  The two zeros are one value, so a quotient by zero takes the sign of its dividend.
\<close>

section \<open>Operations\<close>

fun js_neg :: "jsnum \<Rightarrow> jsnum" where
  "js_neg NaN = NaN"
| "js_neg (Infty b) = Infty (\<not> b)"
| "js_neg (Fin q) = Fin (- q)"

fun js_add :: "jsnum \<Rightarrow> jsnum \<Rightarrow> jsnum" where
  "js_add (Fin a) (Fin b) = to_double (a + b)"
| "js_add NaN _ = NaN"
| "js_add _ NaN = NaN"
| "js_add (Infty a) (Infty b) = (if a = b then Infty a else NaN)"
| "js_add (Infty a) (Fin _) = Infty a"
| "js_add (Fin _) (Infty b) = Infty b"

definition js_sub :: "jsnum \<Rightarrow> jsnum \<Rightarrow> jsnum" where
  "js_sub x y = js_add x (js_neg y)"

fun js_mul :: "jsnum \<Rightarrow> jsnum \<Rightarrow> jsnum" where
  "js_mul (Fin a) (Fin b) = to_double (a * b)"
| "js_mul NaN _ = NaN"
| "js_mul _ NaN = NaN"
| "js_mul (Infty a) (Infty b) = Infty (a = b)"
| "js_mul (Infty a) (Fin q) = (if q = 0 then NaN else Infty (a = (q > 0)))"
| "js_mul (Fin q) (Infty b) = (if q = 0 then NaN else Infty (b = (q > 0)))"

fun js_div :: "jsnum \<Rightarrow> jsnum \<Rightarrow> jsnum" where
  "js_div (Fin a) (Fin b) = (if b = 0 then (if a = 0 then NaN else Infty (a > 0)) else to_double (a / b))"
| "js_div NaN _ = NaN"
| "js_div _ NaN = NaN"
| "js_div (Infty a) (Infty b) = NaN"
| "js_div (Infty a) (Fin q) = Infty (a = (q \<ge> 0))"
| "js_div (Fin q) (Infty b) = Fin 0"

fun js_round :: "jsnum \<Rightarrow> jsnum" where
  "js_round (Fin q) = Fin (of_int \<lfloor>q + 1 / 2\<rfloor>)"
| "js_round v = v"

fun js_less :: "jsnum \<Rightarrow> jsnum \<Rightarrow> bool" where
  "js_less (Fin a) (Fin b) = (a < b)"
| "js_less NaN _ = False"
| "js_less _ NaN = False"
| "js_less (Infty a) (Infty b) = (\<not> a \<and> b)"
| "js_less (Infty a) (Fin _) = (\<not> a)"
| "js_less (Fin _) (Infty b) = b"

definition js_leq :: "jsnum \<Rightarrow> jsnum \<Rightarrow> bool" where
  "js_leq x y \<longleftrightarrow> js_less x y \<or> (x = y \<and> x \<noteq> NaN)"

definition js_max :: "jsnum \<Rightarrow> jsnum \<Rightarrow> jsnum" where
  "js_max x y = (if x = NaN \<or> y = NaN then NaN else if js_less x y then y else x)"

definition js_min :: "jsnum \<Rightarrow> jsnum \<Rightarrow> jsnum" where
  "js_min x y = (if x = NaN \<or> y = NaN then NaN else if js_less y x then y else x)"

definition js_finite :: "jsnum \<Rightarrow> bool" where
  "js_finite v = (case v of Fin _ \<Rightarrow> True | _ \<Rightarrow> False)"

section \<open>Printing\<close>

text \<open>The decimal exponent of a positive rational, found from the digits of its integer part or from
  the first power of ten that lifts it to one.\<close>

fun lift_exponent :: "nat \<Rightarrow> rat \<Rightarrow> int" where
  "lift_exponent 0 q = 0"
| "lift_exponent (Suc k) q = (if 1 \<le> q then 0 else lift_exponent k (q * 10) - 1)"

fun drop_exponent :: "nat \<Rightarrow> rat \<Rightarrow> int" where
  "drop_exponent 0 q = 0"
| "drop_exponent (Suc k) q = (if q < 10 then 0 else drop_exponent k (q / 10) + 1)"

definition pow10 :: "int \<Rightarrow> rat" where
  "pow10 k = (if 0 \<le> k then 10 ^ nat k else 1 / 10 ^ nat (- k))"

definition decimal_exponent :: "rat \<Rightarrow> int" where
  "decimal_exponent q = (if 1 \<le> q then drop_exponent 309 q else lift_exponent 325 q)"

text \<open>The value of \<open>String(n)\<close>: the decimal with the fewest digits that reads back as the same
  double.\<close>

fun shortest_from :: "nat \<Rightarrow> nat \<Rightarrow> rat \<Rightarrow> rat" where
  "shortest_from 0 p q = q"
| "shortest_from (Suc k) p q =
     (let u = pow10 (decimal_exponent q - int p + 1); c = of_int \<lfloor>q / u + 1 / 2\<rfloor> * u in
      if to_double c = Fin q then c else shortest_from k (p + 1) q)"

definition printed :: "rat \<Rightarrow> rat" where
  "printed q = (if q = 0 then 0 else if 0 < q then shortest_from 17 1 q else - shortest_from 17 1 (- q))"

section \<open>A numeric column\<close>

text \<open>The value a \<open>numeric(18,2)\<close> column keeps of a decimal: rounded half away from zero to two digits;
  \<open>None\<close> when it does not fit.\<close>

definition numeric_18_2 :: "rat \<Rightarrow> rat option" where
  "numeric_18_2 q =
     (let n = \<lfloor>\<bar>q\<bar> * 100 + 1 / 2\<rfloor>; r = of_int n / 100 in
      if r \<ge> 10 ^ 16 then None else Some (if q < 0 then - r else r))"

section \<open>Whole numbers are exact\<close>

definition whole :: "rat \<Rightarrow> bool" where
  "whole q \<longleftrightarrow> q = of_int \<lfloor>q\<rfloor>"

lemma whole_of_int [simp]: "whole (of_int n)"
  by (simp add: whole_def)

lemma wholeE: "whole q \<Longrightarrow> \<exists>n. q = of_int n"
  by (auto simp: whole_def)

lemma to_double_neg: "to_double (- q) = js_neg (to_double q)"
  by (auto simp: to_double_def Let_def)

lemma to_double_whole:
  assumes "\<bar>n\<bar> < 2 ^ 53"
  shows "to_double (of_int n) = Fin (of_int n)"
proof (cases "0 \<le> n")
  case True
  with assms show ?thesis by (simp add: to_double_int)
next
  case False
  with assms have "to_double (of_int (- n)) = Fin (of_int (- n))" by (intro to_double_int) auto
  then show ?thesis using to_double_neg [of "of_int (- n)"] by simp
qed

lemma js_add_whole: "\<bar>m + n\<bar> < 2 ^ 53 \<Longrightarrow> js_add (Fin (of_int m)) (Fin (of_int n)) = Fin (of_int (m + n))"
  using to_double_whole [of "m + n"] by simp

lemma js_mul_whole: "\<bar>m * n\<bar> < 2 ^ 53 \<Longrightarrow> js_mul (Fin (of_int m)) (Fin (of_int n)) = Fin (of_int (m * n))"
  using to_double_whole [of "m * n"] by simp

lemma js_round_whole [simp]: "js_round (Fin (of_int n)) = Fin (of_int n)"
  by (simp add: floor_unique)

lemma js_div_whole: "\<bar>n\<bar> < 2 ^ 53 \<Longrightarrow> k \<noteq> 0 \<Longrightarrow> js_div (Fin (of_int (n * k))) (Fin (of_int k)) = Fin (of_int n)"
  using to_double_whole [of n] by simp

lemma to_double_numeral:
  "(numeral w :: int) < 2 ^ 53 \<Longrightarrow> to_double (numeral w) = Fin (numeral w)"
  using to_double_whole [of "numeral w"] by simp

lemma to_double_01 [simp]: "to_double 0 = Fin 0" "to_double 1 = Fin 1"
  using to_double_whole [of 1] by (simp_all add: to_double_def)

section \<open>Whole numbers print as themselves\<close>

lemma drop_exponent_bounds: "1 \<le> q \<Longrightarrow> 0 \<le> drop_exponent k q \<and> 10 ^ nat (drop_exponent k q) \<le> q"
proof (induction k q rule: drop_exponent.induct)
  case (1 q)
  then show ?case by simp
next
  case (2 k q)
  show ?case
  proof (cases "q < 10")
    case True
    with 2 show ?thesis by simp
  next
    case False
    with 2 have "0 \<le> drop_exponent k (q / 10)" "10 ^ nat (drop_exponent k (q / 10)) \<le> q / 10" by simp_all
    with False show ?thesis by (simp add: nat_add_distrib)
  qed
qed

lemma shortest_whole:
  assumes "0 < n" "n < 10 ^ 15" "int p \<le> decimal_exponent (of_int n) + 1" "0 < p"
  shows "shortest_from k p (of_int n) = of_int n"
  using assms(3,4)
proof (induction k arbitrary: p)
  case 0
  then show ?case by simp
next
  case (Suc k)
  define e where "e = decimal_exponent (of_int n)"
  define j where "j = nat (e - int p + 1)"
  have e: "0 \<le> e" "10 ^ nat e \<le> (of_int n :: rat)"
    using drop_exponent_bounds [of "of_int n" 309] assms(1) by (auto simp: e_def decimal_exponent_def)
  have j: "e - int p + 1 = int j" using Suc.prems by (simp add: j_def e_def)
  then have u: "pow10 (decimal_exponent (of_int n) - int p + 1) = of_int (10 ^ j)" by (simp add: pow10_def e_def)
  define m where "m = \<lfloor>of_int n / of_int (10 ^ j) + (1 / 2 :: rat)\<rfloor>"
  define c where "c = m * 10 ^ j"
  have "of_int \<lfloor>of_int n / of_int (10 ^ j) + (1 / 2 :: rat)\<rfloor> * of_int (10 ^ j) = (of_int c :: rat)"
    by (simp add: c_def m_def)
  then have step: "shortest_from (Suc k) p (of_int n) =
      (if to_double (of_int c) = Fin (of_int n) then of_int c else shortest_from k (p + 1) (of_int n))"
    by (simp only: shortest_from.simps Let_def u)
  show ?case
  proof (cases "c = n")
    case True
    have "to_double (of_int n) = Fin (of_int n)" using assms(1,2) by (intro to_double_whole) simp
    with True show ?thesis by (simp only: step if_True refl)
  next
    case False
    have "(10 :: int) ^ j \<le> 10 ^ nat e" using j Suc.prems(2) by (intro power_increasing) auto
    also have "\<dots> \<le> n" using e(2) by (metis of_int_le_iff of_int_numeral of_int_power)
    finally have small: "10 ^ j \<le> n" .
    have pos: "(0 :: rat) < of_int (10 ^ j)" by simp
    have "of_int m \<le> of_int n / of_int (10 ^ j) + (1 / 2 :: rat)" unfolding m_def by (rule of_int_floor_le)
    then have "of_int m * of_int (10 ^ j) \<le> (of_int n / of_int (10 ^ j) + 1 / 2) * (of_int (10 ^ j) :: rat)"
      using pos by (intro mult_right_mono) auto
    then have "of_int c \<le> of_int n + (of_int (10 ^ j) :: rat) / 2" using pos by (simp add: c_def distrib_right)
    then have "(of_int (2 * c) :: rat) \<le> of_int (2 * n + 10 ^ j)" by simp
    then have "2 * c \<le> 2 * n + 10 ^ j" by (simp only: of_int_le_iff)
    with small assms(2) have "c < 2 ^ 53" by simp
    moreover have "0 \<le> m" unfolding m_def using assms(1) pos by simp
    then have "0 \<le> c" by (simp add: c_def)
    ultimately have "to_double (of_int c) = Fin (of_int c)" by (intro to_double_whole) simp
    with False have neq: "to_double (of_int c) \<noteq> Fin (of_int n)" by simp
    have "j \<noteq> 0"
    proof
      assume "j = 0"
      then have "m = n" unfolding m_def by (simp add: floor_unique)
      with \<open>j = 0\<close> False show False by (simp add: c_def)
    qed
    then have "int (p + 1) \<le> decimal_exponent (of_int n) + 1" using j by (simp add: e_def)
    then have "shortest_from k (p + 1) (of_int n) = of_int n" by (intro Suc.IH) simp_all
    with neq show ?thesis by (simp only: step if_False)
  qed
qed

lemma printed_whole: "0 \<le> n \<Longrightarrow> n < 10 ^ 15 \<Longrightarrow> printed (of_int n) = of_int n"
proof (cases "n = 0")
  case False
  assume n: "0 \<le> n" "n < 10 ^ 15"
  have "0 \<le> decimal_exponent (of_int n)"
    using drop_exponent_bounds [of "of_int n" 309] False n(1) by (auto simp: decimal_exponent_def)
  with n False show ?thesis by (simp add: printed_def shortest_whole)
qed (simp add: printed_def)

lemma numeric_18_2_whole: "0 \<le> n \<Longrightarrow> n < 10 ^ 16 \<Longrightarrow> numeric_18_2 (of_int n) = Some (of_int n)"
proof -
  assume n: "0 \<le> n" "n < 10 ^ 16"
  have "\<lfloor>of_int n * 100 + 1 / 2 :: rat\<rfloor> = n * 100" by (rule floor_unique) simp_all
  moreover have "(of_int n :: rat) < 10 ^ 16" using n(2) by (metis of_int_less_iff of_int_numeral of_int_power)
  ultimately show ?thesis using n by (simp add: numeric_18_2_def Let_def)
qed

end
