(* ===== verification/Commission.thy ===== *)
theory Commission
  imports JsArith "HOL-Library.Product_Lexorder"
begin

text \<open>
  The cost of a unit and the commission of its manager:
  \<^verbatim>\<open>packages/shared/src/globerent/unit-cogs.ts\<close> and \<^verbatim>\<open>globerent/commission.ts\<close>.  Amounts are
  JavaScript numbers; the limits and rates of a tier are finite and kept as rationals.
\<close>

section \<open>Cost of a unit\<close>

record cogs_row =
  cg_category :: "string option"
  cg_uzs :: "jsnum option"

record cogs =
  cb_supplier :: jsnum
  cb_logistics :: jsnum
  cb_customs :: jsnum
  cb_other :: jsnum
  cb_totalUzs :: jsnum
  cb_unconverted :: int

definition round2 :: "jsnum \<Rightarrow> jsnum" where
  "round2 n = js_div (js_round (js_mul n (Fin 100))) (Fin 100)"

definition cogs_empty :: cogs where
  "cogs_empty = \<lparr>cb_supplier = Fin 0, cb_logistics = Fin 0, cb_customs = Fin 0, cb_other = Fin 0,
     cb_totalUzs = Fin 0, cb_unconverted = 0\<rparr>"

definition cogs_step :: "cogs \<Rightarrow> cogs_row \<Rightarrow> cogs" where
  "cogs_step b r = (case cg_uzs r of
     Some (Fin q) \<Rightarrow>
       (let b' =
          (if cg_category r = Some ''supplier'' then b\<lparr>cb_supplier := js_add (cb_supplier b) (Fin q)\<rparr>
           else if cg_category r = Some ''logistics'' then b\<lparr>cb_logistics := js_add (cb_logistics b) (Fin q)\<rparr>
           else if cg_category r = Some ''customs'' then b\<lparr>cb_customs := js_add (cb_customs b) (Fin q)\<rparr>
           else b\<lparr>cb_other := js_add (cb_other b) (Fin q)\<rparr>) in
        b'\<lparr>cb_totalUzs := js_add (cb_totalUzs b') (Fin q)\<rparr>)
   | _ \<Rightarrow> b\<lparr>cb_unconverted := cb_unconverted b + 1\<rparr>)"

definition cogsBreakdown :: "cogs_row list \<Rightarrow> cogs" where
  "cogsBreakdown rows =
     (let b = foldl cogs_step cogs_empty rows in
      b\<lparr>cb_supplier := round2 (cb_supplier b), cb_logistics := round2 (cb_logistics b),
        cb_customs := round2 (cb_customs b), cb_other := round2 (cb_other b),
        cb_totalUzs := round2 (cb_totalUzs b)\<rparr>)"

definition unitMargin :: "jsnum \<Rightarrow> jsnum \<Rightarrow> jsnum \<times> jsnum option" where
  "unitMargin salePrice costTotal =
     (let margin = round2 (js_sub salePrice costTotal) in
      (margin, if js_less (Fin 0) salePrice then Some (round2 (js_mul (js_div margin salePrice) (Fin 100))) else None))"

section \<open>Commission\<close>

datatype commission_method = MarginRate | Tiers | FlatBonus

definition COMMISSION_METHODS :: "(string \<times> commission_method) list" where
  "COMMISSION_METHODS = [(''margin_rate'', MarginRate), (''tiers'', Tiers), (''flat_bonus'', FlatBonus)]"

definition commissionMarginRate :: "jsnum \<Rightarrow> jsnum \<Rightarrow> jsnum \<Rightarrow> jsnum option" where
  "commissionMarginRate salePrice costTotal ratePct =
     (if \<not> js_finite salePrice \<or> \<not> js_finite costTotal then None
      else if js_leq salePrice (Fin 0) then None
      else Some (js_div (js_round (js_mul (js_sub salePrice costTotal) ratePct)) (Fin 100)))"

datatype base_type = NetPocket | MarginBase | RevenueBase

record commission_tier =
  ct_positionId :: "string option"
  ct_marginPctFrom :: rat
  ct_marginPctTo :: "rat option"
  ct_ratePct :: rat
  ct_baseType :: base_type

definition general_tier :: "rat \<Rightarrow> rat option \<Rightarrow> rat \<Rightarrow> commission_tier" where
  "general_tier a b rate = \<lparr>ct_positionId = None, ct_marginPctFrom = a, ct_marginPctTo = b, ct_ratePct = rate,
     ct_baseType = NetPocket\<rparr>"

definition DEFAULT_COMMISSION_TIERS :: "commission_tier list" where
  "DEFAULT_COMMISSION_TIERS =
     [general_tier 0 (Some 5) (1 / 2), general_tier 5 (Some 10) (3 / 2),
      general_tier 10 (Some 15) (5 / 2), general_tier 15 None (7 / 2)]"

definition tier_applies :: "jsnum \<Rightarrow> string option \<Rightarrow> commission_tier \<Rightarrow> bool" where
  "tier_applies marginPct positionId t \<longleftrightarrow>
     js_leq (Fin (ct_marginPctFrom t)) marginPct
     \<and> (case ct_marginPctTo t of None \<Rightarrow> True | Some b \<Rightarrow> js_less marginPct (Fin b))
     \<and> (ct_positionId t = None \<or> ct_positionId t = positionId)"

text \<open>The order of the candidates: personal tiers first, then the larger lower limit.\<close>

definition tier_key :: "commission_tier \<Rightarrow> bool \<times> rat" where
  "tier_key t = (ct_positionId t = None, - ct_marginPctFrom t)"

definition pickTier :: "commission_tier list \<Rightarrow> jsnum \<Rightarrow> string option \<Rightarrow> commission_tier option" where
  "pickTier tiers marginPct positionId =
     (case sort_key tier_key (filter (tier_applies marginPct positionId) tiers) of
        [] \<Rightarrow> None | t # _ \<Rightarrow> Some t)"

record tier_result =
  tq_commission :: jsnum
  tq_marginPct :: jsnum
  tq_tier :: commission_tier

definition commissionTiers ::
  "jsnum \<Rightarrow> jsnum \<Rightarrow> jsnum option \<Rightarrow> jsnum option \<Rightarrow> commission_tier list option \<Rightarrow> string option \<Rightarrow> tier_result option" where
  "commissionTiers sale cost qtyOpt netPocketPerUnit tiers positionId =
     (if \<not> js_finite sale \<or> \<not> js_finite cost \<or> js_leq sale (Fin 0) \<or> js_leq cost (Fin 0) then None
      else
        (let qty = js_max (Fin 1) (case qtyOpt of None \<Rightarrow> Fin 1 | Some q \<Rightarrow> q);
             marginPct = round2 (js_mul (js_div (js_sub sale cost) cost) (Fin 100)) in
         case pickTier (case tiers of None \<Rightarrow> DEFAULT_COMMISSION_TIERS | Some ts \<Rightarrow> ts) marginPct positionId of
           None \<Rightarrow> None
         | Some tier \<Rightarrow>
            (case (case ct_baseType tier of
                NetPocket \<Rightarrow> (case netPocketPerUnit of
                    Some (Fin p) \<Rightarrow> Some (js_mul (Fin p) qty) | _ \<Rightarrow> None)
              | MarginBase \<Rightarrow> Some (js_sub sale cost)
              | RevenueBase \<Rightarrow> Some (js_mul sale qty)) of
               None \<Rightarrow> None
             | Some base \<Rightarrow>
                 Some \<lparr>tq_commission = round2 (js_div (js_mul base (Fin (ct_ratePct tier))) (Fin 100)),
                   tq_marginPct = marginPct, tq_tier = tier\<rparr>)))"

definition commissionFlatBonus :: "jsnum \<Rightarrow> jsnum option \<Rightarrow> jsnum" where
  "commissionFlatBonus netProfitTotal ratePct =
     (let rate = js_div (case ratePct of None \<Rightarrow> Fin 8 | Some r \<Rightarrow> r) (Fin 100) in
      round2 (js_mul (js_max (Fin 0) netProfitTotal) rate))"

datatype commission_note = NoPriceOrCost | PriceNotSet | RateNotSet | NoPriceOrOfficialCost | NoTierOrBase
  | NoProfit | ProfitNotPositive

record commission_result =
  cn_method :: commission_method
  cn_commission :: jsnum
  cn_note :: "commission_note option"

record figures =
  fg_salePrice :: "jsnum option"
  fg_costTotal :: "jsnum option"
  fg_costOfficialTotal :: "jsnum option"
  fg_netProfitTotal :: "jsnum option"
  fg_netPocketPerUnit :: "jsnum option"
  fg_qty :: "jsnum option"
  fg_ratePct :: "jsnum option"
  fg_tiers :: "commission_tier list option"
  fg_positionId :: "string option"

definition no_commission :: "commission_method \<Rightarrow> commission_note \<Rightarrow> commission_result" where
  "no_commission m note = \<lparr>cn_method = m, cn_commission = Fin 0, cn_note = Some note\<rparr>"

definition computeCommission :: "commission_method \<Rightarrow> figures \<Rightarrow> commission_result" where
  "computeCommission m f = (case m of
     MarginRate \<Rightarrow>
       (case (fg_salePrice f, fg_costTotal f) of
          (Some sale, Some cost) \<Rightarrow>
            (let rate = (case fg_ratePct f of None \<Rightarrow> Fin 0 | Some r \<Rightarrow> r) in
             case commissionMarginRate sale cost rate of
               None \<Rightarrow> no_commission m PriceNotSet
             | Some c \<Rightarrow> \<lparr>cn_method = m, cn_commission = c, cn_note = (if rate = Fin 0 then Some RateNotSet else None)\<rparr>)
        | _ \<Rightarrow> no_commission m NoPriceOrCost)
   | Tiers \<Rightarrow>
       (case (fg_salePrice f, fg_costOfficialTotal f) of
          (Some sale, Some cost) \<Rightarrow>
            (case commissionTiers sale cost (fg_qty f) (fg_netPocketPerUnit f) (fg_tiers f) (fg_positionId f) of
               None \<Rightarrow> no_commission m NoTierOrBase
             | Some r \<Rightarrow> \<lparr>cn_method = m, cn_commission = tq_commission r, cn_note = None\<rparr>)
        | _ \<Rightarrow> no_commission m NoPriceOrOfficialCost)
   | FlatBonus \<Rightarrow>
       (case fg_netProfitTotal f of
          None \<Rightarrow> no_commission m NoProfit
        | Some p \<Rightarrow> \<lparr>cn_method = m, cn_commission = commissionFlatBonus p (fg_ratePct f),
            cn_note = (if js_leq p (Fin 0) then Some ProfitNotPositive else None)\<rparr>))"

end
