(* ===== verification/GlobState.thy ===== *)
theory GlobState
  imports ImportLifecycle Commission "HOL-Library.List_Lexorder"
begin

text \<open>
  The tables of the GLOBERENT contour of Core (equipment units and their reserves, import contracts,
  money flows, exchange rates) and the steps its services share.

  A transaction is a function from the tables to an error or to the new tables with its result; rows
  are locked while it runs, so nothing interleaves.  Dates are ISO texts.  What PostgreSQL makes of a
  date text, the current day in Tashkent and in the database, and the ids of new rows are the environment.  Foreign keys,
  the audit payloads and the time-stamp columns are left out.
\<close>

section \<open>Tables\<close>

record unit_row =
  ut_id :: string
  ut_orgId :: string
  ut_code :: string
  ut_name :: string
  ut_modelId :: "string option"
  ut_year :: "int option"
  ut_vin :: "string option"
  ut_status :: string
  ut_salesStage :: "string option"
  ut_lostReason :: "string option"
  ut_salesPrice :: "rat option"
  ut_clientId :: "string option"
  ut_contractId :: "string option"
  ut_importContractId :: "string option"
  ut_arrivalDate :: "string option"
  ut_declarationType :: "string option"
  ut_declarationNumber :: "string option"
  ut_declarationDate :: "string option"
  ut_transportCompany :: "string option"
  ut_notes :: "string option"

record reserve_row =
  rv_id :: string
  rv_unitId :: string
  rv_clientId :: "string option"
  rv_endDate :: string
  rv_status :: string
  rv_note :: "string option"

record flow_row =
  mf_id :: string
  mf_orgId :: "string option"
  mf_direction :: string
  mf_amount :: rat
  mf_currency :: string
  mf_source :: string
  mf_extId :: "string option"
  mf_purpose :: "string option"
  mf_cashSymbol :: "string option"
  mf_status :: string
  mf_category :: "string option"
  mf_method :: "string option"
  mf_isOfficial :: bool
  mf_rate :: "rat option"
  mf_amountUzs :: "rat option"
  mf_counterpartyId :: "string option"
  mf_dueDate :: "string option"
  mf_contractId :: "string option"
  mf_importContractId :: "string option"
  mf_unitId :: "string option"

text \<open>The rates in order of creation, the newest last.\<close>

record fx_row =
  fx_currency :: string
  fx_rate :: rat
  fx_source :: string

record import_item =
  it_modelId :: "string option"
  it_name :: string
  it_qty :: int
  it_price :: rat

record import_row =
  ic_id :: string
  ic_orgId :: string
  ic_domain :: string
  ic_contractNo :: string
  ic_contractDate :: string
  ic_supplierId :: "string option"
  ic_currency :: string
  ic_totalAmount :: rat
  ic_items :: "import_item list"
  ic_purpose :: string
  ic_saleContractId :: "string option"
  ic_status :: string
  ic_lifecycleStatus :: import_lifecycle
  ic_prepaymentAmount :: "rat option"
  ic_prepaymentDueDate :: "string option"
  ic_prepaymentPaid :: bool
  ic_balanceAmount :: "rat option"
  ic_balanceDueDate :: "string option"
  ic_balancePaid :: bool

text \<open>A sale contract with its total, and a handover act with the units it lists.\<close>

record sale_row =
  sc_id :: string
  sc_total :: rat

record act_row =
  at_contractId :: string
  at_units :: "string list"

datatype glob_event =
    StatusChanged string string string
  | SaleClosed string commission_result
  | CommissionFailed string "string option"
  | ImportSigned string
  | BulkAction string string nat nat import_lifecycle
  | LifecycleMoved string import_lifecycle import_lifecycle

record glob_db =
  gb_orgs :: "(string \<times> string) list"
  gb_units :: "unit_row list"
  gb_reserves :: "reserve_row list"
  gb_imports :: "import_row list"
  gb_sales :: "sale_row list"
  gb_acts :: "act_row list"
  gb_flows :: "flow_row list"
  gb_fx :: "fx_row list"
  gb_entities :: "string list"
  gb_config :: "string \<Rightarrow> string option"
  gb_audit :: "(string \<times> string) list"
  gb_events :: "glob_event list"

record glob_env =
  ge_today :: string
  ge_currentDate :: string
  ge_date :: "string \<Rightarrow> string option"
  ge_newId :: string
  ge_ids :: "nat \<Rightarrow> string"

datatype glob_error =
    DomainMissing | NameTooShort | BadPrice | UnknownGroup | UnitNotFound | ActionUnknown | NoCarrier
  | NoDeclarationNumber | BadDeclarationDate | Refused transition_error | ParallelChange | VinTooShort
  | PhysicallyMoved | BadEndDate | EndDatePassed | NotOnStock | AlreadyReserved | UnknownStage
  | NoLostReason | SaleNotStartable | PriceRequired | BadCurrency | BadAmount | BadFlowStatus | BadCategory
  | BadMethod | BadDueDate | BadRate | NoCounterparty | FlowNotFound | FlowClosed string | FlowCancelled
  | RateOfSum | NoContractNo | BadContractDate | NoItems | BadQuantity | BadItemPrice | NegativeSchedule
  | ScheduleOverTotal | BadScheduleDate | NoSaleContract | SaleContractMissing | DuplicateContract
  | ImportNotFound | AlreadySigned string | AlreadyPaid | NotBulkAction | AlreadyCancelled | UnitsLinked nat
  | DatabaseError

section \<open>Shared steps\<close>

definition orgId :: "glob_db \<Rightarrow> string \<Rightarrow> glob_error + string" where
  "orgId db dm = (case map_of (gb_orgs db) dm of None \<Rightarrow> Inl DomainMissing | Some i \<Rightarrow> Inr i)"

definition find_unit :: "glob_db \<Rightarrow> string \<Rightarrow> glob_error + unit_row" where
  "find_unit db i = (case find (\<lambda>u. ut_id u = i) (gb_units db) of None \<Rightarrow> Inl UnitNotFound | Some u \<Rightarrow> Inr u)"

definition update_units :: "(unit_row \<Rightarrow> bool) \<Rightarrow> (unit_row \<Rightarrow> unit_row) \<Rightarrow> glob_db \<Rightarrow> glob_db" where
  "update_units P f db = db\<lparr>gb_units := map (\<lambda>u. if P u then f u else u) (gb_units db)\<rparr>"

definition update_reserves :: "(reserve_row \<Rightarrow> bool) \<Rightarrow> (reserve_row \<Rightarrow> reserve_row) \<Rightarrow> glob_db \<Rightarrow> glob_db" where
  "update_reserves P f db = db\<lparr>gb_reserves := map (\<lambda>r. if P r then f r else r) (gb_reserves db)\<rparr>"

definition audit :: "string \<Rightarrow> string \<Rightarrow> glob_db \<Rightarrow> glob_db" where
  "audit action target db = db\<lparr>gb_audit := gb_audit db @ [(action, target)]\<rparr>"

definition record_event :: "glob_event \<Rightarrow> glob_db \<Rightarrow> glob_db" where
  "record_event e db = db\<lparr>gb_events := gb_events db @ [e]\<rparr>"

definition is_iso_day :: "string \<Rightarrow> bool" where
  "is_iso_day s \<longleftrightarrow> length s = 10 \<and> s ! 4 = CHR ''-'' \<and> s ! 7 = CHR ''-''
     \<and> list_all is_digit (take 4 s @ take 2 (drop 5 s) @ drop 8 s)"

definition given :: "string option \<Rightarrow> string" where
  "given s = (case s of None \<Rightarrow> [] | Some t \<Rightarrow> t)"

text \<open>The primary key, the partial unique index on filled VINs, and the unique index on organisation and
  code.\<close>

definition vins_unique :: "unit_row list \<Rightarrow> bool" where
  "vins_unique us \<longleftrightarrow> distinct (filter (\<lambda>v. v \<noteq> []) (map (\<lambda>u. given (ut_vin u)) us))"

definition codes_unique :: "unit_row list \<Rightarrow> bool" where
  "codes_unique us \<longleftrightarrow> distinct (map (\<lambda>u. (ut_orgId u, ut_code u)) us)"

definition check_unit_indexes :: "glob_db \<Rightarrow> glob_error + glob_db" where
  "check_unit_indexes db =
     (if distinct (map ut_id (gb_units db)) \<and> vins_unique (gb_units db) \<and> codes_unique (gb_units db) then Inr db
      else Inl DatabaseError)"

definition pg_date :: "glob_env \<Rightarrow> string \<Rightarrow> glob_error + string" where
  "pg_date env s = (case ge_date env s of None \<Rightarrow> Inl DatabaseError | Some d \<Rightarrow> Inr d)"

definition active_of :: "string \<Rightarrow> reserve_row \<Rightarrow> bool" where
  "active_of i r \<longleftrightarrow> rv_unitId r = i \<and> rv_status r = ''active''"

section \<open>Prices and codes\<close>

definition price_ok :: "jsnum option \<Rightarrow> bool" where
  "price_ok p = (case p of None \<Rightarrow> True | Some v \<Rightarrow> js_finite v \<and> js_less (Fin 0) v)"

definition price_column :: "jsnum option \<Rightarrow> glob_error + rat option" where
  "price_column p = (case p of
     None \<Rightarrow> Inr None
   | Some (Fin q) \<Rightarrow> (case numeric_18_2 (printed q) of None \<Rightarrow> Inl DatabaseError | Some c \<Rightarrow> Inr (Some c))
   | Some _ \<Rightarrow> Inl DatabaseError)"

text \<open>\<open>substring(code from 4)::int\<close> on texts of digits; other texts are a cast error.\<close>

definition code_number :: "string \<Rightarrow> int option" where
  "code_number code = (let d = drop 3 code in
     if d \<noteq> [] \<and> list_all is_digit d \<and> digits_val d < 2 ^ 31 then Some (digits_val d) else None)"

definition next_code :: "string \<Rightarrow> unit_row list \<Rightarrow> glob_error + int" where
  "next_code org us =
     rbind (mapM_res (\<lambda>u. case code_number (ut_code u) of None \<Rightarrow> Inl DatabaseError | Some n \<Rightarrow> Inr n)
       (filter (\<lambda>u. ut_orgId u = org) us)) (\<lambda>ns. Inr (max0 ns + 1))"

definition unit_code :: "int \<Rightarrow> string" where
  "unit_code n = ''WH-'' @ pad_start 4 CHR ''0'' (num_str n)"

section \<open>Inserting a flow\<close>

definition find_ext :: "glob_db \<Rightarrow> string \<Rightarrow> string \<Rightarrow> flow_row option" where
  "find_ext db source i = find (\<lambda>f. mf_source f = source \<and> mf_extId f = Some i) (gb_flows db)"

text \<open>The primary key and the partial unique index on source and external id.\<close>

definition ext_free :: "glob_db \<Rightarrow> string \<Rightarrow> string option \<Rightarrow> bool" where
  "ext_free db source i = (case i of None \<Rightarrow> True | Some e \<Rightarrow> find_ext db source e = None)"

definition insert_flow :: "flow_row \<Rightarrow> glob_db \<Rightarrow> glob_error + glob_db" where
  "insert_flow f db =
     (if mf_id f \<in> set (map mf_id (gb_flows db)) \<or> \<not> ext_free db (mf_source f) (mf_extId f) then Inl DatabaseError
      else Inr (db\<lparr>gb_flows := gb_flows db @ [f]\<rparr>))"

end
