(* ===== verification/Units.thy ===== *)
theory Units
  imports GlobState
begin

text \<open>
  The equipment warehouse, \<^verbatim>\<open>apps/core/src/units/units.service.ts\<close>: reading the units with the
  expiry of their reserves, their cost, and creating a unit.
\<close>

section \<open>Expired reserves\<close>

definition expireReserves :: "glob_env \<Rightarrow> glob_db \<Rightarrow> glob_db" where
  "expireReserves env db =
     (let db1 = update_reserves (\<lambda>r. rv_status r = ''active'' \<and> rv_endDate r < ge_today env)
            (\<lambda>r. r\<lparr>rv_status := ''expired''\<rparr>) db in
      update_units (\<lambda>u. ut_status u = ''RESERVED'' \<and> \<not> list_ex (active_of (ut_id u)) (gb_reserves db1))
        (\<lambda>u. u\<lparr>ut_status := ''IN_STOCK''\<rparr>) db1)"

section \<open>Reading\<close>

definition cost_flows :: "string \<Rightarrow> glob_db \<Rightarrow> flow_row list" where
  "cost_flows i db =
     filter (\<lambda>f. mf_unitId f = Some i \<and> mf_direction f = ''out'' \<and> mf_status f = ''actual'') (gb_flows db)"

text \<open>\<open>costUzs\<close> of the list: the sum the database computes, read back as a number.\<close>

definition costUzs :: "string \<Rightarrow> glob_db \<Rightarrow> jsnum" where
  "costUzs i db = to_double (sum_list (map (\<lambda>f. if mf_currency f = ''UZS'' then mf_amount f
     else case mf_amountUzs f of None \<Rightarrow> 0 | Some a \<Rightarrow> a) (cost_flows i db)))"

record unit_list_row =
  ul_unit :: unit_row
  ul_activeReserve :: "reserve_row option"
  ul_costUzs :: jsnum

text \<open>The expiry is committed on its own, so it stands also when the group is refused.  The order by the
  time of the last change and the limit of 500 rows are left out.\<close>

definition list_row :: "glob_db \<Rightarrow> unit_row \<Rightarrow> unit_list_row" where
  "list_row db u = \<lparr>ul_unit = u, ul_activeReserve = find (active_of (ut_id u)) (gb_reserves db),
     ul_costUzs = costUzs (ut_id u) db\<rparr>"

definition list_units ::
  "glob_env \<Rightarrow> string \<Rightarrow> string option \<Rightarrow> glob_db \<Rightarrow> glob_db \<times> (glob_error + unit_list_row list)" where
  "list_units env dm groupKey db =
     (case orgId db dm of
        Inl e \<Rightarrow> (db, Inl e)
      | Inr org \<Rightarrow>
         (let db1 = expireReserves env db; units = filter (\<lambda>u. ut_orgId u = org) (gb_units db1) in
          case groupKey of
            None \<Rightarrow> (db1, Inr (map (list_row db1) units))
          | Some key \<Rightarrow>
              (case map_of UNIT_GROUPS key of
                 None \<Rightarrow> (db1, Inl UnknownGroup)
               | Some statuses \<Rightarrow> (db1, Inr (map (list_row db1) (filter (\<lambda>u. ut_status u \<in> set statuses) units))))))"

definition flow_cogs_row :: "flow_row \<Rightarrow> cogs_row" where
  "flow_cogs_row f = \<lparr>cg_category = mf_category f,
     cg_uzs = (if mf_currency f = ''UZS'' then Some (to_double (mf_amount f)) else map_option to_double (mf_amountUzs f))\<rparr>"

record unit_cost =
  uc_breakdown :: cogs
  uc_salesPrice :: "jsnum option"
  uc_margin :: "jsnum option"
  uc_marginPct :: "jsnum option"

definition unit_cost :: "string \<Rightarrow> glob_db \<Rightarrow> glob_error + unit_cost" where
  "unit_cost i db =
     rbind (find_unit db i) (\<lambda>u.
     (let breakdown = cogsBreakdown (map flow_cogs_row (cost_flows i db));
          salesPrice = map_option to_double (ut_salesPrice u);
          m = (case salesPrice of
                 Some p \<Rightarrow> if js_less (Fin 0) (cb_totalUzs breakdown) then Some (unitMargin p (cb_totalUzs breakdown)) else None
               | None \<Rightarrow> None) in
      Inr \<lparr>uc_breakdown = breakdown, uc_salesPrice = salesPrice, uc_margin = map_option fst m,
        uc_marginPct = (case m of None \<Rightarrow> None | Some mm \<Rightarrow> snd mm)\<rparr>))"

definition pipelineSummary :: "string \<Rightarrow> glob_db \<Rightarrow> glob_error + (string \<times> nat) list" where
  "pipelineSummary dm db =
     rbind (orgId db dm) (\<lambda>org.
     (let n = (\<lambda>st. length (filter (\<lambda>u. ut_orgId u = org \<and> ut_status u = st) (gb_units db))) in
      Inr (map (\<lambda>(key, statuses). (key, sum_list (map n statuses))) UNIT_GROUPS)))"

section \<open>Creating a unit\<close>

record create_unit =
  cu_domain :: string
  cu_name :: string
  cu_modelId :: "string option"
  cu_year :: "int option"
  cu_vin :: "string option"
  cu_inStock :: bool
  cu_salesPrice :: "jsnum option"
  cu_notes :: "string option"

definition new_unit :: "glob_env \<Rightarrow> string \<Rightarrow> string \<Rightarrow> create_unit \<Rightarrow> rat option \<Rightarrow> unit_row" where
  "new_unit env org code input price =
     \<lparr>ut_id = ge_newId env, ut_orgId = org, ut_code = code, ut_name = js_trim (cu_name input),
      ut_modelId = cu_modelId input, ut_year = cu_year input,
      ut_vin = (let v = js_trim (given (cu_vin input)) in if v = [] then None else Some v),
      ut_status = (if cu_inStock input then ''IN_STOCK'' else ''NEW_REQUEST''), ut_salesStage = None,
      ut_lostReason = None, ut_salesPrice = price, ut_clientId = None, ut_contractId = None,
      ut_importContractId = None, ut_arrivalDate = (if cu_inStock input then Some (ge_today env) else None),
      ut_declarationType = None, ut_declarationNumber = None, ut_declarationDate = None,
      ut_transportCompany = None, ut_notes = cu_notes input\<rparr>"

definition create_unit_op :: "glob_env \<Rightarrow> create_unit \<Rightarrow> glob_db \<Rightarrow> glob_error + glob_db \<times> unit_row" where
  "create_unit_op env input db =
     (if length (js_trim (cu_name input)) < 2 then Inl NameTooShort
      else if \<not> price_ok (cu_salesPrice input) then Inl BadPrice
      else
        rbind (orgId db (cu_domain input)) (\<lambda>org.
        rbind (next_code org (gb_units db)) (\<lambda>n.
        rbind (price_column (cu_salesPrice input)) (\<lambda>price.
        (let u = new_unit env org (unit_code n) input price in
         rbind (check_unit_indexes (db\<lparr>gb_units := gb_units db @ [u]\<rparr>)) (\<lambda>db1.
         Inr (audit ''unit.create'' (ut_id u) db1, u)))))))"

end
