(* ===== verification/UnitOps.thy ===== *)
theory UnitOps
  imports Units
begin

text \<open>
  The operations of the warehouse service that change a unit: semantic transitions, VIN, reserve, sales
  stage with the commission of a closed sale.
\<close>

section \<open>Transitions\<close>

record action_extra =
  ax_transportCompany :: "string option"
  ax_declarationNumber :: "string option"
  ax_declarationDate :: "string option"
  ax_arrivalDate :: "string option"

definition customs_action :: "string \<Rightarrow> bool" where
  "customs_action action \<longleftrightarrow> action = ''mark-customs-im74'' \<or> action = ''mark-customs-im40''"

text \<open>The checks on the extra fields that single and bulk actions share.\<close>

definition extra_error :: "string \<Rightarrow> action_extra \<Rightarrow> glob_error option" where
  "extra_error action extra =
     (if action = ''mark-in-transit'' \<and> js_trim (given (ax_transportCompany extra)) = [] then Some NoCarrier
      else if customs_action action \<and> js_trim (given (ax_declarationNumber extra)) = [] then Some NoDeclarationNumber
      else if customs_action action \<and> \<not> is_iso_day (given (ax_declarationDate extra)) then Some BadDeclarationDate
      else None)"

definition moved :: "glob_env \<Rightarrow> string \<Rightarrow> string \<Rightarrow> action_extra \<Rightarrow> string \<Rightarrow> string option \<Rightarrow> unit_row \<Rightarrow> unit_row" where
  "moved env action to extra arrival declared u =
     u\<lparr>ut_status := to,
       ut_transportCompany := (if action = ''mark-in-transit'' then Some (js_trim (given (ax_transportCompany extra)))
         else ut_transportCompany u),
       ut_declarationType := (if customs_action action
         then Some (if action = ''mark-customs-im74'' then ''IM74'' else ''IM40'') else ut_declarationType u),
       ut_declarationNumber := (if customs_action action then Some (js_trim (given (ax_declarationNumber extra)))
         else ut_declarationNumber u),
       ut_declarationDate := (if customs_action action then declared else ut_declarationDate u),
       ut_arrivalDate := (if action = ''mark-delivered'' then Some arrival else ut_arrivalDate u)\<rparr>"

definition applyAction ::
  "glob_env \<Rightarrow> string \<Rightarrow> string \<Rightarrow> action_extra \<Rightarrow> glob_db \<Rightarrow> glob_error + glob_db \<times> unit_row" where
  "applyAction env i action extra db =
     (case map_of UNIT_TRANSITIONS action of
        None \<Rightarrow> Inl ActionUnknown
      | Some t \<Rightarrow>
         (case extra_error action extra of
            Some e \<Rightarrow> Inl e
          | None \<Rightarrow>
              rbind (find_unit db i) (\<lambda>before.
              case unitTransitionError action (ut_status before) of
                Some e \<Rightarrow> Inl (Refused e)
              | None \<Rightarrow>
                 rbind (if action = ''mark-delivered''
                        then (case ax_arrivalDate extra of None \<Rightarrow> Inr (ge_today env) | Some d \<Rightarrow> pg_date env d)
                        else Inr []) (\<lambda>arrival.
                 rbind (if customs_action action then rbind (pg_date env (given (ax_declarationDate extra))) (\<lambda>d. Inr (Some d))
                        else Inr None) (\<lambda>declared.
                 if ut_status before \<notin> set (tr_from t) then Inl ParallelChange
                 else
                   (let f = moved env action (tr_to t) extra arrival declared in
                    Inr (record_event (StatusChanged i action (tr_to t))
                      (audit (''unit.'' @ action) i
                        (update_units (\<lambda>u. ut_id u = i \<and> ut_status u \<in> set (tr_from t)) f db)), f before)))))))"

section \<open>VIN\<close>

definition setVin :: "string \<Rightarrow> string \<Rightarrow> glob_db \<Rightarrow> glob_error + glob_db \<times> unit_row" where
  "setVin i vin db =
     (if length (js_trim vin) < 5 then Inl VinTooShort
      else
        rbind (find_unit db i) (\<lambda>before.
        (let f = (\<lambda>u. u\<lparr>ut_vin := Some (js_trim vin)\<rparr>) in
         rbind (check_unit_indexes (update_units (\<lambda>u. ut_id u = i) f db)) (\<lambda>db1.
         Inr (audit ''unit.vin_set'' i db1, f before)))))"

definition unbindVin :: "string \<Rightarrow> glob_db \<Rightarrow> glob_error + glob_db \<times> unit_row" where
  "unbindVin i db =
     rbind (find_unit db i) (\<lambda>before.
     if ut_status before \<notin> set VIN_UNBIND_ALLOWED then Inl PhysicallyMoved
     else
       (let f = (\<lambda>u. u\<lparr>ut_vin := None, ut_status := ''CONTRACT_SIGNED''\<rparr>) in
        Inr (audit ''unit.vin_unbind'' i (update_units (\<lambda>u. ut_id u = i) f db), f before)))"

section \<open>Reserve\<close>

definition reserve_unit ::
  "glob_env \<Rightarrow> string \<Rightarrow> string \<Rightarrow> string option \<Rightarrow> string option \<Rightarrow> glob_db \<Rightarrow> glob_error + glob_db \<times> reserve_row" where
  "reserve_unit env i endDate clientId note db =
     (if \<not> is_iso_day endDate then Inl BadEndDate
      else if endDate < ge_today env then Inl EndDatePassed
      else
        rbind (find_unit db i) (\<lambda>u.
        if ut_status u \<notin> set RESERVE_ALLOWED then Inl NotOnStock
        else if list_ex (active_of i) (gb_reserves db) then Inl AlreadyReserved
        else
          rbind (pg_date env endDate) (\<lambda>d.
          (let r = \<lparr>rv_id = ge_newId env, rv_unitId = i, rv_clientId = clientId, rv_endDate = d,
                 rv_status = ''active'', rv_note = note\<rparr> in
           Inr (audit ''unit.reserved'' i
             (update_units (\<lambda>u. ut_id u = i) (\<lambda>u. u\<lparr>ut_status := ''RESERVED''\<rparr>)
               (db\<lparr>gb_reserves := gb_reserves db @ [r]\<rparr>)), r)))))"

definition cancelReserve :: "string \<Rightarrow> glob_db \<Rightarrow> glob_error + glob_db \<times> unit_row" where
  "cancelReserve i db =
     rbind (find_unit db i) (\<lambda>u.
     (let f = (\<lambda>u. if ut_status u = ''RESERVED'' then u\<lparr>ut_status := ''IN_STOCK''\<rparr> else u) in
      Inr (audit ''unit.reserve_cancelled'' i
        (update_units (\<lambda>u. ut_id u = i \<and> ut_status u = ''RESERVED'') (\<lambda>u. u\<lparr>ut_status := ''IN_STOCK''\<rparr>)
          (update_reserves (active_of i) (\<lambda>r. r\<lparr>rv_status := ''cancelled''\<rparr>) db)), f u)))"

section \<open>Commission of a closed sale\<close>

definition commission_figures :: "unit_row \<Rightarrow> unit_cost \<Rightarrow> jsnum \<Rightarrow> figures" where
  "commission_figures u c ratePct =
     (let total = cb_totalUzs (uc_breakdown c); cost = (if js_less (Fin 0) total then Some total else None) in
      \<lparr>fg_salePrice = map_option to_double (ut_salesPrice u), fg_costTotal = cost, fg_costOfficialTotal = cost,
       fg_netProfitTotal = None, fg_netPocketPerUnit = None, fg_qty = Some (Fin 1),
       fg_ratePct = Some (if js_finite ratePct then ratePct else Fin 8), fg_tiers = None, fg_positionId = None\<rparr>)"

definition commission_method_of :: "glob_db \<Rightarrow> commission_method" where
  "commission_method_of db =
     (let rawMethod = (case gb_config db ''GR_COMMISSION_METHOD'' of None \<Rightarrow> ''flat_bonus'' | Some v \<Rightarrow> v) in
      case map_of COMMISSION_METHODS rawMethod of None \<Rightarrow> FlatBonus | Some m \<Rightarrow> m)"

definition commission_of :: "unit_row \<Rightarrow> glob_db \<Rightarrow> glob_error + commission_result" where
  "commission_of u db =
     rbind (unit_cost (ut_id u) db) (\<lambda>c.
     (let ratePct = js_number (case gb_config db ''GR_COMMISSION_RATE_PCT'' of None \<Rightarrow> ''8'' | Some v \<Rightarrow> v) in
      Inr (computeCommission (commission_method_of db) (commission_figures u c ratePct))))"

definition commission_flow :: "glob_env \<Rightarrow> unit_row \<Rightarrow> rat \<Rightarrow> flow_row" where
  "commission_flow env u amount =
     \<lparr>mf_id = ge_newId env, mf_orgId = Some (ut_orgId u), mf_direction = ''out'', mf_amount = amount,
      mf_currency = ''UZS'', mf_source = ''manual'', mf_extId = None, mf_purpose = Some (''commission of '' @ ut_code u),
      mf_cashSymbol = None, mf_status = ''planned'', mf_category = Some ''commission'', mf_method = None,
      mf_isOfficial = False, mf_rate = None, mf_amountUzs = None, mf_counterpartyId = None, mf_dueDate = None,
      mf_contractId = None, mf_importContractId = None, mf_unitId = Some (ut_id u)\<rparr>"

definition accrueCommission :: "glob_env \<Rightarrow> unit_row \<Rightarrow> glob_db \<Rightarrow> glob_error + glob_db" where
  "accrueCommission env u db =
     rbind (commission_of u db) (\<lambda>result.
     if js_less (Fin 0) (cn_commission result) then
       rbind (price_column (Some (cn_commission result))) (\<lambda>amount.
       (case amount of
          None \<Rightarrow> Inl DatabaseError
        | Some a \<Rightarrow>
            rbind (insert_flow (commission_flow env u a) db) (\<lambda>db1.
            Inr (record_event (SaleClosed (ut_id u) result) (audit ''unit.commission_accrued'' (ut_id u) db1)))))
     else Inr (record_event (SaleClosed (ut_id u) result) db))"

section \<open>Sales stage\<close>

record stage_extra =
  sx_lostReason :: "string option"
  sx_salesPrice :: "jsnum option"
  sx_clientId :: "string option"

definition staged :: "string \<Rightarrow> stage_extra \<Rightarrow> rat option \<Rightarrow> unit_row \<Rightarrow> unit_row" where
  "staged stage extra price u =
     u\<lparr>ut_salesStage := Some stage,
       ut_lostReason := (if stage = ''LOST'' then Some (js_trim (given (sx_lostReason extra))) else ut_lostReason u),
       ut_salesPrice := (if sx_salesPrice extra \<noteq> None then price else ut_salesPrice u),
       ut_clientId := (if sx_clientId extra \<noteq> None then sx_clientId extra else ut_clientId u)\<rparr>"

definition effective_price :: "stage_extra \<Rightarrow> unit_row \<Rightarrow> jsnum option" where
  "effective_price extra u = (case sx_salesPrice extra of Some p \<Rightarrow> Some p | None \<Rightarrow> map_option to_double (ut_salesPrice u))"

definition setSalesStage ::
  "glob_env \<Rightarrow> string \<Rightarrow> string \<Rightarrow> stage_extra \<Rightarrow> glob_db \<Rightarrow> glob_error + glob_db \<times> unit_row" where
  "setSalesStage env i stage extra db =
     (if stage \<notin> set SALES_STAGES then Inl UnknownStage
      else if stage = ''LOST'' \<and> js_trim (given (sx_lostReason extra)) = [] then Inl NoLostReason
      else if \<not> price_ok (sx_salesPrice extra) then Inl BadPrice
      else
        rbind (find_unit db i) (\<lambda>u.
        if ut_salesStage u = None \<and> ut_status u \<notin> set SALE_START_ALLOWED then Inl SaleNotStartable
        else if stage \<in> set STAGES_REQUIRE_PRICE
            \<and> (case effective_price extra u of None \<Rightarrow> True | Some p \<Rightarrow> js_leq p (Fin 0)) then Inl PriceRequired
        else
          rbind (price_column (sx_salesPrice extra)) (\<lambda>price.
          (let f = staged stage extra price;
               db1 = audit ''unit.sales_stage'' i (update_units (\<lambda>v. ut_id v = i) f db) in
           if stage = ''CLOSED'' then
             (case accrueCommission env (f u) db1 of
                Inr db2 \<Rightarrow> Inr (db2, f u)
              | Inl e \<Rightarrow> Inr (record_event (CommissionFailed i None) db1, f u))
           else Inr (db1, f u)))))"

end
