(* ===== verification/Finance.thy ===== *)
theory Finance
  imports GlobState
begin

text \<open>
  Money flows of Core, \<^verbatim>\<open>apps/core/src/finance/finance.service.ts\<close>: planned obligations and actual
  payments, their closing and cancelling, exchange rates by hand, and the import of a bank statement.
  The operation date of a flow is left out.
\<close>

definition CURRENCY_OK :: "string \<Rightarrow> bool" where
  "CURRENCY_OK c \<longleftrightarrow> length c = 3 \<and> list_all (\<lambda>ch. let n = (of_char ch :: int) in 65 \<le> n \<and> n \<le> 90) c"

text \<open>\<open>toUpperCase\<close> on codes below 256 (without the two letters that leave that range).\<close>

definition upper_char :: "char \<Rightarrow> string" where
  "upper_char ch = (let n = (of_char ch :: int) in
     if (97 \<le> n \<and> n \<le> 122) \<or> (224 \<le> n \<and> n \<le> 254 \<and> n \<noteq> 247) then [char_of (n - 32)]
     else if n = 223 then ''SS'' else [ch])"

definition js_upper :: "string \<Rightarrow> string" where
  "js_upper s = concat (map upper_char s)"

definition MONEY_CATEGORIES :: "string list" where
  "MONEY_CATEGORIES =
     [''sale'', ''service'', ''supplier'', ''logistics'', ''customs'', ''certification'', ''tax'', ''rent'',
      ''commission'', ''other'']"

definition METHODS :: "string list" where
  "METHODS = [''bank'', ''cash'']"

section \<open>Exchange rates\<close>

text \<open>\<open>fxCurrent\<close>: the newest of the last 200 rates for each currency.\<close>

definition fx_recent :: "glob_db \<Rightarrow> fx_row list" where
  "fx_recent db = take 200 (rev (gb_fx db))"

definition fxCurrentFrom :: "glob_db \<Rightarrow> fx_row list" where
  "fxCurrentFrom db =
     foldl (\<lambda>latest r. if list_ex (\<lambda>x. fx_currency x = fx_currency r) latest then latest else latest @ [r]) [] (fx_recent db)"

definition numeric_18_4 :: "rat \<Rightarrow> rat option" where
  "numeric_18_4 q = (let n = \<lfloor>\<bar>q\<bar> * 10000 + 1 / 2\<rfloor>; r = of_int n / 10000 in
     if r \<ge> 10 ^ 14 then None else Some (if q < 0 then - r else r))"

definition positive_number :: "jsnum \<Rightarrow> bool" where
  "positive_number v \<longleftrightarrow> js_finite v \<and> js_less (Fin 0) v"

definition column :: "(rat \<Rightarrow> rat option) \<Rightarrow> jsnum \<Rightarrow> glob_error + rat" where
  "column store v = (case v of
     Fin q \<Rightarrow> (case store (printed q) of None \<Rightarrow> Inl DatabaseError | Some c \<Rightarrow> Inr c)
   | _ \<Rightarrow> Inl DatabaseError)"

definition setFx :: "string \<Rightarrow> jsnum \<Rightarrow> glob_db \<Rightarrow> glob_error + glob_db \<times> fx_row list" where
  "setFx input_currency rate db =
     (let currency = js_trim (js_upper input_currency) in
      if \<not> CURRENCY_OK currency then Inl BadCurrency
      else if currency = ''UZS'' then Inl RateOfSum
      else if \<not> positive_number rate then Inl BadRate
      else
        rbind (column numeric_18_4 rate) (\<lambda>stored.
        (let db1 = audit ''finance.fx_set'' currency
               (db\<lparr>gb_fx := gb_fx db @ [\<lparr>fx_currency = currency, fx_rate = stored, fx_source = ''manual''\<rparr>]\<rparr>) in
         Inr (db1, fxCurrentFrom db1))))"

section \<open>Creating a flow\<close>

record create_flow =
  cf_domain :: "string option"
  cf_direction :: string
  cf_status :: string
  cf_amount :: jsnum
  cf_currency :: "string option"
  cf_category :: "string option"
  cf_method :: "string option"
  cf_isOfficial :: "bool option"
  cf_rate :: "jsnum option"
  cf_counterpartyId :: "string option"
  cf_purpose :: "string option"
  cf_dueDate :: "string option"
  cf_unitId :: "string option"
  cf_source :: "string option"
  cf_extId :: "string option"
  cf_cashSymbol :: "string option"

record flow_prep =
  fp_orgId :: "string option"
  fp_currency :: string
  fp_source :: string
  fp_rate :: "jsnum option"
  fp_amountUzs :: "jsnum option"

datatype prep = Existing flow_row | New flow_prep

definition flow_input_error :: "create_flow \<Rightarrow> glob_error option" where
  "flow_input_error input =
     (let currency = js_trim (js_upper (case cf_currency input of None \<Rightarrow> ''UZS'' | Some c \<Rightarrow> c)) in
      if \<not> CURRENCY_OK currency then Some BadCurrency
      else if \<not> positive_number (cf_amount input) then Some BadAmount
      else if cf_status input \<noteq> ''planned'' \<and> cf_status input \<noteq> ''actual'' then Some BadFlowStatus
      else if (case cf_category input of None \<Rightarrow> False | Some c \<Rightarrow> c \<notin> set MONEY_CATEGORIES) then Some BadCategory
      else if (case cf_method input of None \<Rightarrow> False | Some m \<Rightarrow> m \<notin> set METHODS) then Some BadMethod
      else if (case cf_dueDate input of None \<Rightarrow> False | Some d \<Rightarrow> \<not> is_iso_day d) then Some BadDueDate
      else if (case cf_rate input of None \<Rightarrow> False | Some r \<Rightarrow> \<not> positive_number r) then Some BadRate
      else None)"

definition prepareFlow :: "create_flow \<Rightarrow> glob_db \<Rightarrow> glob_error + prep" where
  "prepareFlow input db =
     (case flow_input_error input of
        Some e \<Rightarrow> Inl e
      | None \<Rightarrow>
         rbind (case cf_domain input of None \<Rightarrow> Inr None | Some d \<Rightarrow> rbind (orgId db d) (\<lambda>i. Inr (Some i))) (\<lambda>org.
         if (case cf_counterpartyId input of None \<Rightarrow> False | Some c \<Rightarrow> c \<notin> set (gb_entities db)) then Inl NoCounterparty
         else
           (let source = (case cf_source input of None \<Rightarrow> ''manual'' | Some s \<Rightarrow> s);
                currency = js_trim (js_upper (case cf_currency input of None \<Rightarrow> ''UZS'' | Some c \<Rightarrow> c));
                already = (case cf_extId input of None \<Rightarrow> None | Some i \<Rightarrow> if i = [] then None else find_ext db source i) in
            case already of
              Some f \<Rightarrow> Inr (Existing f)
            | None \<Rightarrow>
               (let rate = (case cf_rate input of
                      Some r \<Rightarrow> Some r
                    | None \<Rightarrow>
                        if currency = ''UZS'' then None
                        else map_option (\<lambda>r. to_double (fx_rate r)) (find (\<lambda>r. fx_currency r = currency) (fxCurrentFrom db)));
                    amountUzs = (if currency = ''UZS'' then None else map_option (js_mul (cf_amount input)) rate) in
                Inr (New \<lparr>fp_orgId = org, fp_currency = currency, fp_source = source, fp_rate = rate, fp_amountUzs = amountUzs\<rparr>)))))"

definition optional_column :: "(rat \<Rightarrow> rat option) \<Rightarrow> jsnum option \<Rightarrow> glob_error + rat option" where
  "optional_column store v = (case v of None \<Rightarrow> Inr None | Some x \<Rightarrow> rbind (column store x) (\<lambda>c. Inr (Some c)))"

definition writeFlow :: "glob_env \<Rightarrow> string \<Rightarrow> create_flow \<Rightarrow> flow_prep \<Rightarrow> glob_db \<Rightarrow> glob_error + glob_db \<times> flow_row" where
  "writeFlow env newId input p db =
     rbind (column numeric_18_2 (cf_amount input)) (\<lambda>amount.
     rbind (optional_column numeric_18_4 (fp_rate p)) (\<lambda>rate.
     rbind (optional_column numeric_18_2 (fp_amountUzs p)) (\<lambda>amountUzs.
     rbind (case cf_dueDate input of None \<Rightarrow> Inr None | Some d \<Rightarrow> rbind (pg_date env d) (\<lambda>x. Inr (Some x))) (\<lambda>due.
       (let f = \<lparr>mf_id = newId, mf_orgId = fp_orgId p, mf_direction = cf_direction input, mf_amount = amount,
              mf_currency = fp_currency p, mf_source = fp_source p, mf_extId = cf_extId input,
              mf_purpose = cf_purpose input, mf_cashSymbol = cf_cashSymbol input, mf_status = cf_status input,
              mf_category = cf_category input, mf_method = cf_method input,
              mf_isOfficial = (case cf_isOfficial input of Some b \<Rightarrow> b | None \<Rightarrow> cf_method input \<noteq> Some ''cash''),
              mf_rate = rate, mf_amountUzs = amountUzs, mf_counterpartyId = cf_counterpartyId input,
              mf_dueDate = due, mf_contractId = None, mf_importContractId = None, mf_unitId = cf_unitId input\<rparr> in
        rbind (insert_flow f db) (\<lambda>db1. Inr (audit ''finance.flow_created'' newId db1, f)))))))"

definition createFlow :: "glob_env \<Rightarrow> string \<Rightarrow> create_flow \<Rightarrow> glob_db \<Rightarrow> glob_error + glob_db \<times> flow_row" where
  "createFlow env newId input db =
     rbind (prepareFlow input db) (\<lambda>p. case p of
       Existing f \<Rightarrow> Inr (db, f)
     | New q \<Rightarrow> writeFlow env newId input q db)"

section \<open>Closing and cancelling\<close>

definition find_flow :: "glob_db \<Rightarrow> string \<Rightarrow> glob_error + flow_row" where
  "find_flow db i = (case find (\<lambda>f. mf_id f = i) (gb_flows db) of None \<Rightarrow> Inl FlowNotFound | Some f \<Rightarrow> Inr f)"

definition update_flows :: "(flow_row \<Rightarrow> bool) \<Rightarrow> (flow_row \<Rightarrow> flow_row) \<Rightarrow> glob_db \<Rightarrow> glob_db" where
  "update_flows P f db = db\<lparr>gb_flows := map (\<lambda>x. if P x then f x else x) (gb_flows db)\<rparr>"

definition markPaid :: "string \<Rightarrow> jsnum option \<Rightarrow> glob_db \<Rightarrow> glob_error + glob_db \<times> flow_row" where
  "markPaid i opt_rate db =
     (if (case opt_rate of None \<Rightarrow> False | Some r \<Rightarrow> \<not> positive_number r) then Inl BadRate
      else
        rbind (find_flow db i) (\<lambda>row.
        if mf_status row \<noteq> ''planned'' then Inl (FlowClosed (mf_status row))
        else
          (let rate = (case opt_rate of Some r \<Rightarrow> Some r | None \<Rightarrow> map_option to_double (mf_rate row));
               amountUzs =
                 (if mf_currency row = ''UZS'' then None
                  else case rate of
                    Some r \<Rightarrow> Some (js_mul (to_double (mf_amount row)) r)
                  | None \<Rightarrow> map_option to_double (mf_amountUzs row)) in
           rbind (optional_column numeric_18_4 rate) (\<lambda>rate'.
           rbind (optional_column numeric_18_2 amountUzs) (\<lambda>uzs'.
           (let f = (\<lambda>x. x\<lparr>mf_status := ''actual'', mf_rate := rate', mf_amountUzs := uzs'\<rparr>) in
            Inr (audit ''finance.flow_paid'' i (update_flows (\<lambda>x. mf_id x = i) f db), f row)))))))"

definition cancelFlow :: "string \<Rightarrow> glob_db \<Rightarrow> glob_error + glob_db \<times> flow_row" where
  "cancelFlow i db =
     rbind (find_flow db i) (\<lambda>row.
     if mf_status row = ''cancelled'' then Inl FlowCancelled
     else
       (let f = (\<lambda>x. x\<lparr>mf_status := ''cancelled''\<rparr>) in
        Inr (audit ''finance.flow_cancelled'' i (update_flows (\<lambda>x. mf_id x = i) f db), f row)))"

section \<open>Bank statement\<close>

record statement_item =
  si_debit :: "jsnum option"
  si_credit :: "jsnum option"
  si_purpose :: "string option"
  si_cashSymbol :: "string option"
  si_extId :: string

datatype rejection = NoTurnover | RejectedBy glob_error

record statement_report =
  sr_created :: int
  sr_skippedRepeat :: int
  sr_rejected :: "(string \<times> rejection) list"

definition turnover_of :: "statement_item \<Rightarrow> (string \<times> jsnum) option" where
  "turnover_of item =
     (let positive = (\<lambda>v. case v of Some x \<Rightarrow> js_less (Fin 0) x | None \<Rightarrow> False) in
      if positive (si_credit item) then map_option (Pair ''in'') (si_credit item)
      else if positive (si_debit item) then map_option (Pair ''out'') (si_debit item)
      else None)"

definition statement_flow :: "statement_item \<Rightarrow> string \<times> jsnum \<Rightarrow> create_flow" where
  "statement_flow item t =
     \<lparr>cf_domain = None, cf_direction = fst t, cf_status = ''actual'', cf_amount = snd t, cf_currency = Some ''UZS'',
      cf_category = None, cf_method = None, cf_isOfficial = None, cf_rate = None, cf_counterpartyId = None,
      cf_purpose = si_purpose item, cf_dueDate = None, cf_unitId = None, cf_source = Some ''bank'',
      cf_extId = Some (si_extId item), cf_cashSymbol = si_cashSymbol item\<rparr>"

text \<open>One row of the batch; the number of the row picks the id of a new flow.\<close>

definition statement_step ::
  "glob_env \<Rightarrow> bool \<Rightarrow> nat \<Rightarrow> statement_item \<Rightarrow> glob_db \<times> statement_report \<Rightarrow> glob_db \<times> statement_report" where
  "statement_step env dryRun n item = (\<lambda>(db, rep).
     case turnover_of item of
       None \<Rightarrow> (db, rep\<lparr>sr_rejected := sr_rejected rep @ [(si_extId item, NoTurnover)]\<rparr>)
     | Some t \<Rightarrow>
        (let input = statement_flow item t;
             rejected = (\<lambda>e. (db, rep\<lparr>sr_rejected := sr_rejected rep @ [(si_extId item, RejectedBy e)]\<rparr>)) in
         case prepareFlow input db of
           Inl e \<Rightarrow> rejected e
         | Inr (Existing f) \<Rightarrow> (db, rep\<lparr>sr_skippedRepeat := sr_skippedRepeat rep + 1\<rparr>)
         | Inr (New p) \<Rightarrow>
             if dryRun then (db, rep\<lparr>sr_created := sr_created rep + 1\<rparr>)
             else case writeFlow env (ge_ids env n) input p db of
               Inl e \<Rightarrow> rejected e
             | Inr (db', f) \<Rightarrow> (db', rep\<lparr>sr_created := sr_created rep + 1\<rparr>)))"

fun statement_rows ::
  "glob_env \<Rightarrow> bool \<Rightarrow> nat \<Rightarrow> statement_item list \<Rightarrow> glob_db \<times> statement_report \<Rightarrow> glob_db \<times> statement_report" where
  "statement_rows env dryRun n [] acc = acc"
| "statement_rows env dryRun n (i # is) acc = statement_rows env dryRun (n + 1) is (statement_step env dryRun n i acc)"

definition importBankStatement ::
  "glob_env \<Rightarrow> bool \<Rightarrow> statement_item list \<Rightarrow> glob_db \<Rightarrow> (glob_db \<times> statement_report) option" where
  "importBankStatement env dryRun items db =
     (if length items > 3000 then None
      else Some (statement_rows env dryRun 0 items (db, \<lparr>sr_created = 0, sr_skippedRepeat = 0, sr_rejected = []\<rparr>)))"

end
