(* ===== verification/Imports.thy ===== *)
theory Imports
  imports UnitOps Finance
begin

text \<open>
  Import contracts, \<^verbatim>\<open>apps/core/src/imports/imports.service.ts\<close>: signing turns the specification into
  units and the payment schedule into obligations, bulk actions move the units, and the life cycle
  follows the units forward.
\<close>

section \<open>Creating a contract\<close>

record create_import =
  ci_domain :: string
  ci_contractNo :: string
  ci_contractDate :: string
  ci_supplierId :: "string option"
  ci_currency :: "string option"
  ci_items :: "(string option \<times> string \<times> jsnum \<times> jsnum) list"
  ci_purpose :: "string option"
  ci_saleContractId :: "string option"
  ci_prepaymentAmount :: "jsnum option"
  ci_prepaymentDueDate :: "string option"
  ci_balanceAmount :: "jsnum option"
  ci_balanceDueDate :: "string option"

definition whole_positive :: "jsnum \<Rightarrow> bool" where
  "whole_positive v \<longleftrightarrow> positive_number v \<and> js_is_integer v"

fun items_error :: "(string option \<times> string \<times> jsnum \<times> jsnum) list \<Rightarrow> glob_error option" where
  "items_error [] = None"
| "items_error ((m, name, qty, price) # is) =
     (if \<not> whole_positive qty then Some BadQuantity
      else if \<not> positive_number price then Some BadItemPrice
      else items_error is)"

definition items_total :: "(string option \<times> string \<times> jsnum \<times> jsnum) list \<Rightarrow> jsnum" where
  "items_total is = foldl (\<lambda>s (m, name, qty, price). js_add s (js_mul qty price)) (Fin 0) is"

definition number_value :: "jsnum \<Rightarrow> rat" where
  "number_value v = (case v of Fin q \<Rightarrow> q | _ \<Rightarrow> 0)"

definition import_item_of :: "string option \<times> string \<times> jsnum \<times> jsnum \<Rightarrow> import_item" where
  "import_item_of = (\<lambda>(m, name, qty, price).
     \<lparr>it_modelId = m, it_name = name, it_qty = \<lfloor>number_value qty\<rfloor>, it_price = number_value price\<rparr>)"

definition or_zero :: "jsnum option \<Rightarrow> jsnum" where
  "or_zero v = (case v of None \<Rightarrow> Fin 0 | Some x \<Rightarrow> x)"

text \<open>The one cent of tolerance of the schedule, as the double nearest to 0.01.\<close>

definition schedule_limit :: "jsnum \<Rightarrow> jsnum" where
  "schedule_limit sum_total = js_add sum_total (to_double (1 / 100))"

definition create_import_error :: "create_import \<Rightarrow> glob_error option" where
  "create_import_error input =
     (let items = filter (\<lambda>(m, name, q, p). js_trim name \<noteq> []) (ci_items input);
          sum_total = items_total items;
          prepay = or_zero (ci_prepaymentAmount input); balance = or_zero (ci_balanceAmount input);
          bad = (\<lambda>d. case d of None \<Rightarrow> False | Some t \<Rightarrow> \<not> is_iso_day t) in
      if js_trim (ci_contractNo input) = [] then Some NoContractNo
      else if \<not> is_iso_day (ci_contractDate input) then Some BadContractDate
      else if items = [] then Some NoItems
      else if items_error items \<noteq> None then items_error items
      else if js_less prepay (Fin 0) \<or> js_less balance (Fin 0) then Some NegativeSchedule
      else if js_less (schedule_limit sum_total) (js_add prepay balance) then Some ScheduleOverTotal
      else if bad (ci_prepaymentDueDate input) \<or> bad (ci_balanceDueDate input) then Some BadScheduleDate
      else if ci_purpose input = Some ''for_sum_contract'' \<and> ci_saleContractId input = None then Some NoSaleContract
      else None)"

definition date_column :: "glob_env \<Rightarrow> string option \<Rightarrow> glob_error + string option" where
  "date_column env d = (case d of None \<Rightarrow> Inr None | Some t \<Rightarrow> rbind (pg_date env t) (\<lambda>x. Inr (Some x)))"

definition create_import_op :: "glob_env \<Rightarrow> create_import \<Rightarrow> glob_db \<Rightarrow> glob_error + glob_db \<times> import_row" where
  "create_import_op env input db =
     (case create_import_error input of
        Some e \<Rightarrow> Inl e
      | None \<Rightarrow>
         if (case ci_saleContractId input of None \<Rightarrow> False | Some s \<Rightarrow> s \<notin> set (map sc_id (gb_sales db)))
         then Inl SaleContractMissing
         else
           rbind (orgId db (ci_domain input)) (\<lambda>org.
           if (case ci_supplierId input of None \<Rightarrow> False
               | Some supplier \<Rightarrow> list_ex (\<lambda>c. ic_supplierId c = Some supplier \<and> ic_contractNo c = js_trim (ci_contractNo input)) (gb_imports db))
           then Inl DuplicateContract
           else
             (let items = filter (\<lambda>(m, name, q, p). js_trim name \<noteq> []) (ci_items input) in
              rbind (pg_date env (ci_contractDate input)) (\<lambda>date.
              rbind (column numeric_18_2 (items_total items)) (\<lambda>sum_total.
              rbind (optional_column numeric_18_2 (ci_prepaymentAmount input)) (\<lambda>prepay.
              rbind (optional_column numeric_18_2 (ci_balanceAmount input)) (\<lambda>balance.
              rbind (date_column env (ci_prepaymentDueDate input)) (\<lambda>prepayDue.
              rbind (date_column env (ci_balanceDueDate input)) (\<lambda>balanceDue.
              (let c = \<lparr>ic_id = ge_newId env, ic_orgId = org, ic_domain = ci_domain input,
                     ic_contractNo = js_trim (ci_contractNo input), ic_contractDate = date,
                     ic_supplierId = ci_supplierId input,
                     ic_currency = js_upper (case ci_currency input of None \<Rightarrow> ''USD'' | Some x \<Rightarrow> x),
                     ic_totalAmount = sum_total, ic_items = map import_item_of items,
                     ic_purpose = (case ci_purpose input of None \<Rightarrow> ''for_stock'' | Some x \<Rightarrow> x),
                     ic_saleContractId = ci_saleContractId input, ic_status = ''draft'', ic_lifecycleStatus = LcDraft,
                     ic_prepaymentAmount = prepay, ic_prepaymentDueDate = prepayDue, ic_prepaymentPaid = False,
                     ic_balanceAmount = balance, ic_balanceDueDate = balanceDue, ic_balancePaid = False\<rparr> in
               if ic_id c \<in> set (map ic_id (gb_imports db)) then Inl DatabaseError
               else Inr (audit ''import.create'' (ic_id c) (db\<lparr>gb_imports := gb_imports db @ [c]\<rparr>), c)))))))))))"

section \<open>Signing\<close>

definition find_import :: "glob_db \<Rightarrow> string \<Rightarrow> glob_error + import_row" where
  "find_import db i = (case find (\<lambda>c. ic_id c = i) (gb_imports db) of None \<Rightarrow> Inl ImportNotFound | Some c \<Rightarrow> Inr c)"

definition update_import :: "string \<Rightarrow> (import_row \<Rightarrow> import_row) \<Rightarrow> glob_db \<Rightarrow> glob_db" where
  "update_import i f db = db\<lparr>gb_imports := map (\<lambda>c. if ic_id c = i then f c else c) (gb_imports db)\<rparr>"

definition contract_unit :: "import_row \<Rightarrow> string \<Rightarrow> import_item \<Rightarrow> int \<Rightarrow> unit_row" where
  "contract_unit c newId item n =
     \<lparr>ut_id = newId, ut_orgId = ic_orgId c, ut_code = unit_code n, ut_name = it_name item, ut_modelId = it_modelId item,
      ut_year = None, ut_vin = None, ut_status = ''CONTRACT_SIGNED'', ut_salesStage = None, ut_lostReason = None,
      ut_salesPrice = None, ut_clientId = None, ut_contractId = None, ut_importContractId = Some (ic_id c),
      ut_arrivalDate = None, ut_declarationType = None, ut_declarationNumber = None, ut_declarationDate = None,
      ut_transportCompany = None, ut_notes = None\<rparr>"

text \<open>One unit for each piece of each item, numbered on from the highest code of the organisation.\<close>

definition pieces :: "import_item list \<Rightarrow> import_item list" where
  "pieces is = concat (map (\<lambda>i. replicate (nat (it_qty i)) i) is)"

definition materialized :: "glob_env \<Rightarrow> import_row \<Rightarrow> int \<Rightarrow> unit_row list" where
  "materialized env c next =
     map (\<lambda>(k, item). contract_unit c (ge_ids env k) item (next + int k)) (enumerate 0 (pieces (ic_items c)))"

definition plan_flow :: "import_row \<Rightarrow> string \<Rightarrow> rat \<Rightarrow> string option \<Rightarrow> create_flow" where
  "plan_flow c label amount due =
     \<lparr>cf_domain = Some (ic_domain c), cf_direction = ''out'', cf_status = ''planned'', cf_amount = to_double amount,
      cf_currency = Some (ic_currency c), cf_category = Some ''supplier'', cf_method = None, cf_isOfficial = None,
      cf_rate = None, cf_counterpartyId = ic_supplierId c, cf_purpose = Some (label @ '' to the factory, import contract '' @ ic_contractNo c), cf_dueDate = due,
      cf_unitId = None, cf_source = None, cf_extId = None, cf_cashSymbol = None\<rparr>"

text \<open>The purposes of the two obligations, and the prefixes by which a payment finds its own.\<close>

definition PREPAYMENT :: string where "PREPAYMENT = ''prepayment''"
definition BALANCE :: string where "BALANCE = ''balance payment''"
definition PREPAYMENT_PREFIX :: string where "PREPAYMENT_PREFIX = ''prepayment''"
definition BALANCE_PREFIX :: string where "BALANCE_PREFIX = ''balance''"

definition mk_plan ::
  "glob_env \<Rightarrow> string \<Rightarrow> import_row \<Rightarrow> string \<Rightarrow> rat option \<Rightarrow> string option \<Rightarrow> glob_db \<Rightarrow> glob_error + glob_db" where
  "mk_plan env newId c label amount due db = (case amount of
     None \<Rightarrow> Inr db
   | Some a \<Rightarrow>
       if a \<le> 0 then Inr db
       else
         rbind (createFlow env newId (plan_flow c label a due) db) (\<lambda>(db1, created).
         Inr (update_flows (\<lambda>f. mf_id f = mf_id created) (\<lambda>f. f\<lparr>mf_importContractId := Some (ic_id c)\<rparr>) db1)))"

definition createPaymentPlan :: "glob_env \<Rightarrow> nat \<Rightarrow> import_row \<Rightarrow> glob_db \<Rightarrow> glob_error + glob_db" where
  "createPaymentPlan env k c db =
     rbind (mk_plan env (ge_ids env k) c PREPAYMENT (ic_prepaymentAmount c) (ic_prepaymentDueDate c) db)
       (mk_plan env (ge_ids env (k + 1)) c BALANCE (ic_balanceAmount c) (ic_balanceDueDate c))"

definition materialize :: "glob_env \<Rightarrow> string \<Rightarrow> import_row \<Rightarrow> glob_db \<Rightarrow> glob_error + glob_db" where
  "materialize env i c db =
     (if list_ex (\<lambda>u. ut_importContractId u = Some i) (gb_units db) then Inr db
      else rbind (next_code (ic_orgId c) (gb_units db)) (\<lambda>next.
        check_unit_indexes (db\<lparr>gb_units := gb_units db @ materialized env c next\<rparr>)))"

definition sign :: "glob_env \<Rightarrow> string \<Rightarrow> glob_db \<Rightarrow> glob_error + glob_db" where
  "sign env i db =
     rbind (find_import db i) (\<lambda>c.
     if ic_status c \<noteq> ''draft'' then Inl (AlreadySigned (ic_status c))
     else
       rbind (materialize env i c
         (update_import i (\<lambda>c. c\<lparr>ic_status := ''in_progress'', ic_lifecycleStatus := LcSigned\<rparr>) db)) (\<lambda>db1.
       rbind (createPaymentPlan env (length (pieces (ic_items c))) c db1) (\<lambda>db2.
       Inr (record_event (ImportSigned i) (audit ''import.signed'' i db2)))))"

section \<open>Payments of the schedule\<close>

datatype payment_kind = Prepayment | Balance

definition paid_flag :: "payment_kind \<Rightarrow> import_row \<Rightarrow> bool" where
  "paid_flag kind c = (if kind = Prepayment then ic_prepaymentPaid c else ic_balancePaid c)"

definition set_paid :: "payment_kind \<Rightarrow> import_row \<Rightarrow> import_row" where
  "set_paid kind c =
     (if kind = Prepayment
      then c\<lparr>ic_prepaymentPaid := True,
        ic_lifecycleStatus := (if ic_lifecycleStatus c = LcSigned then LcPaying else ic_lifecycleStatus c)\<rparr>
      else c\<lparr>ic_balancePaid := True\<rparr>)"

definition planned_of :: "string \<Rightarrow> payment_kind \<Rightarrow> flow_row \<Rightarrow> bool" where
  "planned_of i kind m \<longleftrightarrow> mf_importContractId m = Some i \<and> mf_status m = ''planned'' \<and> mf_direction m = ''out''
     \<and> (case mf_purpose m of None \<Rightarrow> False
        | Some p \<Rightarrow> starts_with (if kind = Prepayment then PREPAYMENT_PREFIX else BALANCE_PREFIX) p)"

definition close_planned :: "string \<Rightarrow> payment_kind \<Rightarrow> glob_db \<Rightarrow> glob_error + glob_db" where
  "close_planned i kind db = (case find (planned_of i kind) (gb_flows db) of
     None \<Rightarrow> Inr db
   | Some m \<Rightarrow> rbind (markPaid (mf_id m) None db) (\<lambda>(db', _). Inr db'))"

definition markPaidImport :: "string \<Rightarrow> payment_kind \<Rightarrow> glob_db \<Rightarrow> glob_error + glob_db" where
  "markPaidImport i kind db =
     rbind (find_import db i) (\<lambda>c.
     if paid_flag kind c then Inl AlreadyPaid
     else
       rbind (close_planned i kind (update_import i (set_paid kind) db)) (\<lambda>db1.
       Inr (audit (if kind = Prepayment then ''import.prepayment_paid'' else ''import.balance_paid'') i db1)))"

section \<open>Life cycle\<close>

definition flow_in_sums :: "flow_row \<Rightarrow> rat" where
  "flow_in_sums f = (if mf_currency f = ''UZS'' then mf_amount f else case mf_amountUzs f of None \<Rightarrow> 0 | Some a \<Rightarrow> a)"

definition sale_paid :: "glob_db \<Rightarrow> sale_row \<Rightarrow> bool" where
  "sale_paid db s =
     (let paid = sum_list (map flow_in_sums (filter (\<lambda>f. mf_contractId f = Some (sc_id s) \<and> mf_direction f = ''in''
            \<and> mf_status f = ''actual'') (gb_flows db))) in
      js_less (Fin 0) (to_double (sc_total s)) \<and> js_leq (to_double (sc_total s)) (to_double paid))"

definition contract_units :: "string \<Rightarrow> glob_db \<Rightarrow> unit_row list" where
  "contract_units i db = filter (\<lambda>u. ut_importContractId u = Some i) (gb_units db)"

definition lifecycle_target :: "string \<Rightarrow> glob_db \<Rightarrow> import_lifecycle option" where
  "lifecycle_target i db =
     (let units = contract_units i db;
          active = filter (\<lambda>u. is_active_status (ut_status u)) units;
          target = lifecycleFromUnits (map ut_status units);
          contractIds = remdups (List.map_filter ut_contractId active) in
      if active = [] \<or> contractIds = [] then target
      else
        (let acted = concat (map at_units (filter (\<lambda>a. at_contractId a \<in> set contractIds) (gb_acts db)));
             sales = filter (\<lambda>s. sc_id s \<in> set contractIds) (gb_sales db);
             fin = finalLifecycle (map (\<lambda>u. (ut_id u \<in> set acted, ut_contractId u \<noteq> None)) active)
               (list_all (sale_paid db) sales) in
         case fin of None \<Rightarrow> target | Some p \<Rightarrow> Some p))"

definition recomputeLifecycle :: "string \<Rightarrow> glob_db \<Rightarrow> glob_error + glob_db \<times> import_lifecycle" where
  "recomputeLifecycle i db =
     rbind (find_import db i) (\<lambda>c.
     case monotonicLifecycleStep (ic_lifecycleStatus c) (lifecycle_target i db) of
       None \<Rightarrow> Inr (db, ic_lifecycleStatus c)
     | Some step \<Rightarrow>
         Inr (record_event (LifecycleMoved i (ic_lifecycleStatus c) step)
           (update_import i (\<lambda>c. c\<lparr>ic_lifecycleStatus := step\<rparr>) db), step))"

section \<open>Bulk actions\<close>

definition BULK_ACTIONS :: "string list" where
  "BULK_ACTIONS = [''mark-ready-to-ship'', ''mark-in-transit'', ''mark-at-border'', ''mark-customs-im74'',
     ''mark-customs-im40'', ''mark-delivered'']"

definition bulk_moved :: "glob_env \<Rightarrow> string \<Rightarrow> string \<Rightarrow> action_extra \<Rightarrow> string option \<Rightarrow> unit_row \<Rightarrow> unit_row" where
  "bulk_moved env action to extra declared u =
     moved env action to extra (case ut_arrivalDate u of None \<Rightarrow> ge_currentDate env | Some d \<Rightarrow> d) declared u"

definition bulkUnitAction ::
  "glob_env \<Rightarrow> string \<Rightarrow> string \<Rightarrow> action_extra \<Rightarrow> glob_db \<Rightarrow> glob_error + glob_db \<times> nat \<times> nat \<times> import_lifecycle" where
  "bulkUnitAction env i action extra db =
     (if action \<notin> set BULK_ACTIONS then Inl NotBulkAction
      else case map_of UNIT_TRANSITIONS action of
        None \<Rightarrow> Inl ActionUnknown
      | Some t \<Rightarrow>
         (case extra_error action extra of
            Some e \<Rightarrow> Inl e
          | None \<Rightarrow>
             rbind (find_import db i) (\<lambda>c.
             (let units = contract_units i db;
                  eligible = filter (\<lambda>u. ut_status u \<in> set (tr_from t)) units in
             rbind (if customs_action action \<and> eligible \<noteq> []
                    then rbind (pg_date env (given (ax_declarationDate extra))) (\<lambda>d. Inr (Some d))
                    else Inr None) (\<lambda>declared.
             (let activeCount = length (filter (\<lambda>u. is_active_status (ut_status u)) units);
                  moved_n = length eligible; skipped = activeCount - length eligible;
                  db1 = update_units (\<lambda>u. ut_importContractId u = Some i \<and> ut_status u \<in> set (tr_from t))
                    (bulk_moved env action (tr_to t) extra declared) db;
                  db2 = audit (''import.bulk_'' @ action) i db1 in
              rbind (recomputeLifecycle i db2) (\<lambda>(db3, lc).
              Inr (record_event (BulkAction i action moved_n skipped lc) db3, moved_n, skipped, lc))))))))"

section \<open>Cancelling\<close>

definition cancelImport :: "string \<Rightarrow> glob_db \<Rightarrow> glob_error + glob_db" where
  "cancelImport i db =
     rbind (find_import db i) (\<lambda>c.
     if ic_status c = ''cancelled'' then Inl AlreadyCancelled
     else
       (let linked = length (filter (\<lambda>u. is_active_status (ut_status u)) (contract_units i db)) in
        if linked > 0 then Inl (UnitsLinked linked)
        else Inr (audit ''import.cancelled'' i
          (update_import i (\<lambda>c. c\<lparr>ic_status := ''cancelled'', ic_lifecycleStatus := LcCancelled\<rparr>) db))))"

end
