(* ===== verification/GlobFacts.thy ===== *)
theory GlobFacts
  imports Imports RowHistory
begin

text \<open>
  The operations of the contour as one step relation on the tables, and what every step does to the
  units: the invariant of the warehouse and the abstract machine of a unit's status.
\<close>

section \<open>Steps\<close>

datatype glob_op =
    OpList glob_env string "string option"
  | OpCreateUnit glob_env create_unit
  | OpAction glob_env string string action_extra
  | OpSetVin string string
  | OpUnbindVin string
  | OpReserve glob_env string string "string option" "string option"
  | OpCancelReserve string
  | OpStage glob_env string string stage_extra
  | OpSetFx string jsnum
  | OpFlow glob_env string create_flow
  | OpPaid string "jsnum option"
  | OpCancelFlow string
  | OpStatement glob_env bool "statement_item list"
  | OpCreateImport glob_env create_import
  | OpSign glob_env string
  | OpImportPaid string payment_kind
  | OpBulk glob_env string string action_extra
  | OpRecompute string
  | OpCancelImport string

definition tables :: "glob_error + glob_db \<times> 'a \<Rightarrow> glob_error + glob_db" where
  "tables r = rbind r (\<lambda>(db, _). Inr db)"

fun run_glob :: "glob_op \<Rightarrow> glob_db \<Rightarrow> glob_error + glob_db" where
  "run_glob (OpList env dm key) db = Inr (fst (list_units env dm key db))"
| "run_glob (OpCreateUnit env input) db = tables (create_unit_op env input db)"
| "run_glob (OpAction env i a extra) db = tables (applyAction env i a extra db)"
| "run_glob (OpSetVin i v) db = tables (setVin i v db)"
| "run_glob (OpUnbindVin i) db = tables (unbindVin i db)"
| "run_glob (OpReserve env i d client note) db = tables (reserve_unit env i d client note db)"
| "run_glob (OpCancelReserve i) db = tables (cancelReserve i db)"
| "run_glob (OpStage env i st extra) db = tables (setSalesStage env i st extra db)"
| "run_glob (OpSetFx c r) db = tables (setFx c r db)"
| "run_glob (OpFlow env newId input) db = tables (createFlow env newId input db)"
| "run_glob (OpPaid i r) db = tables (markPaid i r db)"
| "run_glob (OpCancelFlow i) db = tables (cancelFlow i db)"
| "run_glob (OpStatement env dry items) db =
     (case importBankStatement env dry items db of None \<Rightarrow> Inl BadAmount | Some (db', _) \<Rightarrow> Inr db')"
| "run_glob (OpCreateImport env input) db = tables (create_import_op env input db)"
| "run_glob (OpSign env i) db = sign env i db"
| "run_glob (OpImportPaid i k) db = markPaidImport i k db"
| "run_glob (OpBulk env i a extra) db = tables (bulkUnitAction env i a extra db)"
| "run_glob (OpRecompute i) db = tables (recomputeLifecycle i db)"
| "run_glob (OpCancelImport i) db = cancelImport i db"

inductive glob_step :: "glob_db \<Rightarrow> glob_db \<Rightarrow> bool" where
  done_op: "run_glob oper db = Inr db' \<Longrightarrow> glob_step db db'"

inductive_cases glob_stepE: "glob_step db db'"

lemma tables_Inr: "tables r = Inr db \<longleftrightarrow> (\<exists>x. r = Inr (db, x))"
  by (auto simp: tables_def rbind_eq_Inr)

lemmas split_res = option.split_asm if_split_asm prod.split_asm sum.split_asm

section \<open>Frame\<close>

lemma glob_frame [simp]:
  "gb_units (audit a t db) = gb_units db" "gb_units (record_event e db) = gb_units db"
  "gb_reserves (audit a t db) = gb_reserves db" "gb_reserves (record_event e db) = gb_reserves db"
  "gb_imports (audit a t db) = gb_imports db" "gb_imports (record_event e db) = gb_imports db"
  "gb_flows (audit a t db) = gb_flows db" "gb_flows (record_event e db) = gb_flows db"
  "gb_units (update_reserves P g db) = gb_units db" "gb_imports (update_reserves P g db) = gb_imports db"
  "gb_reserves (update_units Q f db) = gb_reserves db" "gb_imports (update_units Q f db) = gb_imports db"
  "gb_flows (update_units Q f db) = gb_flows db" "gb_flows (update_reserves P g db) = gb_flows db"
  "gb_units (update_flows R h db) = gb_units db" "gb_reserves (update_flows R h db) = gb_reserves db"
  "gb_imports (update_flows R h db) = gb_imports db"
  "gb_units (update_import i k db) = gb_units db" "gb_reserves (update_import i k db) = gb_reserves db"
  "gb_flows (update_import i k db) = gb_flows db"
  by (simp_all add: audit_def record_event_def update_units_def update_reserves_def update_flows_def update_import_def)

lemma units_of_update [simp]:
  "gb_units (update_units P f db) = map (\<lambda>u. if P u then f u else u) (gb_units db)"
  "gb_reserves (update_reserves Q g db) = map (\<lambda>r. if Q r then g r else r) (gb_reserves db)"
  "gb_imports (update_import i k db) = map (\<lambda>c. if ic_id c = i then k c else c) (gb_imports db)"
  "gb_flows (update_flows R h db) = map (\<lambda>x. if R x then h x else x) (gb_flows db)"
  by (simp_all add: update_units_def update_reserves_def update_import_def update_flows_def)

text \<open>The money side leaves the warehouse and the contracts alone.\<close>

definition same_stock :: "glob_db \<Rightarrow> glob_db \<Rightarrow> bool" where
  "same_stock db db' \<longleftrightarrow> gb_units db' = gb_units db \<and> gb_reserves db' = gb_reserves db \<and> gb_imports db' = gb_imports db"

lemma same_stock_refl [simp]: "same_stock db db"
  by (simp add: same_stock_def)

lemma same_stock_trans: "same_stock a b \<Longrightarrow> same_stock b c \<Longrightarrow> same_stock a c"
  by (simp add: same_stock_def)

lemma insert_flow_stock: "insert_flow f db = Inr db' \<Longrightarrow> same_stock db db'"
  by (auto simp: insert_flow_def same_stock_def split: if_split_asm)

lemma writeFlow_stock: "writeFlow env i input p db = Inr (db', f) \<Longrightarrow> same_stock db db'"
  by (auto simp: writeFlow_def rbind_eq_Inr Let_def same_stock_def dest!: insert_flow_stock)

lemma createFlow_stock: "createFlow env i input db = Inr (db', f) \<Longrightarrow> same_stock db db'"
  by (cases "prepareFlow input db"; cases "projr (prepareFlow input db)")
    (auto simp: createFlow_def dest: writeFlow_stock)

lemma markPaid_stock: "markPaid i r db = Inr (db', f) \<Longrightarrow> same_stock db db'"
  by (auto simp: markPaid_def rbind_eq_Inr Let_def same_stock_def split: split_res)

lemma cancelFlow_stock: "cancelFlow i db = Inr (db', f) \<Longrightarrow> same_stock db db'"
  by (auto simp: cancelFlow_def rbind_eq_Inr Let_def same_stock_def split: split_res)

lemma setFx_stock: "setFx c r db = Inr (db', x) \<Longrightarrow> same_stock db db'"
  by (auto simp: setFx_def rbind_eq_Inr Let_def same_stock_def split: split_res)

lemma statement_step_stock: "same_stock (fst acc) (fst (statement_step env dry n item acc))"
  by (cases acc) (auto simp: statement_step_def Let_def split: option.split sum.split prep.split prod.split
      dest: writeFlow_stock)

lemma statement_rows_stock: "same_stock (fst acc) (fst (statement_rows env dry n items acc))"
proof (induction items arbitrary: n acc)
  case Nil
  then show ?case by simp
next
  case (Cons i items)
  from same_stock_trans [OF statement_step_stock Cons.IH] show ?case by simp
qed

lemma statement_stock: "importBankStatement env dry items db = Some (db', rep) \<Longrightarrow> same_stock db db'"
  using statement_rows_stock [of "(db, \<lparr>sr_created = 0, sr_skippedRepeat = 0, sr_rejected = []\<rparr>)" env dry 0 items]
  by (auto simp: importBankStatement_def split: if_split_asm)

lemma accrue_stock: "accrueCommission env u db = Inr db' \<Longrightarrow> same_stock db db'"
  by (auto simp: accrueCommission_def rbind_eq_Inr same_stock_def split: split_res dest!: insert_flow_stock)

lemma mk_plan_stock: "mk_plan env i c label a due db = Inr db' \<Longrightarrow> same_stock db db'"
  by (auto simp: mk_plan_def rbind_eq_Inr same_stock_def split: split_res dest!: createFlow_stock)

lemma plan_stock: "createPaymentPlan env k c db = Inr db' \<Longrightarrow> same_stock db db'"
  unfolding createPaymentPlan_def by (auto simp: rbind_eq_Inr intro: same_stock_trans dest!: mk_plan_stock)

section \<open>The abstract machine of a unit\<close>

inductive unit_edge :: "string \<Rightarrow> string \<Rightarrow> bool" where
  by_action: "map_of UNIT_TRANSITIONS a = Some t \<Longrightarrow> s \<in> set (tr_from t) \<Longrightarrow> unit_edge s (tr_to t)"
| hold: "s \<in> set RESERVE_ALLOWED \<Longrightarrow> unit_edge s ''RESERVED''"
| free: "unit_edge ''RESERVED'' ''IN_STOCK''"
| unbind: "s \<in> set VIN_UNBIND_ALLOWED \<Longrightarrow> unit_edge s ''CONTRACT_SIGNED''"

inductive_cases unit_edgeE: "unit_edge s s'"

definition follows :: "unit_row \<Rightarrow> unit_row \<Rightarrow> bool" where
  "follows u v \<longleftrightarrow> ut_id v = ut_id u \<and> ut_orgId v = ut_orgId u \<and> ut_code v = ut_code u
     \<and> unit_edge\<^sup>*\<^sup>* (ut_status u) (ut_status v)"

text \<open>The statuses in which a row is inserted: a request, own equipment, a unit of a signed contract.\<close>

definition UNIT_START :: "string list" where
  "UNIT_START = [''NEW_REQUEST'', ''IN_STOCK'', ''CONTRACT_SIGNED'']"

definition units_follow :: "unit_row list \<Rightarrow> unit_row list \<Rightarrow> bool" where
  "units_follow us us' \<longleftrightarrow> (\<exists>f new. us' = map f us @ new \<and> (\<forall>u \<in> set us. follows u (f u))
     \<and> (\<forall>v \<in> set new. \<exists>w. ut_status w \<in> set UNIT_START \<and> follows w v))"

lemma follows_refl [simp]: "follows u u"
  by (simp add: follows_def)

lemma follows_trans: "follows u v \<Longrightarrow> follows v w \<Longrightarrow> follows u w"
  by (auto simp: follows_def)

lemma units_follow_refl [simp]: "units_follow us us"
  unfolding units_follow_def by (intro exI [of _ id] exI [of _ "[]"]) simp

lemma units_follow_update:
  "(\<And>u. u \<in> set us \<Longrightarrow> P u \<Longrightarrow> follows u (f u)) \<Longrightarrow> units_follow us (map (\<lambda>u. if P u then f u else u) us)"
  unfolding units_follow_def by (intro exI [of _ "\<lambda>u. if P u then f u else u"] exI [of _ "[]"]) auto

lemma units_follow_trans:
  assumes "units_follow us vs" "units_follow vs ws"
  shows "units_follow us ws"
proof -
  obtain f new where f: "vs = map f us @ new" "\<forall>u \<in> set us. follows u (f u)"
    and n: "\<forall>v \<in> set new. \<exists>w. ut_status w \<in> set UNIT_START \<and> follows w v"
    using assms(1) unfolding units_follow_def by blast
  obtain g new' where g: "ws = map g vs @ new'" "\<forall>v \<in> set vs. follows v (g v)"
    and n': "\<forall>v \<in> set new'. \<exists>w. ut_status w \<in> set UNIT_START \<and> follows w v"
    using assms(2) unfolding units_follow_def by blast
  have "ws = map (g \<circ> f) us @ (map g new @ new')" using f(1) g(1) by simp
  moreover have "\<forall>u \<in> set us. follows u ((g \<circ> f) u)" using f g by (auto intro: follows_trans)
  moreover have "\<exists>w. ut_status w \<in> set UNIT_START \<and> follows w (g v)" if "v \<in> set new" for v
  proof -
    have "follows v (g v)" using g(2) f(1) that by auto
    with n that show ?thesis by (blast intro: follows_trans)
  qed
  ultimately show ?thesis using n' unfolding units_follow_def
    by (intro exI [of _ "g \<circ> f"] exI [of _ "map g new @ new'"]) auto
qed

section \<open>The invariant of the warehouse\<close>

definition one_reserve :: "reserve_row list \<Rightarrow> bool" where
  "one_reserve rs \<longleftrightarrow> (\<forall>i. length (filter (active_of i) rs) \<le> 1)"

definition held :: "reserve_row list \<Rightarrow> unit_row \<Rightarrow> bool" where
  "held rs u \<longleftrightarrow> (ut_status u = ''RESERVED'' \<longrightarrow> list_ex (active_of (ut_id u)) rs)"

definition stage_listed :: "unit_row \<Rightarrow> bool" where
  "stage_listed u \<longleftrightarrow> (case ut_salesStage u of None \<Rightarrow> True | Some s \<Rightarrow> s \<in> set SALES_STAGES)"

definition unit_keys :: "unit_row list \<Rightarrow> bool" where
  "unit_keys us \<longleftrightarrow> distinct (map ut_id us) \<and> vins_unique us \<and> codes_unique us"

definition unit_ok :: "reserve_row list \<Rightarrow> unit_row \<Rightarrow> bool" where
  "unit_ok rs u \<longleftrightarrow> ut_status u \<in> set UNIT_STATUSES \<and> stage_listed u \<and> held rs u"

definition warehouse_inv :: "glob_db \<Rightarrow> bool" where
  "warehouse_inv db \<longleftrightarrow> unit_keys (gb_units db) \<and> one_reserve (gb_reserves db)
     \<and> (\<forall>u \<in> set (gb_units db). unit_ok (gb_reserves db) u)"

lemma warehouse_inv_stock: "same_stock db db' \<Longrightarrow> warehouse_inv db \<Longrightarrow> warehouse_inv db'"
  by (simp add: warehouse_inv_def same_stock_def)

lemma vins_unique_map:
  assumes "\<And>u. given (ut_vin (f u)) = given (ut_vin u) \<or> given (ut_vin (f u)) = []" "vins_unique us"
  shows "vins_unique (map f us)"
  using assms(2)
proof (induction us)
  case Nil
  then show ?case by (simp add: vins_unique_def)
next
  case (Cons u us)
  have sub: "set (filter (\<lambda>v. v \<noteq> []) (map (\<lambda>u. given (ut_vin u)) (map f us)))
      \<subseteq> set (filter (\<lambda>v. v \<noteq> []) (map (\<lambda>u. given (ut_vin u)) us))"
    using assms(1) by auto
  have "vins_unique us" using Cons.prems by (auto simp: vins_unique_def split: if_splits)
  then have "distinct (filter (\<lambda>v. v \<noteq> []) (map (\<lambda>u. given (ut_vin u)) (map f us)))"
    using Cons.IH by (simp add: vins_unique_def)
  with sub Cons.prems assms(1) [of u] show ?case by (auto simp: vins_unique_def)
qed

lemma unit_keys_map:
  assumes "\<And>u. ut_id (f u) = ut_id u \<and> ut_orgId (f u) = ut_orgId u \<and> ut_code (f u) = ut_code u"
    "\<And>u. given (ut_vin (f u)) = given (ut_vin u) \<or> given (ut_vin (f u)) = []" "unit_keys us"
  shows "unit_keys (map f us)"
  using assms vins_unique_map [of f us]
  by (simp add: unit_keys_def codes_unique_def comp_def)

lemma check_unit_indexes_Inr:
  "check_unit_indexes db = Inr db' \<longleftrightarrow> db' = db \<and> unit_keys (gb_units db)"
  by (auto simp: check_unit_indexes_def unit_keys_def)

lemma one_reserve_map:
  assumes "\<And>r i. active_of i (g r) \<Longrightarrow> active_of i r" "one_reserve rs"
  shows "one_reserve (map g rs)"
proof -
  have "length (filter (active_of i) (map g rs)) \<le> length (filter (active_of i) rs)" for i
    using assms(1) by (induction rs) (auto simp: le_SucI)
  with assms(2) show ?thesis unfolding one_reserve_def by (meson order_trans)
qed

lemma list_ex_map_active:
  assumes "\<And>r. active_of i r \<Longrightarrow> active_of i (g r)" "list_ex (active_of i) rs"
  shows "list_ex (active_of i) (map g rs)"
  using assms by (auto simp: list_ex_iff)

lemma find_unit_Inr: "find_unit db i = Inr u \<Longrightarrow> u \<in> set (gb_units db) \<and> ut_id u = i"
  by (auto simp: find_unit_def find_Some_iff split: option.split_asm)

text \<open>An update of the units alone that leaves the keys and reserves nothing new.\<close>

lemma warehouse_update:
  assumes "warehouse_inv db" "gb_reserves db' = gb_reserves db"
    "gb_units db' = map (\<lambda>u. if P u then f u else u) (gb_units db)"
    "\<And>u. ut_id (f u) = ut_id u \<and> ut_orgId (f u) = ut_orgId u \<and> ut_code (f u) = ut_code u"
    "\<And>u. given (ut_vin (f u)) = given (ut_vin u) \<or> given (ut_vin (f u)) = []"
    "\<And>u. u \<in> set (gb_units db) \<Longrightarrow> P u \<Longrightarrow> unit_ok (gb_reserves db) u \<Longrightarrow> unit_ok (gb_reserves db) (f u)"
  shows "warehouse_inv db'"
proof -
  have "unit_keys (gb_units db')"
    unfolding assms(3) using assms(1,4,5) by (intro unit_keys_map) (auto simp: warehouse_inv_def)
  with assms(1,2,3,6) show ?thesis by (auto simp: warehouse_inv_def)
qed

end
