(* ===== verification/GlobInv.thy ===== *)
theory GlobInv
  imports GlobFacts
begin

text \<open>
  Every operation keeps the invariant of the warehouse and moves units along the edges of their
  machine: one lemma per operation, and the interpretation of the row history on the units.
\<close>

section \<open>Shapes of an operation\<close>

text \<open>What a success says of the guards on the way.\<close>

lemma guards_Inr:
  "(case v of None \<Rightarrow> Inl e | Some x \<Rightarrow> f x) = Inr y \<longleftrightarrow> (\<exists>x. v = Some x \<and> f x = Inr y)"
  "(case v of None \<Rightarrow> r | Some x \<Rightarrow> Inl (g x)) = Inr y \<longleftrightarrow> v = None \<and> r = Inr y"
  "(if c then Inl e else r) = Inr y \<longleftrightarrow> \<not> c \<and> r = Inr y"
  by (cases v; simp)+

lemmas success = guards_Inr rbind_eq_Inr

definition keeps :: "glob_db \<Rightarrow> glob_db \<Rightarrow> bool" where
  "keeps db db' \<longleftrightarrow> (warehouse_inv db \<longrightarrow> warehouse_inv db' \<and> units_follow (gb_units db) (gb_units db'))"

lemma keeps_stock: "same_stock db db' \<Longrightarrow> keeps db db'"
  using warehouse_inv_stock by (auto simp: keeps_def same_stock_def)

lemma keeps_refl [simp]: "keeps db db"
  by (simp add: keeps_def)

lemma keeps_trans: "keeps a b \<Longrightarrow> keeps b c \<Longrightarrow> keeps a c"
  by (auto simp: keeps_def intro: units_follow_trans)

text \<open>Rows of a unit that differ only off the columns the warehouse relies on.\<close>

definition same_unit :: "unit_row \<Rightarrow> unit_row \<Rightarrow> bool" where
  "same_unit u v \<longleftrightarrow> ut_id v = ut_id u \<and> ut_orgId v = ut_orgId u \<and> ut_code v = ut_code u
     \<and> (given (ut_vin v) = given (ut_vin u) \<or> given (ut_vin v) = [])"

lemma keeps_update:
  assumes "gb_reserves db' = gb_reserves db" "gb_units db' = map (\<lambda>u. if P u then f u else u) (gb_units db)"
    "\<And>u. same_unit u (f u)"
    "\<And>u. warehouse_inv db \<Longrightarrow> u \<in> set (gb_units db) \<Longrightarrow> P u \<Longrightarrow> unit_edge\<^sup>*\<^sup>* (ut_status u) (ut_status (f u))"
    "\<And>u. warehouse_inv db \<Longrightarrow> u \<in> set (gb_units db) \<Longrightarrow> P u \<Longrightarrow> unit_ok (gb_reserves db) u \<Longrightarrow> unit_ok (gb_reserves db) (f u)"
  shows "keeps db db'"
  unfolding keeps_def
proof
  assume inv: "warehouse_inv db"
  have "warehouse_inv db'"
    using assms(3,5) inv by (intro warehouse_update [OF inv assms(1,2)]) (auto simp: same_unit_def)
  moreover have "units_follow (gb_units db) (gb_units db')"
    unfolding assms(2) using assms(3,4) inv by (intro units_follow_update) (auto simp: follows_def same_unit_def)
  ultimately show "warehouse_inv db' \<and> units_follow (gb_units db) (gb_units db')" by simp
qed

lemma unit_of_id:
  "warehouse_inv db \<Longrightarrow> find_unit db i = Inr u \<Longrightarrow> v \<in> set (gb_units db) \<Longrightarrow> ut_id v = i \<Longrightarrow> v = u"
  using find_unit_Inr [of db i u]
  by (auto simp: warehouse_inv_def unit_keys_def distinct_map inj_on_def)

section \<open>Units\<close>

lemma moved_fields [simp]:
  "ut_id (moved env a s x d e u) = ut_id u" "ut_orgId (moved env a s x d e u) = ut_orgId u"
  "ut_code (moved env a s x d e u) = ut_code u" "ut_vin (moved env a s x d e u) = ut_vin u"
  "ut_status (moved env a s x d e u) = s" "ut_salesStage (moved env a s x d e u) = ut_salesStage u"
  by (simp_all add: moved_def)

lemma same_unit_moved [simp]: "same_unit u (moved env a s x d e u)" "same_unit u (bulk_moved env a s x e u)"
  by (simp_all add: same_unit_def bulk_moved_def)

lemma moved_ok:
  assumes "map_of UNIT_TRANSITIONS a = Some t" "unit_ok rs u"
  shows "unit_ok rs (moved env a (tr_to t) x d e u)"
  using assms transition_statuses [OF assms(1)] transition_not_reserved [OF assms(1)]
  by (simp add: unit_ok_def held_def stage_listed_def)

lemma keeps_moves:
  assumes "map_of UNIT_TRANSITIONS a = Some t" "gb_reserves db' = gb_reserves db"
    "gb_units db' = map (\<lambda>u. if P u then f u else u) (gb_units db)"
    "\<And>u. P u \<Longrightarrow> ut_status u \<in> set (tr_from t)" "\<And>u. \<exists>d e. f u = moved env a (tr_to t) x d e u"
  shows "keeps db db'"
proof (rule keeps_update [OF assms(2,3)])
  fix u
  obtain d e where f: "f u = moved env a (tr_to t) x d e u" using assms(5) by blast
  show "same_unit u (f u)" by (simp add: f)
  show "unit_edge\<^sup>*\<^sup>* (ut_status u) (ut_status (f u))" if "P u"
    using unit_edge.by_action [OF assms(1) assms(4) [OF that]] by (simp add: f r_into_rtranclp)
  show "unit_ok (gb_reserves db) u \<Longrightarrow> unit_ok (gb_reserves db) (f u)"
    using moved_ok [OF assms(1)] by (simp add: f)
qed

text \<open>What a successful call of each operation has done.\<close>

lemma applyAction_Inr:
  assumes "applyAction env i a x db = Inr (db', v)"
  shows "\<exists>t before d e. map_of UNIT_TRANSITIONS a = Some t \<and> find_unit db i = Inr before
    \<and> ut_status before \<in> set (tr_from t) \<and> extra_error a x = None \<and> v = moved env a (tr_to t) x d e before
    \<and> db' = record_event (StatusChanged i a (tr_to t)) (audit (''unit.'' @ a) i
        (update_units (\<lambda>u. ut_id u = i \<and> ut_status u \<in> set (tr_from t)) (moved env a (tr_to t) x d e) db))"
  using assms by (auto simp: applyAction_def Let_def success)

lemma applyAction_keeps: "applyAction env i a x db = Inr (db', u) \<Longrightarrow> keeps db db'"
proof -
  assume "applyAction env i a x db = Inr (db', u)"
  from applyAction_Inr [OF this] obtain t d e where "map_of UNIT_TRANSITIONS a = Some t"
    and "db' = record_event (StatusChanged i a (tr_to t)) (audit (''unit.'' @ a) i
        (update_units (\<lambda>u. ut_id u = i \<and> ut_status u \<in> set (tr_from t)) (moved env a (tr_to t) x d e) db))"
    by blast
  then show ?thesis
    by (intro keeps_moves [where P = "\<lambda>u. ut_id u = i \<and> ut_status u \<in> set (tr_from t)"
          and f = "moved env a (tr_to t) x d e"]) auto
qed

lemma unbindVin_Inr:
  "unbindVin i db = Inr (db', v) \<longleftrightarrow>
    (\<exists>u. find_unit db i = Inr u \<and> ut_status u \<in> set VIN_UNBIND_ALLOWED
      \<and> v = u\<lparr>ut_vin := None, ut_status := ''CONTRACT_SIGNED''\<rparr>
      \<and> db' = audit ''unit.vin_unbind'' i
          (update_units (\<lambda>u. ut_id u = i) (\<lambda>u. u\<lparr>ut_vin := None, ut_status := ''CONTRACT_SIGNED''\<rparr>) db))"
  by (auto simp: unbindVin_def Let_def success)

lemma unbindVin_keeps: "unbindVin i db = Inr (db', v) \<Longrightarrow> keeps db db'"
proof -
  assume "unbindVin i db = Inr (db', v)"
  then obtain u where u: "find_unit db i = Inr u" "ut_status u \<in> set VIN_UNBIND_ALLOWED"
    and db': "db' = audit ''unit.vin_unbind'' i
      (update_units (\<lambda>u. ut_id u = i) (\<lambda>u. u\<lparr>ut_vin := None, ut_status := ''CONTRACT_SIGNED''\<rparr>) db)"
    by (auto simp: unbindVin_Inr)
  have edge: "unit_edge (ut_status v) ''CONTRACT_SIGNED''"
    if "warehouse_inv db" "v \<in> set (gb_units db)" "ut_id v = i" for v
    using unit_of_id [OF that(1) u(1) that(2,3)] u(2) by (auto intro: unit_edge.unbind)
  show ?thesis
    by (rule keeps_update [where P = "\<lambda>u. ut_id u = i"
          and f = "\<lambda>u. u\<lparr>ut_vin := None, ut_status := ''CONTRACT_SIGNED''\<rparr>"])
      (auto simp: db' same_unit_def given_def unit_ok_def held_def stage_listed_def UNIT_STATUSES_def
        intro: r_into_rtranclp edge)
qed

lemma setVin_Inr:
  "setVin i vin db = Inr (db', v) \<longleftrightarrow>
    (\<exists>u db1. \<not> length (js_trim vin) < 5 \<and> find_unit db i = Inr u \<and> v = u\<lparr>ut_vin := Some (js_trim vin)\<rparr>
      \<and> db1 = update_units (\<lambda>u. ut_id u = i) (\<lambda>u. u\<lparr>ut_vin := Some (js_trim vin)\<rparr>) db
      \<and> unit_keys (gb_units db1) \<and> db' = audit ''unit.vin_set'' i db1)"
  by (auto simp: setVin_def Let_def success check_unit_indexes_Inr)

text \<open>Operations that check the indexes themselves: the keys hold afterwards, the rest row by row.\<close>

lemma keeps_checked:
  assumes "gb_reserves db' = gb_reserves db" "unit_keys (gb_units db')"
    "gb_units db' = map f (gb_units db) @ new"
    "\<And>u. follows u (f u)" "\<And>u rs. unit_ok rs u \<Longrightarrow> unit_ok rs (f u)" "\<And>u rs. u \<in> set new \<Longrightarrow> unit_ok rs u"
    "\<And>u. u \<in> set new \<Longrightarrow> ut_status u \<in> set UNIT_START"
  shows "keeps db db'"
  unfolding keeps_def
proof
  assume inv: "warehouse_inv db"
  have "warehouse_inv db'" using inv assms(1,2,5,6) by (auto simp: warehouse_inv_def assms(3))
  moreover have "units_follow (gb_units db) (gb_units db')"
    using assms(3,4,7) follows_refl unfolding units_follow_def by blast
  ultimately show "warehouse_inv db' \<and> units_follow (gb_units db) (gb_units db')" by simp
qed

lemma setVin_keeps: "setVin i vin db = Inr (db', v) \<Longrightarrow> keeps db db'"
  by (rule keeps_checked [where f = "\<lambda>u. if ut_id u = i then u\<lparr>ut_vin := Some (js_trim vin)\<rparr> else u" and new = "[]"])
    (auto simp: setVin_Inr follows_def unit_ok_def held_def stage_listed_def)

lemma new_unit_ok: "unit_ok rs (new_unit env org code input price)"
  "ut_status (new_unit env org code input price) \<in> set UNIT_START"
  by (simp_all add: new_unit_def unit_ok_def held_def stage_listed_def UNIT_STATUSES_def UNIT_START_def)

lemma create_unit_Inr:
  "create_unit_op env input db = Inr (db', u) \<Longrightarrow>
    \<exists>org n price. orgId db (cu_domain input) = Inr org \<and> next_code org (gb_units db) = Inr n
      \<and> price_column (cu_salesPrice input) = Inr price \<and> u = new_unit env org (unit_code n) input price
      \<and> gb_units db' = gb_units db @ [u] \<and> unit_keys (gb_units db')
      \<and> db' = audit ''unit.create'' (ut_id u) (db\<lparr>gb_units := gb_units db @ [u]\<rparr>)"
  by (auto simp: create_unit_op_def Let_def success check_unit_indexes_Inr)

lemma create_unit_keeps: "create_unit_op env input db = Inr (db', u) \<Longrightarrow> keeps db db'"
  using new_unit_ok by (intro keeps_checked [where f = "\<lambda>u. u" and new = "[u]"]) (auto dest!: create_unit_Inr)

lemma staged_fields [simp]:
  "ut_id (staged st x p u) = ut_id u" "ut_orgId (staged st x p u) = ut_orgId u"
  "ut_code (staged st x p u) = ut_code u" "ut_vin (staged st x p u) = ut_vin u"
  "ut_status (staged st x p u) = ut_status u" "ut_salesStage (staged st x p u) = Some st"
  by (simp_all add: staged_def)

lemma setSalesStage_Inr:
  "setSalesStage env i st x db = Inr (db', v) \<Longrightarrow>
    \<exists>u price db1. st \<in> set SALES_STAGES \<and> find_unit db i = Inr u \<and> v = staged st x price u
      \<and> (ut_salesStage u = None \<longrightarrow> ut_status u \<in> set SALE_START_ALLOWED)
      \<and> db1 = audit ''unit.sales_stage'' i (update_units (\<lambda>v. ut_id v = i) (staged st x price) db)
      \<and> (db' = db1 \<or> accrueCommission env v db1 = Inr db' \<or> db' = record_event (CommissionFailed i None) db1)"
  by (auto simp: setSalesStage_def Let_def success split: if_split_asm sum.split_asm)

lemma setSalesStage_keeps: "setSalesStage env i st x db = Inr (db', v) \<Longrightarrow> keeps db db'"
proof -
  assume "setSalesStage env i st x db = Inr (db', v)"
  from setSalesStage_Inr [OF this] obtain price db1 where st: "st \<in> set SALES_STAGES"
    and db1: "db1 = audit ''unit.sales_stage'' i (update_units (\<lambda>v. ut_id v = i) (staged st x price) db)"
    and out: "db' = db1 \<or> accrueCommission env v db1 = Inr db' \<or> db' = record_event (CommissionFailed i None) db1"
    by blast
  have "keeps db db1"
    by (rule keeps_update [where P = "\<lambda>v. ut_id v = i" and f = "staged st x price"])
      (auto simp: db1 same_unit_def unit_ok_def held_def stage_listed_def st)
  moreover have "same_stock db1 db'"
    using out accrue_stock by (auto simp: same_stock_def)
  ultimately show ?thesis by (blast intro: keeps_trans keeps_stock)
qed

section \<open>Reserves\<close>

text \<open>A step that closes active reserves and gives back to stock every held unit that lost its own.\<close>

lemma keeps_release:
  assumes "gb_reserves db' = map (\<lambda>r. if R r then r\<lparr>rv_status := st\<rparr> else r) (gb_reserves db)" "st \<noteq> ''active''"
    "gb_units db' = map (\<lambda>u. if P u then u\<lparr>ut_status := ''IN_STOCK''\<rparr> else u) (gb_units db)"
    "\<And>u. P u \<Longrightarrow> ut_status u = ''RESERVED''"
    "\<And>u. ut_status u = ''RESERVED'' \<Longrightarrow> \<not> P u \<Longrightarrow>
       list_ex (active_of (ut_id u)) (gb_reserves db) \<Longrightarrow> list_ex (active_of (ut_id u)) (gb_reserves db')"
  shows "keeps db db'"
  unfolding keeps_def
proof
  assume inv: "warehouse_inv db"
  let ?f = "\<lambda>u. if P u then u\<lparr>ut_status := ''IN_STOCK''\<rparr> else u"
  have "unit_keys (gb_units db')"
    unfolding assms(3) using inv by (intro unit_keys_map) (auto simp: warehouse_inv_def)
  moreover have "one_reserve (gb_reserves db')"
    unfolding assms(1) using inv assms(2)
    by (intro one_reserve_map) (auto simp: warehouse_inv_def active_of_def split: if_splits)
  moreover have "unit_ok (gb_reserves db') (?f u)" if "u \<in> set (gb_units db)" for u
    using inv that assms(5) [of u]
    by (auto simp: warehouse_inv_def unit_ok_def held_def stage_listed_def UNIT_STATUSES_def)
  then have "\<forall>v \<in> set (gb_units db'). unit_ok (gb_reserves db') v"
    unfolding assms(3) by (simp only: set_map ball_simps) blast
  moreover have "units_follow (gb_units db) (gb_units db')"
    unfolding assms(3) using assms(4)
    by (intro units_follow_update) (auto simp: follows_def intro!: r_into_rtranclp unit_edge.free)
  ultimately show "warehouse_inv db' \<and> units_follow (gb_units db) (gb_units db')"
    by (simp add: warehouse_inv_def)
qed

lemma expireReserves_keeps: "keeps db (expireReserves env db)"
proof (rule keeps_release)
  show "gb_reserves (expireReserves env db) = map (\<lambda>r. if rv_status r = ''active'' \<and> rv_endDate r < ge_today env
      then r\<lparr>rv_status := ''expired''\<rparr> else r) (gb_reserves db)"
    by (simp add: expireReserves_def Let_def)
  show "gb_units (expireReserves env db) = map (\<lambda>u. if ut_status u = ''RESERVED''
      \<and> \<not> list_ex (active_of (ut_id u)) (gb_reserves (expireReserves env db))
      then u\<lparr>ut_status := ''IN_STOCK''\<rparr> else u) (gb_units db)"
    by (simp add: expireReserves_def Let_def)
qed auto

lemma list_units_keeps: "keeps db (fst (list_units env dm key db))"
  using expireReserves_keeps
  by (auto simp: list_units_def Let_def split: sum.split option.split)

lemma cancelReserve_Inr:
  "cancelReserve i db = Inr (db', v) \<Longrightarrow>
    db' = audit ''unit.reserve_cancelled'' i
        (update_units (\<lambda>u. ut_id u = i \<and> ut_status u = ''RESERVED'') (\<lambda>u. u\<lparr>ut_status := ''IN_STOCK''\<rparr>)
          (update_reserves (active_of i) (\<lambda>r. r\<lparr>rv_status := ''cancelled''\<rparr>) db))"
  by (auto simp: cancelReserve_def Let_def success)

lemma cancelReserve_keeps: "cancelReserve i db = Inr (db', v) \<Longrightarrow> keeps db db'"
  by (rule keeps_release [where R = "active_of i" and st = "''cancelled''"
        and P = "\<lambda>u. ut_id u = i \<and> ut_status u = ''RESERVED''"])
    (auto dest!: cancelReserve_Inr simp: active_of_def list_ex_iff)

lemma reserve_unit_Inr:
  "reserve_unit env i endDate client note db = Inr (db', r) \<Longrightarrow>
    \<exists>u d. find_unit db i = Inr u \<and> ut_status u \<in> set RESERVE_ALLOWED \<and> \<not> list_ex (active_of i) (gb_reserves db)
      \<and> \<not> endDate < ge_today env \<and> pg_date env endDate = Inr d
      \<and> r = \<lparr>rv_id = ge_newId env, rv_unitId = i, rv_clientId = client, rv_endDate = d, rv_status = ''active'', rv_note = note\<rparr>
      \<and> db' = audit ''unit.reserved'' i (update_units (\<lambda>u. ut_id u = i) (\<lambda>u. u\<lparr>ut_status := ''RESERVED''\<rparr>)
          (db\<lparr>gb_reserves := gb_reserves db @ [r]\<rparr>))"
  by (auto simp: reserve_unit_def Let_def success)

lemma one_reserve_add:
  assumes "one_reserve rs" "\<not> list_ex (active_of (rv_unitId r)) rs"
  shows "one_reserve (rs @ [r])"
proof -
  have "filter (active_of i) rs = []" if "active_of i r" for i
    using assms(2) that by (auto simp: filter_empty_conv list_ex_iff active_of_def)
  with assms(1) show ?thesis by (auto simp: one_reserve_def)
qed

lemma reserve_unit_keeps:
  assumes "reserve_unit env i endDate client note db = Inr (db', r)"
  shows "keeps db db'"
  unfolding keeps_def
proof
  assume inv: "warehouse_inv db"
  from reserve_unit_Inr [OF assms] obtain u where u: "find_unit db i = Inr u" "ut_status u \<in> set RESERVE_ALLOWED"
    and free: "\<not> list_ex (active_of i) (gb_reserves db)" and r: "rv_unitId r = i" "rv_status r = ''active''"
    and db': "gb_units db' = map (\<lambda>u. if ut_id u = i then u\<lparr>ut_status := ''RESERVED''\<rparr> else u) (gb_units db)"
      "gb_reserves db' = gb_reserves db @ [r]"
    by auto
  have "unit_keys (gb_units db')"
    unfolding db' using inv by (intro unit_keys_map) (auto simp: warehouse_inv_def)
  moreover have "one_reserve (gb_reserves db')"
    using inv free r by (auto simp: db' warehouse_inv_def intro!: one_reserve_add)
  moreover have "unit_ok (gb_reserves db') (if ut_id v = i then v\<lparr>ut_status := ''RESERVED''\<rparr> else v)"
    if "v \<in> set (gb_units db)" for v
    using inv that r by (auto simp: warehouse_inv_def unit_ok_def held_def stage_listed_def UNIT_STATUSES_def db' active_of_def)
  then have "\<forall>v \<in> set (gb_units db'). unit_ok (gb_reserves db') v"
    unfolding db'(1) by (simp only: set_map ball_simps) blast
  moreover have "follows v (v\<lparr>ut_status := ''RESERVED''\<rparr>)" if "v \<in> set (gb_units db)" "ut_id v = i" for v
    using unit_of_id [OF inv u(1) that] u(2) by (auto simp: follows_def intro!: r_into_rtranclp unit_edge.hold)
  then have "units_follow (gb_units db) (gb_units db')"
    unfolding db' by (intro units_follow_update) auto
  ultimately show "warehouse_inv db' \<and> units_follow (gb_units db) (gb_units db')"
    by (simp add: warehouse_inv_def)
qed

section \<open>Import contracts\<close>

lemma contract_unit_ok: "unit_ok rs (contract_unit c i item n)"
  "ut_status (contract_unit c i item n) \<in> set UNIT_START"
  by (simp_all add: contract_unit_def unit_ok_def held_def stage_listed_def UNIT_STATUSES_def UNIT_START_def)

lemma materialized_ok:
  "u \<in> set (materialized env c next) \<Longrightarrow> unit_ok rs u"
  "u \<in> set (materialized env c next) \<Longrightarrow> ut_status u \<in> set UNIT_START"
  using contract_unit_ok by (auto simp: materialized_def)

lemma update_import_keeps: "keeps db (update_import i k db)"
  by (simp add: keeps_def warehouse_inv_def)

lemma materialize_Inr:
  assumes "materialize env i c db = Inr db'"
  shows "db' = db \<or> (\<exists>n. next_code (ic_orgId c) (gb_units db) = Inr n \<and> unit_keys (gb_units db')
        \<and> db' = db\<lparr>gb_units := gb_units db @ materialized env c n\<rparr>)"
proof (cases "list_ex (\<lambda>u. ut_importContractId u = Some i) (gb_units db)")
  case True
  with assms show ?thesis by (simp add: materialize_def)
next
  case False
  with assms obtain n where n: "next_code (ic_orgId c) (gb_units db) = Inr n"
    and ch: "check_unit_indexes (db\<lparr>gb_units := gb_units db @ materialized env c n\<rparr>) = Inr db'"
    by (simp only: materialize_def if_False rbind_eq_Inr) blast
  from ch [unfolded check_unit_indexes_Inr] n show ?thesis by blast
qed

lemma materialize_keeps: "materialize env i c db = Inr db' \<Longrightarrow> keeps db db'"
proof -
  assume "materialize env i c db = Inr db'"
  then consider "db' = db" | n where "unit_keys (gb_units db')" "db' = db\<lparr>gb_units := gb_units db @ materialized env c n\<rparr>"
    using materialize_Inr by blast
  then show ?thesis
  proof cases
    case 1
    then show ?thesis by simp
  next
    case 2
    show ?thesis
    proof (rule keeps_checked [OF _ 2(1)])
      show "gb_reserves db' = gb_reserves db" by (simp add: 2)
      show "gb_units db' = map (\<lambda>u. u) (gb_units db) @ materialized env c n" by (simp add: 2)
    qed (auto intro: materialized_ok)
  qed
qed

lemma sign_Inr:
  "sign env i db = Inr db' \<Longrightarrow>
    \<exists>c db1 db2. find_import db i = Inr c \<and> ic_status c = ''draft''
      \<and> materialize env i c (update_import i (\<lambda>c. c\<lparr>ic_status := ''in_progress'', ic_lifecycleStatus := LcSigned\<rparr>) db) = Inr db1
      \<and> createPaymentPlan env (length (pieces (ic_items c))) c db1 = Inr db2
      \<and> db' = record_event (ImportSigned i) (audit ''import.signed'' i db2)"
  by (auto simp: sign_def success)

lemma sign_keeps: "sign env i db = Inr db' \<Longrightarrow> keeps db db'"
proof -
  assume "sign env i db = Inr db'"
  from sign_Inr [OF this] obtain k c db1 db2 where "materialize env i c (update_import i k db) = Inr db1"
    and "createPaymentPlan env (length (pieces (ic_items c))) c db1 = Inr db2"
    and "db' = record_event (ImportSigned i) (audit ''import.signed'' i db2)"
    by blast
  then have "keeps (update_import i k db) db1" "same_stock db1 db2" "same_stock db2 db'"
    by (auto dest: materialize_keeps plan_stock simp: same_stock_def)
  then show ?thesis by (blast intro: keeps_trans keeps_stock update_import_keeps)
qed

lemma close_planned_stock: "close_planned i kind db = Inr db' \<Longrightarrow> same_stock db db'"
  by (auto simp: close_planned_def success split: option.split_asm dest: markPaid_stock)

lemma markPaidImport_keeps: "markPaidImport i kind db = Inr db' \<Longrightarrow> keeps db db'"
proof -
  assume "markPaidImport i kind db = Inr db'"
  then obtain db1 where "close_planned i kind (update_import i (set_paid kind) db) = Inr db1" "same_stock db1 db'"
    by (auto simp: markPaidImport_def success same_stock_def)
  then show ?thesis by (blast intro: keeps_trans keeps_stock update_import_keeps close_planned_stock)
qed

lemma recompute_keeps:
  assumes "recomputeLifecycle i db = Inr (db', lc)"
  shows "keeps db db'"
  using assms update_import_keeps
  by (auto simp: recomputeLifecycle_def success keeps_def warehouse_inv_def split: option.split_asm)

lemma bulk_Inr:
  "bulkUnitAction env i a x db = Inr (db', m, k, lc) \<Longrightarrow>
    \<exists>t c declared db1 db3. map_of UNIT_TRANSITIONS a = Some t \<and> a \<in> set BULK_ACTIONS \<and> find_import db i = Inr c
      \<and> m = length (filter (\<lambda>u. ut_status u \<in> set (tr_from t)) (contract_units i db))
      \<and> k = length (filter (\<lambda>u. is_active_status (ut_status u)) (contract_units i db)) - m
      \<and> db1 = audit (''import.bulk_'' @ a) i (update_units
          (\<lambda>u. ut_importContractId u = Some i \<and> ut_status u \<in> set (tr_from t)) (bulk_moved env a (tr_to t) x declared) db)
      \<and> recomputeLifecycle i db1 = Inr (db3, lc)
      \<and> db' = record_event (BulkAction i a m k lc) db3"
  by (auto simp: bulkUnitAction_def Let_def success)

lemma bulk_keeps:
  assumes "bulkUnitAction env i a x db = Inr (db', m, k, lc)"
  shows "keeps db db'"
proof -
  from bulk_Inr [OF assms] obtain t declared db1 db3 where t: "map_of UNIT_TRANSITIONS a = Some t"
    and db1: "db1 = audit (''import.bulk_'' @ a) i (update_units
          (\<lambda>u. ut_importContractId u = Some i \<and> ut_status u \<in> set (tr_from t)) (bulk_moved env a (tr_to t) x declared) db)"
    and db3: "recomputeLifecycle i db1 = Inr (db3, lc)" and db': "db' = record_event (BulkAction i a m k lc) db3"
    by blast
  have "keeps db db1"
    by (rule keeps_moves [OF t, where P = "\<lambda>u. ut_importContractId u = Some i \<and> ut_status u \<in> set (tr_from t)"
          and f = "bulk_moved env a (tr_to t) x declared"]) (auto simp: db1 bulk_moved_def)
  moreover have "keeps db1 db3" using db3 by (rule recompute_keeps)
  moreover have "keeps db3 db'" unfolding db' by (rule keeps_stock) (simp add: same_stock_def)
  ultimately show ?thesis by (blast intro: keeps_trans)
qed

lemma cancelImport_keeps: "cancelImport i db = Inr db' \<Longrightarrow> keeps db db'"
  using update_import_keeps
  by (auto simp: cancelImport_def Let_def success keeps_def warehouse_inv_def)

lemma create_import_keeps: "create_import_op env input db = Inr (db', c) \<Longrightarrow> keeps db db'"
  by (auto simp: create_import_op_def Let_def success keeps_def warehouse_inv_def split: if_split_asm)

section \<open>Every step\<close>

lemmas stock_keeps = createFlow_stock [THEN keeps_stock] markPaid_stock [THEN keeps_stock]
  cancelFlow_stock [THEN keeps_stock] setFx_stock [THEN keeps_stock] statement_stock [THEN keeps_stock]

lemmas op_keeps = applyAction_keeps unbindVin_keeps setVin_keeps create_unit_keeps setSalesStage_keeps
  cancelReserve_keeps reserve_unit_keeps sign_keeps markPaidImport_keeps recompute_keeps bulk_keeps
  cancelImport_keeps create_import_keeps stock_keeps

lemma run_glob_keeps: "run_glob oper db = Inr db' \<Longrightarrow> keeps db db'"
  using list_units_keeps
  by (cases oper) (auto simp: tables_Inr split: option.split_asm prod.split_asm dest: op_keeps)

lemma glob_step_keeps: "glob_step db db' \<Longrightarrow> keeps db db'"
  by (auto elim!: glob_stepE dest: run_glob_keeps)

end
