(* ===== verification/GlobSamples.thy ===== *)
theory GlobSamples
  imports GlobInv
begin

text \<open>
  A small contour on which the properties apply: one organisation, a machine on stock with a paid
  invoice, a draft contract for two machines, and a reserve.
\<close>

definition sample_env :: "nat \<Rightarrow> glob_env" where
  "sample_env k = \<lparr>ge_today = ''2026-03-01'', ge_currentDate = ''2026-03-01'', ge_date = Some,
     ge_newId = ''n'' @ num_str (int k), ge_ids = (\<lambda>j. ''n'' @ num_str (int k) @ ''-'' @ num_str (int j))\<rparr>"

definition sample_unit :: unit_row where
  "sample_unit = \<lparr>ut_id = ''u1'', ut_orgId = ''o'', ut_code = ''WH-0001'', ut_name = ''CPCD30'', ut_modelId = None,
     ut_year = Some 2025, ut_vin = Some ''HELI0001'', ut_status = ''IN_STOCK'', ut_salesStage = None,
     ut_lostReason = None, ut_salesPrice = Some 1000, ut_clientId = None, ut_contractId = None,
     ut_importContractId = None, ut_arrivalDate = None, ut_declarationType = None, ut_declarationNumber = None,
     ut_declarationDate = None, ut_transportCompany = None, ut_notes = None\<rparr>"

definition sample_flow :: flow_row where
  "sample_flow = \<lparr>mf_id = ''f1'', mf_orgId = Some ''o'', mf_direction = ''out'', mf_amount = 600, mf_currency = ''UZS'',
     mf_source = ''manual'', mf_extId = None, mf_purpose = None, mf_cashSymbol = None, mf_status = ''actual'',
     mf_category = Some ''supplier'', mf_method = None, mf_isOfficial = True, mf_rate = None, mf_amountUzs = None,
     mf_counterpartyId = None, mf_dueDate = None, mf_contractId = None, mf_importContractId = None, mf_unitId = Some ''u1''\<rparr>"

definition sample_contract :: import_row where
  "sample_contract = \<lparr>ic_id = ''c1'', ic_orgId = ''o'', ic_domain = ''globerent'', ic_contractNo = ''HELI-7'',
     ic_contractDate = ''2026-02-01'', ic_supplierId = None, ic_currency = ''UZS'', ic_totalAmount = 900,
     ic_items = [\<lparr>it_modelId = None, it_name = ''CPCD30'', it_qty = 2, it_price = 450\<rparr>],
     ic_purpose = ''for_stock'', ic_saleContractId = None, ic_status = ''draft'', ic_lifecycleStatus = LcDraft,
     ic_prepaymentAmount = Some 300, ic_prepaymentDueDate = None, ic_prepaymentPaid = False,
     ic_balanceAmount = Some 600, ic_balanceDueDate = None, ic_balancePaid = False\<rparr>"

definition sample_glob :: glob_db where
  "sample_glob = \<lparr>gb_orgs = [(''globerent'', ''o'')], gb_units = [sample_unit], gb_reserves = [], gb_imports = [sample_contract],
     gb_sales = [], gb_acts = [], gb_flows = [sample_flow], gb_fx = [], gb_entities = [],
     gb_config = [''GR_COMMISSION_METHOD'' \<mapsto> ''margin_rate''], gb_audit = [], gb_events = []\<rparr>"

definition no_extra :: stage_extra where
  "no_extra = \<lparr>sx_lostReason = None, sx_salesPrice = None, sx_clientId = None\<rparr>"

lemma sample_amounts:
  "to_double 1000 = Fin 1000" "to_double 600 = Fin 600" "to_double 400 = Fin 400" "to_double 3200 = Fin 3200"
  "to_double 60000 = Fin 60000" "to_double 32 = Fin 32" "to_double 8 = Fin 8"
  by (simp_all add: to_double_numeral)

lemma sample_round: "js_round (Fin (numeral w)) = Fin (numeral w)"
  using js_round_whole [of "numeral w"] by simp

lemma sample_column: "numeric_18_2 (printed 32) = Some 32"
  using printed_whole [of 32] numeric_18_2_whole [of 32] by simp

lemma sample_rate: "js_number ''8'' = Fin 8"
  by code_simp

lemma sample_cost: "cogsBreakdown [\<lparr>cg_category = Some ''supplier'', cg_uzs = Some (Fin 600)\<rparr>]
  = \<lparr>cb_supplier = Fin 600, cb_logistics = Fin 0, cb_customs = Fin 0, cb_other = Fin 0, cb_totalUzs = Fin 600, cb_unconverted = 0\<rparr>"
  using js_round_whole [of 0]
  by (simp add: cogsBreakdown_def cogs_step_def cogs_empty_def round2_def sample_amounts sample_round Let_def
      del: js_round.simps)

text \<open>The commission of the sale: eight percent of the margin of 400.\<close>

lemma sample_commission:
  assumes "find_unit db ''u1'' = Inr v" "ut_salesPrice v = Some 1000" "ut_id v = ''u1''"
    "cost_flows ''u1'' db = [sample_flow]" "gb_config db = [''GR_COMMISSION_METHOD'' \<mapsto> ''margin_rate'']"
  shows "commission_of v db = Inr \<lparr>cn_method = MarginRate, cn_commission = Fin 32, cn_note = None\<rparr>"
proof -
  have "unit_cost ''u1'' db = Inr \<lparr>uc_breakdown = cogsBreakdown [\<lparr>cg_category = Some ''supplier'', cg_uzs = Some (Fin 600)\<rparr>],
      uc_salesPrice = Some (Fin 1000), uc_margin = Some (fst (unitMargin (Fin 1000) (Fin 600))),
      uc_marginPct = snd (unitMargin (Fin 1000) (Fin 600))\<rparr>"
    using assms by (simp add: unit_cost_def flow_cogs_row_def sample_flow_def sample_amounts sample_cost)
  then show ?thesis
    using assms
    by (simp add: commission_of_def commission_figures_def commission_method_of_def COMMISSION_METHODS_def sample_rate
        sample_cost sample_amounts computeCommission_def commissionMarginRate_def js_sub_def js_leq_def js_finite_def
        sample_round Let_def del: js_round.simps)
qed

end
