(* ===== verification/GlobRefine.thy ===== *)
theory GlobRefine
  imports GlobInv
begin

text \<open>
  The abstract view of the warehouse and its refinement.  A fleet maps a unit to its status; units
  arrive in a start status and move along the edges of the machine, one at a time.  Every operation of
  the three services, bulk actions and signing included, is a sequence of such steps.  The same follows
  for single rows from the interpretation of the keyed history.
\<close>

section \<open>The fleet\<close>

definition fleet :: "glob_db \<Rightarrow> string \<rightharpoonup> string" where
  "fleet db = map_of (map (\<lambda>u. (ut_id u, ut_status u)) (gb_units db))"

inductive fleet_step :: "(string \<rightharpoonup> string) \<Rightarrow> (string \<rightharpoonup> string) \<Rightarrow> bool" where
  arrive: "m i = None \<Longrightarrow> s \<in> set UNIT_START \<Longrightarrow> fleet_step m (m(i \<mapsto> s))"
| move: "m i = Some s \<Longrightarrow> unit_edge s s' \<Longrightarrow> fleet_step m (m(i \<mapsto> s'))"

lemma fleet_moves:
  assumes "unit_edge\<^sup>*\<^sup>* s s'" "m i = Some s"
  shows "fleet_step\<^sup>*\<^sup>* m (m(i \<mapsto> s'))"
  using assms(1)
proof (induction rule: rtranclp_induct)
  case base
  then show ?case using assms(2) by (simp add: map_upd_triv)
next
  case (step y z)
  have "fleet_step (m(i \<mapsto> y)) (m(i \<mapsto> y, i \<mapsto> z))" using step.hyps(2) by (intro fleet_step.move) simp_all
  then have "fleet_step (m(i \<mapsto> y)) (m(i \<mapsto> z))" by (simp only: fun_upd_upd)
  with step.IH show ?case by (rule rtranclp.rtrancl_into_rtrancl [of fleet_step])
qed

lemma fleet_arrives:
  assumes "unit_edge\<^sup>*\<^sup>* s s'" "m i = None" "s \<in> set UNIT_START"
  shows "fleet_step\<^sup>*\<^sup>* m (m(i \<mapsto> s'))"
proof -
  have "fleet_step m (m(i \<mapsto> s))" using assms(2,3) by (rule fleet_step.arrive)
  also have "fleet_step\<^sup>*\<^sup>* (m(i \<mapsto> s)) (m(i \<mapsto> s, i \<mapsto> s'))" using assms(1) by (intro fleet_moves) simp_all
  finally (converse_rtranclp_into_rtranclp) show ?thesis by simp
qed

text \<open>What brings one row of the new table into the fleet.\<close>

definition reachable_in :: "(string \<rightharpoonup> string) \<Rightarrow> unit_row \<Rightarrow> bool" where
  "reachable_in m v \<longleftrightarrow> (\<exists>s. unit_edge\<^sup>*\<^sup>* s (ut_status v)
     \<and> (m (ut_id v) = Some s \<or> m (ut_id v) = None \<and> s \<in> set UNIT_START))"

lemma fleet_rows:
  assumes "distinct (map ut_id vs)" "\<forall>v \<in> set vs. reachable_in m v"
  shows "fleet_step\<^sup>*\<^sup>* m (m ++ map_of (map (\<lambda>u. (ut_id u, ut_status u)) vs))"
  using assms
proof (induction vs)
  case Nil
  then show ?case by simp
next
  case (Cons v vs)
  let ?m = "m ++ map_of (map (\<lambda>u. (ut_id u, ut_status u)) vs)"
  have old: "?m (ut_id v) = m (ut_id v)"
    using Cons.prems(1) by (auto simp: map_add_def map_of_eq_None_iff split: option.split dest!: map_of_SomeD)
  obtain s where s: "unit_edge\<^sup>*\<^sup>* s (ut_status v)" "m (ut_id v) = Some s \<or> m (ut_id v) = None \<and> s \<in> set UNIT_START"
    using Cons.prems(2) by (auto simp: reachable_in_def)
  have "fleet_step\<^sup>*\<^sup>* ?m (?m(ut_id v \<mapsto> ut_status v))"
    using s(2) old fleet_moves [OF s(1), of ?m "ut_id v"] fleet_arrives [OF s(1), of ?m "ut_id v"] by auto
  moreover have "fleet_step\<^sup>*\<^sup>* m ?m" using Cons by simp
  ultimately have "fleet_step\<^sup>*\<^sup>* m (?m(ut_id v \<mapsto> ut_status v))" by (rule rtranclp_trans [rotated])
  then show ?case by (simp only: list.map map_of.simps fst_conv snd_conv map_add_upd)
qed

lemma map_add_covered: "dom m \<subseteq> dom n \<Longrightarrow> m ++ n = n"
  by (rule ext) (auto simp: map_add_def dom_def split: option.split)

lemma follow_fleet:
  assumes "distinct (map ut_id us)" "distinct (map ut_id us')" "units_follow us us'"
  shows "fleet_step\<^sup>*\<^sup>* (map_of (map (\<lambda>u. (ut_id u, ut_status u)) us)) (map_of (map (\<lambda>u. (ut_id u, ut_status u)) us'))"
proof -
  let ?m = "map_of (map (\<lambda>u. (ut_id u, ut_status u)) us)" and ?m' = "map_of (map (\<lambda>u. (ut_id u, ut_status u)) us')"
  obtain f new where us': "us' = map f us @ new" and f: "\<forall>u \<in> set us. follows u (f u)"
    and new: "\<forall>v \<in> set new. \<exists>w. ut_status w \<in> set UNIT_START \<and> follows w v"
    using assms(3) unfolding units_follow_def by blast
  have id: "ut_id (f u) = ut_id u" if "u \<in> set us" for u using f that by (simp add: follows_def)
  have at: "?m (ut_id u) = Some (ut_status u)" if "u \<in> set us" for u
    using assms(1) that by (intro map_of_is_SomeI) (auto simp: comp_def)
  have "reachable_in ?m (f u)" if "u \<in> set us" for u
    unfolding reachable_in_def using f at [OF that] id [OF that] that by (auto simp: follows_def)
  moreover have "reachable_in ?m v" if "v \<in> set new" for v
  proof -
    have "ut_id v \<notin> ut_id ` set us" using assms(2) id that unfolding us' by auto
    then have "?m (ut_id v) = None" by (auto simp: map_of_eq_None_iff)
    with new that show ?thesis unfolding reachable_in_def follows_def by blast
  qed
  ultimately have "fleet_step\<^sup>*\<^sup>* ?m (?m ++ ?m')" using assms(2) unfolding us' by (intro fleet_rows) auto
  moreover have "dom ?m \<subseteq> dom ?m'"
    using id by (auto simp: us' dom_map_of_conv_image_fst image_iff)
  then have "?m ++ ?m' = ?m'" by (rule map_add_covered)
  ultimately show ?thesis by simp
qed

section \<open>Rows of the warehouse\<close>

definition unit_mark :: "unit_row \<Rightarrow> string \<times> string \<times> string \<times> string" where
  "unit_mark u = (ut_id u, ut_orgId u, ut_code u, ut_status u)"

definition mark_evolves :: "string \<times> string \<times> string \<times> string \<Rightarrow> string \<times> string \<times> string \<times> string \<Rightarrow> bool" where
  "mark_evolves a b \<longleftrightarrow> (case (a, b) of ((i, org, c, s), (i', org', c', s')) \<Rightarrow>
     i' = i \<and> org' = org \<and> c' = c \<and> unit_edge\<^sup>*\<^sup>* s s')"

lemma mark_evolves_follows: "follows u v \<Longrightarrow> mark_evolves (unit_mark u) (unit_mark v)"
  by (simp add: follows_def mark_evolves_def unit_mark_def)

lemma archived_stuck: "\<not> unit_edge ''ARCHIVED'' s"
  by (auto elim!: unit_edgeE simp: UNIT_TRANSITIONS_def RESERVE_ALLOWED_def VIN_UNBIND_ALLOWED_def split: if_splits)

lemma archived_stays: "unit_edge\<^sup>*\<^sup>* ''ARCHIVED'' s \<Longrightarrow> s = ''ARCHIVED''"
  by (erule converse_rtranclpE) (auto simp: archived_stuck)

interpretation units: keyed_history "\<lambda>db. map unit_mark (gb_units db)" mark_evolves warehouse_inv glob_step
  fst "\<lambda>(i, org, c, s). s = ''ARCHIVED''"
proof unfold_locales
  show "mark_evolves r r" for r by (cases r) (simp add: mark_evolves_def)
  show "mark_evolves a b \<Longrightarrow> mark_evolves b c \<Longrightarrow> mark_evolves a c" for a b c
    by (auto simp: mark_evolves_def)
  show "glob_step s s' \<Longrightarrow> warehouse_inv s \<Longrightarrow> warehouse_inv s'" for s s'
    by (auto dest: glob_step_keeps simp: keeps_def)
  show "\<exists>r' \<in> set (map unit_mark (gb_units s')). mark_evolves r r'"
    if step: "glob_step s s'" and inv: "warehouse_inv s" and r: "r \<in> set (map unit_mark (gb_units s))" for s s' r
  proof -
    obtain u where u: "u \<in> set (gb_units s)" "r = unit_mark u" using r by auto
    have "units_follow (gb_units s) (gb_units s')" using glob_step_keeps [OF step] inv by (simp add: keeps_def)
    then obtain f new where "gb_units s' = map f (gb_units s) @ new" "follows u (f u)"
      using u(1) unfolding units_follow_def by blast
    with u show ?thesis by (auto intro: mark_evolves_follows)
  qed
  show "warehouse_inv s \<Longrightarrow> distinct (map fst (map unit_mark (gb_units s)))" for s
    by (simp add: warehouse_inv_def unit_keys_def unit_mark_def comp_def)
  show "mark_evolves r r' \<Longrightarrow> fst r' = fst r" for r r' by (auto simp: mark_evolves_def)
  show "mark_evolves r r' \<Longrightarrow> (case r of (i, org, c, s) \<Rightarrow> s = ''ARCHIVED'') \<Longrightarrow> r' = r" for r r'
    by (auto simp: mark_evolves_def dest: archived_stays)
qed

lemma glob_steps_fleet:
  assumes "glob_step\<^sup>*\<^sup>* db db'" "warehouse_inv db"
  shows "fleet_step\<^sup>*\<^sup>* (fleet db) (fleet db')"
  using assms(1)
proof (induction rule: rtranclp_induct)
  case base
  show ?case by simp
next
  case (step y z)
  have inv: "warehouse_inv y" using step.hyps(1) assms(2) by (rule units.steps_ok)
  then have "warehouse_inv z" "units_follow (gb_units y) (gb_units z)"
    using glob_step_keeps [OF step.hyps(2)] by (simp_all add: keeps_def)
  with inv have "fleet_step\<^sup>*\<^sup>* (fleet y) (fleet z)"
    unfolding fleet_def by (intro follow_fleet) (simp_all add: warehouse_inv_def unit_keys_def)
  with step.IH show ?case by simp
qed

end
