(* ===== verification/GlobMoney.thy ===== *)
theory GlobMoney
  imports GlobInv
begin

text \<open>
  The history of money flows: no operation of the contour removes a flow or rewrites its amount,
  currency, direction or source; its status moves from planned to actual and from either to
  cancelled, where it stays.
\<close>

section \<open>The history of a flow\<close>

inductive flow_edge :: "string \<Rightarrow> string \<Rightarrow> bool" where
  pay: "flow_edge ''planned'' ''actual''"
| drop: "s \<noteq> ''cancelled'' \<Longrightarrow> flow_edge s ''cancelled''"

inductive_cases flow_edgeE: "flow_edge s s'"

inductive_simps flow_edge_cancelled: "flow_edge ''cancelled'' s"

definition flow_evolves :: "flow_row \<Rightarrow> flow_row \<Rightarrow> bool" where
  "flow_evolves f g \<longleftrightarrow> mf_id g = mf_id f \<and> mf_direction g = mf_direction f \<and> mf_amount g = mf_amount f
     \<and> mf_currency g = mf_currency f \<and> mf_source g = mf_source f \<and> mf_extId g = mf_extId f
     \<and> flow_edge\<^sup>*\<^sup>* (mf_status f) (mf_status g)"

lemma flow_evolves_refl [simp]: "flow_evolves f f"
  by (simp add: flow_evolves_def)

lemma flow_evolves_trans: "flow_evolves f g \<Longrightarrow> flow_evolves g h \<Longrightarrow> flow_evolves f h"
  by (auto simp: flow_evolves_def)

text \<open>The primary key and the external ids.\<close>

definition ext_unique :: "flow_row list \<Rightarrow> bool" where
  "ext_unique fs \<longleftrightarrow> distinct (map (\<lambda>f. (mf_source f, mf_extId f)) (filter (\<lambda>f. mf_extId f \<noteq> None) fs))"

definition flows_ok :: "glob_db \<Rightarrow> bool" where
  "flows_ok db \<longleftrightarrow> distinct (map mf_id (gb_flows db)) \<and> ext_unique (gb_flows db)"

definition flows_grow :: "glob_db \<Rightarrow> glob_db \<Rightarrow> bool" where
  "flows_grow db db' \<longleftrightarrow> (flows_ok db \<longrightarrow> flows_ok db' \<and> grows flow_evolves (gb_flows db) (gb_flows db'))"

lemma flows_grow_same: "gb_flows db' = gb_flows db \<Longrightarrow> flows_grow db db'"
  by (simp add: flows_grow_def flows_ok_def grows_refl)

lemma flows_grow_trans: "flows_grow a b \<Longrightarrow> flows_grow b c \<Longrightarrow> flows_grow a c"
  using grows_trans [of flow_evolves] flow_evolves_trans unfolding flows_grow_def by blast

lemma ext_unique_map:
  assumes "\<And>f. mf_source (g f) = mf_source f \<and> mf_extId (g f) = mf_extId f"
  shows "ext_unique (map g fs) = ext_unique fs"
proof -
  have "map (\<lambda>f. (mf_source f, mf_extId f)) (filter (\<lambda>f. mf_extId f \<noteq> None) (map g fs))
      = map (\<lambda>f. (mf_source f, mf_extId f)) (filter (\<lambda>f. mf_extId f \<noteq> None) fs)"
    using assms by (induction fs) simp_all
  then show ?thesis by (simp only: ext_unique_def)
qed

lemma flows_grow_update:
  assumes "gb_flows db' = map (\<lambda>x. if R x then h x else x) (gb_flows db)"
    "\<And>x. mf_id (h x) = mf_id x \<and> mf_source (h x) = mf_source x \<and> mf_extId (h x) = mf_extId x"
    "\<And>x. x \<in> set (gb_flows db) \<Longrightarrow> flows_ok db \<Longrightarrow> R x \<Longrightarrow> flow_evolves x (h x)"
  shows "flows_grow db db'"
  unfolding flows_grow_def
proof
  assume ok: "flows_ok db"
  have "map mf_id (gb_flows db') = map mf_id (gb_flows db)" using assms(1,2) by simp
  moreover have "ext_unique (gb_flows db') = ext_unique (gb_flows db)"
    unfolding assms(1) using assms(2) by (intro ext_unique_map) simp
  ultimately have "flows_ok db'" using ok by (simp add: flows_ok_def)
  moreover have "grows flow_evolves (gb_flows db) (gb_flows db')"
    unfolding assms(1) using assms(3) ok by (intro grows_map) auto
  ultimately show "flows_ok db' \<and> grows flow_evolves (gb_flows db) (gb_flows db')" by simp
qed

lemma insert_flow_grows: "insert_flow f db = Inr db' \<Longrightarrow> flows_grow db db'"
proof -
  assume ins: "insert_flow f db = Inr db'"
  then have id: "mf_id f \<notin> mf_id ` set (gb_flows db)" and ext: "ext_free db (mf_source f) (mf_extId f)"
    and db': "gb_flows db' = gb_flows db @ [f]"
    by (auto simp: insert_flow_def split: if_split_asm)
  have "(mf_source f, mf_extId f) \<noteq> (mf_source g, mf_extId g)" if "g \<in> set (gb_flows db)" "mf_extId f \<noteq> None" for g
    using ext that by (cases "mf_extId f") (auto simp: ext_free_def find_ext_def find_None_iff)
  then have "ext_unique (gb_flows db) \<Longrightarrow> ext_unique (gb_flows db')"
    by (auto simp: ext_unique_def db')
  then show ?thesis
    using id by (auto simp: flows_grow_def flows_ok_def db' intro: grows_append)
qed

lemma writeFlow_grows: "writeFlow env i input p db = Inr (db', f) \<Longrightarrow> flows_grow db db'"
  by (auto simp: writeFlow_def Let_def success flows_grow_def flows_ok_def dest!: insert_flow_grows)

lemma createFlow_grows: "createFlow env i input db = Inr (db', f) \<Longrightarrow> flows_grow db db'"
proof -
  assume c: "createFlow env i input db = Inr (db', f)"
  then obtain p where p: "prepareFlow input db = Inr p" by (auto simp: createFlow_def success)
  with c show ?thesis by (cases p) (auto simp: createFlow_def intro: flows_grow_same writeFlow_grows)
qed

lemma flow_of_id:
  "flows_ok db \<Longrightarrow> find_flow db i = Inr row \<Longrightarrow> x \<in> set (gb_flows db) \<Longrightarrow> mf_id x = i \<Longrightarrow> x = row"
  by (auto simp: find_flow_def find_Some_iff flows_ok_def distinct_map inj_on_def split: option.split_asm)

lemma markPaid_Inr:
  "markPaid i r db = Inr (db', v) \<Longrightarrow>
    \<exists>row rate uzs. find_flow db i = Inr row \<and> mf_status row = ''planned''
      \<and> v = row\<lparr>mf_status := ''actual'', mf_rate := rate, mf_amountUzs := uzs\<rparr>
      \<and> db' = audit ''finance.flow_paid'' i (update_flows (\<lambda>x. mf_id x = i)
          (\<lambda>x. x\<lparr>mf_status := ''actual'', mf_rate := rate, mf_amountUzs := uzs\<rparr>) db)"
  by (auto simp: markPaid_def Let_def success)

lemma markPaid_grows:
  assumes "markPaid i r db = Inr (db', v)"
  shows "flows_grow db db'"
proof -
  from markPaid_Inr [OF assms] obtain row rate uzs where row: "find_flow db i = Inr row" "mf_status row = ''planned''"
    and db': "db' = audit ''finance.flow_paid'' i (update_flows (\<lambda>x. mf_id x = i)
          (\<lambda>x. x\<lparr>mf_status := ''actual'', mf_rate := rate, mf_amountUzs := uzs\<rparr>) db)"
    by blast
  have "flow_edge (mf_status x) ''actual''" if "x \<in> set (gb_flows db)" "flows_ok db" "mf_id x = i" for x
    using flow_of_id [OF that(2) row(1) that(1,3)] row(2) by (simp add: flow_edge.pay)
  then show ?thesis
    by (intro flows_grow_update [where R = "\<lambda>x. mf_id x = i"
          and h = "\<lambda>x. x\<lparr>mf_status := ''actual'', mf_rate := rate, mf_amountUzs := uzs\<rparr>"])
      (auto simp: db' flow_evolves_def)
qed

lemma cancelFlow_Inr:
  "cancelFlow i db = Inr (db', v) \<Longrightarrow>
    \<exists>row. find_flow db i = Inr row \<and> mf_status row \<noteq> ''cancelled'' \<and> v = row\<lparr>mf_status := ''cancelled''\<rparr>
      \<and> db' = audit ''finance.flow_cancelled'' i (update_flows (\<lambda>x. mf_id x = i) (\<lambda>x. x\<lparr>mf_status := ''cancelled''\<rparr>) db)"
  by (auto simp: cancelFlow_def Let_def success)

lemma cancelFlow_grows:
  assumes "cancelFlow i db = Inr (db', v)"
  shows "flows_grow db db'"
proof -
  from cancelFlow_Inr [OF assms] obtain row where row: "find_flow db i = Inr row" "mf_status row \<noteq> ''cancelled''"
    and db': "db' = audit ''finance.flow_cancelled'' i (update_flows (\<lambda>x. mf_id x = i) (\<lambda>x. x\<lparr>mf_status := ''cancelled''\<rparr>) db)"
    by blast
  have "flow_edge (mf_status x) ''cancelled''" if "x \<in> set (gb_flows db)" "flows_ok db" "mf_id x = i" for x
    using flow_of_id [OF that(2) row(1) that(1,3)] row(2) by (simp add: flow_edge.drop)
  then show ?thesis
    by (intro flows_grow_update [where R = "\<lambda>x. mf_id x = i" and h = "\<lambda>x. x\<lparr>mf_status := ''cancelled''\<rparr>"])
      (auto simp: db' flow_evolves_def)
qed

lemma statement_step_grows: "flows_grow (fst acc) (fst (statement_step env dry n item acc))"
  by (cases acc) (auto simp: statement_step_def Let_def intro: flows_grow_same writeFlow_grows
      split: option.split sum.split prep.split prod.split)

lemma statement_rows_grows: "flows_grow (fst acc) (fst (statement_rows env dry n items acc))"
proof (induction items arbitrary: n acc)
  case Nil
  then show ?case by (simp add: flows_grow_same)
next
  case (Cons i items)
  from flows_grow_trans [OF statement_step_grows Cons.IH] show ?case by simp
qed

lemma statement_grows: "importBankStatement env dry items db = Some (db', rep) \<Longrightarrow> flows_grow db db'"
  using statement_rows_grows [of "(db, \<lparr>sr_created = 0, sr_skippedRepeat = 0, sr_rejected = []\<rparr>)" env dry 0 items]
  by (auto simp: importBankStatement_def split: if_split_asm)

lemma accrue_grows: "accrueCommission env u db = Inr db' \<Longrightarrow> flows_grow db db'"
  by (auto simp: accrueCommission_def success flows_grow_def flows_ok_def grows_refl dest!: insert_flow_grows
      split: if_split_asm option.split_asm)

lemma setSalesStage_grows:
  assumes "setSalesStage env i st x db = Inr (db', v)"
  shows "flows_grow db db'"
proof -
  from setSalesStage_Inr [OF assms] obtain price db1
    where "db1 = audit ''unit.sales_stage'' i (update_units (\<lambda>v. ut_id v = i) (staged st x price) db)"
    and "db' = db1 \<or> accrueCommission env v db1 = Inr db' \<or> db' = record_event (CommissionFailed i None) db1"
    by blast
  then have "flows_grow db db1" "flows_grow db1 db'" by (auto intro: flows_grow_same accrue_grows)
  then show ?thesis by (rule flows_grow_trans)
qed

lemma mk_plan_grows: "mk_plan env i c label a due db = Inr db' \<Longrightarrow> flows_grow db db'"
proof (cases "db' = db")
  case False
  assume "mk_plan env i c label a due db = Inr db'"
  with False obtain input db1 f where "createFlow env i input db = Inr (db1, f)"
    and db': "db' = update_flows (\<lambda>g. mf_id g = mf_id f) (\<lambda>g. g\<lparr>mf_importContractId := Some (ic_id c)\<rparr>) db1"
    by (auto simp: mk_plan_def success split: option.split_asm if_split_asm)
  then have "flows_grow db db1" by (blast intro: createFlow_grows)
  moreover have "flows_grow db1 db'"
    by (intro flows_grow_update [where R = "\<lambda>g. mf_id g = mf_id f" and h = "\<lambda>g. g\<lparr>mf_importContractId := Some (ic_id c)\<rparr>"])
      (auto simp: db' flow_evolves_def)
  ultimately show ?thesis by (rule flows_grow_trans)
qed (simp add: flows_grow_same)

lemma plan_grows: "createPaymentPlan env k c db = Inr db' \<Longrightarrow> flows_grow db db'"
  unfolding createPaymentPlan_def by (auto simp: success intro: flows_grow_trans dest!: mk_plan_grows)

lemma sign_grows:
  assumes "sign env i db = Inr db'"
  shows "flows_grow db db'"
proof -
  from sign_Inr [OF assms] obtain k c db1 db2 where m: "materialize env i c (update_import i k db) = Inr db1"
    and p: "createPaymentPlan env (length (pieces (ic_items c))) c db1 = Inr db2"
    and db': "gb_flows db' = gb_flows db2"
    by auto
  have "flows_grow db db1" using materialize_Inr [OF m] by (auto intro: flows_grow_same)
  moreover have "flows_grow db1 db2" using p by (rule plan_grows)
  moreover have "flows_grow db2 db'" using db' by (rule flows_grow_same)
  ultimately show ?thesis by (blast intro: flows_grow_trans)
qed

lemma markPaidImport_grows: "markPaidImport i kind db = Inr db' \<Longrightarrow> flows_grow db db'"
proof -
  assume "markPaidImport i kind db = Inr db'"
  then obtain db1 where c: "close_planned i kind (update_import i (set_paid kind) db) = Inr db1"
    and db': "gb_flows db' = gb_flows db1"
    by (auto simp: markPaidImport_def success)
  have "flows_grow db (update_import i (set_paid kind) db)" by (rule flows_grow_same) simp
  moreover have "flows_grow (update_import i (set_paid kind) db) db1"
    using c by (auto simp: close_planned_def success intro: flows_grow_same markPaid_grows split: option.split_asm)
  moreover have "flows_grow db1 db'" using db' by (rule flows_grow_same)
  ultimately show ?thesis by (blast intro: flows_grow_trans)
qed

text \<open>The operations that only touch units, reserves, contracts or rates.\<close>

lemma quiet_flows:
  "gb_flows (fst (list_units env dm key db)) = gb_flows db"
  "applyAction env i a x db = Inr (db', u) \<Longrightarrow> gb_flows db' = gb_flows db"
  "unbindVin i db = Inr (db', u) \<Longrightarrow> gb_flows db' = gb_flows db"
  "setVin i vin db = Inr (db', u) \<Longrightarrow> gb_flows db' = gb_flows db"
  "create_unit_op env cu db = Inr (db', u) \<Longrightarrow> gb_flows db' = gb_flows db"
  "reserve_unit env i d cl note db = Inr (db', r) \<Longrightarrow> gb_flows db' = gb_flows db"
  "cancelReserve i db = Inr (db', u) \<Longrightarrow> gb_flows db' = gb_flows db"
  "setFx c rate db = Inr (db', fx) \<Longrightarrow> gb_flows db' = gb_flows db"
  "create_import_op env ci db = Inr (db', ic) \<Longrightarrow> gb_flows db' = gb_flows db"
  "recomputeLifecycle i db = Inr (db', lc) \<Longrightarrow> gb_flows db' = gb_flows db"
  "cancelImport i db = Inr db' \<Longrightarrow> gb_flows db' = gb_flows db"
  subgoal by (simp add: list_units_def expireReserves_def Let_def split: sum.split option.split)
  subgoal by (auto dest!: applyAction_Inr)
  subgoal by (auto simp: unbindVin_Inr)
  subgoal by (auto simp: setVin_Inr)
  subgoal by (auto dest!: create_unit_Inr)
  subgoal by (auto dest!: reserve_unit_Inr)
  subgoal by (auto dest!: cancelReserve_Inr)
  subgoal by (auto simp: setFx_def Let_def success)
  subgoal by (auto simp: create_import_op_def Let_def success split: if_split_asm)
  subgoal by (auto simp: recomputeLifecycle_def success split: option.split_asm)
  subgoal by (auto simp: cancelImport_def Let_def success)
  done

lemma bulk_flows: "bulkUnitAction env i a x db = Inr (db', m, k, lc) \<Longrightarrow> gb_flows db' = gb_flows db"
  by (auto dest!: bulk_Inr quiet_flows(10))

lemmas flow_ops = quiet_flows(2-) [THEN flows_grow_same] bulk_flows [THEN flows_grow_same] createFlow_grows
  markPaid_grows cancelFlow_grows statement_grows setSalesStage_grows sign_grows markPaidImport_grows

lemma run_glob_flows: "run_glob oper db = Inr db' \<Longrightarrow> flows_grow db db'"
  using flows_grow_same [OF quiet_flows(1)]
  by (cases oper) (auto simp: tables_Inr split: option.split_asm prod.split_asm dest: flow_ops)

interpretation flows: keyed_history gb_flows flow_evolves flows_ok glob_step mf_id "\<lambda>_. False"
proof unfold_locales
  show "glob_step s s' \<Longrightarrow> flows_ok s \<Longrightarrow> flows_ok s'" for s s'
    by (auto elim!: glob_stepE dest: run_glob_flows simp: flows_grow_def)
  show "glob_step s s' \<Longrightarrow> flows_ok s \<Longrightarrow> r \<in> set (gb_flows s) \<Longrightarrow> \<exists>r' \<in> set (gb_flows s'). flow_evolves r r'" for s s' r
    by (auto elim!: glob_stepE dest!: run_glob_flows simp: flows_grow_def intro: grows_mem)
qed (auto simp: flows_ok_def flow_evolves_def)

end
