(* ===== verification/GlobContracts.thy ===== *)
theory GlobContracts
  imports GlobInv
begin

text \<open>
  The history of import contracts: the specification and the sum of a contract never change, its
  status moves from draft to in progress and from either to cancelled, and its life cycle only rises
  in the order of the phases, until it is cancelled.
\<close>

section \<open>The history of a contract\<close>

inductive contract_edge :: "string \<Rightarrow> string \<Rightarrow> bool" where
  signed: "contract_edge ''draft'' ''in_progress''"
| dropped: "s \<noteq> ''cancelled'' \<Longrightarrow> contract_edge s ''cancelled''"

inductive_simps contract_edge_cancelled: "contract_edge ''cancelled'' s"

definition phase_rises :: "import_lifecycle \<Rightarrow> import_lifecycle \<Rightarrow> bool" where
  "phase_rises a b \<longleftrightarrow> b = LcCancelled \<or> a \<noteq> LcCancelled \<and> a \<le> b"

definition same_contract :: "import_row \<Rightarrow> import_row \<Rightarrow> bool" where
  "same_contract c d \<longleftrightarrow> ic_id d = ic_id c \<and> ic_orgId d = ic_orgId c \<and> ic_contractNo d = ic_contractNo c
     \<and> ic_currency d = ic_currency c \<and> ic_totalAmount d = ic_totalAmount c \<and> ic_items d = ic_items c
     \<and> (ic_prepaymentPaid c \<longrightarrow> ic_prepaymentPaid d) \<and> (ic_balancePaid c \<longrightarrow> ic_balancePaid d)"

definition contract_evolves :: "import_row \<Rightarrow> import_row \<Rightarrow> bool" where
  "contract_evolves c d \<longleftrightarrow> same_contract c d \<and> contract_edge\<^sup>*\<^sup>* (ic_status c) (ic_status d)
     \<and> phase_rises (ic_lifecycleStatus c) (ic_lifecycleStatus d)"

lemma phase_rises_refl [simp]: "phase_rises a a"
  by (auto simp: phase_rises_def)

lemma contract_evolves_refl [simp]: "contract_evolves c c"
  by (simp add: contract_evolves_def same_contract_def)

lemma contract_evolves_trans: "contract_evolves c d \<Longrightarrow> contract_evolves d e \<Longrightarrow> contract_evolves c e"
  by (auto simp: contract_evolves_def same_contract_def phase_rises_def)

lemma cancelled_stays: "contract_edge\<^sup>*\<^sup>* ''cancelled'' s \<Longrightarrow> s = ''cancelled''"
  by (erule converse_rtranclpE) (auto simp: contract_edge_cancelled)

section \<open>The invariant\<close>

definition links :: "glob_db \<Rightarrow> string option set" where
  "links db = ut_importContractId ` set (gb_units db)"

definition contract_ok :: "string option set \<Rightarrow> import_row \<Rightarrow> bool" where
  "contract_ok ls c \<longleftrightarrow> (ic_status c = ''draft'' \<longrightarrow> ic_lifecycleStatus c = LcDraft \<and> Some (ic_id c) \<notin> ls)
     \<and> (ic_status c = ''cancelled'' \<longleftrightarrow> ic_lifecycleStatus c = LcCancelled)"

definition contracts_ok :: "glob_db \<Rightarrow> bool" where
  "contracts_ok db \<longleftrightarrow> distinct (map ic_id (gb_imports db)) \<and> links db \<subseteq> insert None (Some ` ic_id ` set (gb_imports db))
     \<and> (\<forall>c \<in> set (gb_imports db). contract_ok (links db) c)"

definition contracts_grow :: "glob_db \<Rightarrow> glob_db \<Rightarrow> bool" where
  "contracts_grow db db' \<longleftrightarrow> (contracts_ok db \<longrightarrow> contracts_ok db' \<and> grows contract_evolves (gb_imports db) (gb_imports db'))"

lemma contracts_grow_trans: "contracts_grow a b \<Longrightarrow> contracts_grow b c \<Longrightarrow> contracts_grow a c"
  using grows_trans [of contract_evolves] contract_evolves_trans unfolding contracts_grow_def by blast

lemma contracts_grow_same:
  "gb_imports db' = gb_imports db \<Longrightarrow> links db' \<subseteq> insert None (links db) \<Longrightarrow> contracts_grow db db'"
  unfolding contracts_grow_def contracts_ok_def contract_ok_def
  by (auto intro!: grows_refl)

lemma contracts_grow_stock: "same_stock db db' \<Longrightarrow> contracts_grow db db'"
  by (rule contracts_grow_same) (auto simp: same_stock_def links_def)

lemma links_map: "map ut_importContractId (gb_units db') = map ut_importContractId (gb_units db) \<Longrightarrow> links db' = links db"
  unfolding links_def by (metis set_map)

lemma contracts_grow_map:
  "gb_imports db' = gb_imports db \<Longrightarrow> map ut_importContractId (gb_units db') = map ut_importContractId (gb_units db) \<Longrightarrow>
    contracts_grow db db'"
  using links_map by (auto intro: contracts_grow_same)

lemma contract_of_id:
  "contracts_ok db \<Longrightarrow> find_import db i = Inr c \<Longrightarrow> d \<in> set (gb_imports db) \<Longrightarrow> ic_id d = i \<Longrightarrow> d = c"
  by (auto simp: find_import_def find_Some_iff contracts_ok_def distinct_map inj_on_def split: option.split_asm)

lemma find_import_Inr: "find_import db i = Inr c \<Longrightarrow> c \<in> set (gb_imports db) \<and> ic_id c = i"
  by (auto simp: find_import_def find_Some_iff split: option.split_asm)

text \<open>An update of one contract, with units linked to it on the way.\<close>

lemma contracts_grow_update:
  assumes "find_import db i = Inr c" "gb_imports db' = map (\<lambda>d. if ic_id d = i then k d else d) (gb_imports db)"
    "links db' \<subseteq> insert (Some i) (links db)"
    "contracts_ok db \<Longrightarrow> contract_ok (links db) c \<Longrightarrow> contract_evolves c (k c) \<and> contract_ok (links db') (k c)"
  shows "contracts_grow db db'"
  unfolding contracts_grow_def
proof
  assume ok: "contracts_ok db"
  have c: "c \<in> set (gb_imports db)" "ic_id c = i" using find_import_Inr [OF assms(1)] by auto
  have k: "contract_evolves c (k c)" "contract_ok (links db') (k c)"
    using assms(4) [OF ok] ok c(1) by (auto simp: contracts_ok_def)
  have one: "d = c" if "d \<in> set (gb_imports db)" "ic_id d = i" for d
    using contract_of_id [OF ok assms(1) that] .
  have id: "map ic_id (gb_imports db') = map ic_id (gb_imports db)"
    using k(1) c(2) one by (auto simp: assms(2) contract_evolves_def same_contract_def)
  have "contract_ok (links db') d" if "d \<in> set (gb_imports db)" "ic_id d \<noteq> i" for d
    using ok that assms(3) by (auto simp: contracts_ok_def contract_ok_def)
  then have "contract_ok (links db') d" if "d \<in> set (gb_imports db')" for d
    using that k(2) one by (auto simp: assms(2) split: if_splits)
  moreover have "links db' \<subseteq> insert None (Some ` ic_id ` set (gb_imports db'))"
    using ok assms(3) c arg_cong [OF id, of set] by (auto simp: contracts_ok_def)
  moreover have "grows contract_evolves (gb_imports db) (gb_imports db')"
    unfolding assms(2) using k(1) one by (intro grows_map) auto
  ultimately show "contracts_ok db' \<and> grows contract_evolves (gb_imports db) (gb_imports db')"
    using ok id by (simp add: contracts_ok_def)
qed

section \<open>The operations on contracts\<close>

lemma target_not_cancelled: "monotonicLifecycleStep a t = Some s \<Longrightarrow> s \<noteq> LcCancelled \<and> a \<noteq> LcCancelled \<and> a \<le> s"
  using step_increases [of a t s] step_frozen [of a t]
  by (auto simp: less_import_lifecycle_def less_eq_import_lifecycle_def) (cases a; simp)

lemma no_units_no_target: "Some i \<notin> links db \<Longrightarrow> lifecycle_target i db = None"
proof -
  assume "Some i \<notin> links db"
  then have "contract_units i db = []" 
    by (auto simp: contract_units_def filter_empty_conv) (metis image_eqI links_def)
  then show ?thesis by (simp add: lifecycle_target_def lifecycleFromUnits_def Let_def)
qed

lemma recompute_Inr:
  "recomputeLifecycle i db = Inr (db', lc) \<Longrightarrow> \<exists>c. find_import db i = Inr c
    \<and> (monotonicLifecycleStep (ic_lifecycleStatus c) (lifecycle_target i db) = None \<and> db' = db \<and> lc = ic_lifecycleStatus c
       \<or> monotonicLifecycleStep (ic_lifecycleStatus c) (lifecycle_target i db) = Some lc
         \<and> db' = record_event (LifecycleMoved i (ic_lifecycleStatus c) lc)
             (update_import i (\<lambda>c. c\<lparr>ic_lifecycleStatus := lc\<rparr>) db))"
  by (auto simp: recomputeLifecycle_def success split: option.split_asm)

lemma recompute_contracts:
  assumes "recomputeLifecycle i db = Inr (db', lc)"
  shows "contracts_grow db db'"
proof -
  from recompute_Inr [OF assms] obtain c where c: "find_import db i = Inr c"
    and out: "db' = db \<or> monotonicLifecycleStep (ic_lifecycleStatus c) (lifecycle_target i db) = Some lc
         \<and> db' = record_event (LifecycleMoved i (ic_lifecycleStatus c) lc)
             (update_import i (\<lambda>c. c\<lparr>ic_lifecycleStatus := lc\<rparr>) db)"
    by blast
  from out show ?thesis
  proof
    assume "db' = db"
    then show ?thesis by (auto intro: contracts_grow_same)
  next
    assume s: "monotonicLifecycleStep (ic_lifecycleStatus c) (lifecycle_target i db) = Some lc
         \<and> db' = record_event (LifecycleMoved i (ic_lifecycleStatus c) lc)
             (update_import i (\<lambda>c. c\<lparr>ic_lifecycleStatus := lc\<rparr>) db)"
    have l: "lc \<noteq> LcCancelled" "ic_lifecycleStatus c \<noteq> LcCancelled" "ic_lifecycleStatus c \<le> lc"
      using target_not_cancelled s by blast+
    have "Some i \<in> links db"
    proof (rule ccontr)
      assume "Some i \<notin> links db"
      from no_units_no_target [OF this] s show False by (simp add: monotonicLifecycleStep_def)
    qed
    then have "contract_ok (links db) c \<Longrightarrow> contract_evolves c (c\<lparr>ic_lifecycleStatus := lc\<rparr>)
        \<and> contract_ok (links db') (c\<lparr>ic_lifecycleStatus := lc\<rparr>)"
      using l find_import_Inr [OF c]
      by (auto simp: contract_ok_def contract_evolves_def same_contract_def phase_rises_def)
    then show ?thesis
      using s by (intro contracts_grow_update [OF c, where k = "\<lambda>c. c\<lparr>ic_lifecycleStatus := lc\<rparr>"]) (auto simp: links_def)
  qed
qed

lemma set_paid_evolves:
  assumes "contract_ok ls c"
  shows "contract_evolves c (set_paid kind c) \<and> contract_ok ls (set_paid kind c)"
  using assms
  by (auto simp: set_paid_def contract_ok_def contract_evolves_def same_contract_def phase_rises_def less_eq_import_lifecycle_def)

lemma markPaidImport_contracts:
  assumes "markPaidImport i kind db = Inr db'"
  shows "contracts_grow db db'"
proof -
  from assms obtain c db1 where c: "find_import db i = Inr c"
    and close: "close_planned i kind (update_import i (set_paid kind) db) = Inr db1" and s: "same_stock db1 db'"
    by (auto simp: markPaidImport_def success same_stock_def)
  have "contracts_grow db (update_import i (set_paid kind) db)"
    using set_paid_evolves by (intro contracts_grow_update [OF c, where k = "set_paid kind"]) (auto simp: links_def)
  with close_planned_stock [OF close] s show ?thesis by (blast intro: contracts_grow_trans contracts_grow_stock)
qed

lemma cancelImport_contracts:
  assumes "cancelImport i db = Inr db'"
  shows "contracts_grow db db'"
proof -
  from assms obtain c where c: "find_import db i = Inr c" "ic_status c \<noteq> ''cancelled''"
    and db': "db' = audit ''import.cancelled'' i
        (update_import i (\<lambda>c. c\<lparr>ic_status := ''cancelled'', ic_lifecycleStatus := LcCancelled\<rparr>) db)"
    by (auto simp: cancelImport_def Let_def success)
  show ?thesis
    by (rule contracts_grow_update [OF c(1), where k = "\<lambda>c. c\<lparr>ic_status := ''cancelled'', ic_lifecycleStatus := LcCancelled\<rparr>"])
      (auto simp: db' links_def contract_ok_def contract_evolves_def same_contract_def phase_rises_def
        intro!: r_into_rtranclp contract_edge.dropped c(2))
qed

lemma materialized_link: "u \<in> set (materialized env c n) \<Longrightarrow> ut_importContractId u = Some (ic_id c)"
  by (auto simp: materialized_def contract_unit_def)

lemma sign_contracts:
  assumes "sign env i db = Inr db'"
  shows "contracts_grow db db'"
proof -
  let ?k = "\<lambda>c. c\<lparr>ic_status := ''in_progress'', ic_lifecycleStatus := LcSigned\<rparr>"
  from sign_Inr [OF assms] obtain c db1 db2 where c: "find_import db i = Inr c" "ic_status c = ''draft''"
    and m: "materialize env i c (update_import i ?k db) = Inr db1"
    and p: "createPaymentPlan env (length (pieces (ic_items c))) c db1 = Inr db2"
    and db': "db' = record_event (ImportSigned i) (audit ''import.signed'' i db2)"
    by blast
  have id: "ic_id c = i" using find_import_Inr [OF c(1)] by simp
  have rows: "gb_imports db1 = map (\<lambda>d. if ic_id d = i then ?k d else d) (gb_imports db)"
    using materialize_Inr [OF m] by auto
  have "links db1 \<subseteq> insert (Some i) (links db)"
    using materialize_Inr [OF m] id materialized_link by (fastforce simp: links_def)
  moreover have "contract_evolves c (?k c) \<and> contract_ok (links db1) (?k c)" if "contract_ok (links db) c"
    using that c(2)
    by (auto simp: contract_ok_def contract_evolves_def same_contract_def phase_rises_def less_eq_import_lifecycle_def
        intro: r_into_rtranclp contract_edge.signed)
  ultimately have "contracts_grow db db1" by (intro contracts_grow_update [OF c(1) rows]) auto
  moreover have "same_stock db1 db2" "same_stock db2 db'"
    using plan_stock [OF p] by (auto simp: db' same_stock_def)
  ultimately show ?thesis by (blast intro: contracts_grow_trans contracts_grow_stock)
qed

lemma create_import_contracts:
  assumes "create_import_op env input db = Inr (db', c)"
  shows "contracts_grow db db'"
proof -
  from assms have c: "ic_id c \<notin> ic_id ` set (gb_imports db)" "ic_status c = ''draft''" "ic_lifecycleStatus c = LcDraft"
    and db': "gb_imports db' = gb_imports db @ [c]" "gb_units db' = gb_units db"
    by (auto simp: create_import_op_def Let_def success split: if_split_asm option.split_asm)
  then show ?thesis
    unfolding contracts_grow_def contracts_ok_def
    by (auto simp: links_def contract_ok_def intro!: grows_append)
qed

lemma bulk_contracts:
  assumes "bulkUnitAction env i a x db = Inr (db', m, k, lc)"
  shows "contracts_grow db db'"
proof -
  from bulk_Inr [OF assms] obtain t declared db1 db3 where "map_of UNIT_TRANSITIONS a = Some t"
    and db1: "db1 = audit (''import.bulk_'' @ a) i (update_units
          (\<lambda>u. ut_importContractId u = Some i \<and> ut_status u \<in> set (tr_from t)) (bulk_moved env a (tr_to t) x declared) db)"
    and db3: "recomputeLifecycle i db1 = Inr (db3, lc)" and db': "db' = record_event (BulkAction i a m k lc) db3"
    by blast
  have "contracts_grow db db1"
    by (rule contracts_grow_map) (simp_all add: db1 bulk_moved_def moved_def)
  moreover have "contracts_grow db1 db3" using db3 by (rule recompute_contracts)
  moreover have "same_stock db3 db'" by (simp add: db' same_stock_def)
  ultimately show ?thesis by (blast intro: contracts_grow_trans contracts_grow_stock)
qed

section \<open>Every step\<close>

text \<open>The operations on units and money do not touch a contract.\<close>

lemma unit_ops_contracts:
  "contracts_grow db (fst (list_units env dm key db))"
  "applyAction env i a x db = Inr (db', u) \<Longrightarrow> contracts_grow db db'"
  "unbindVin i db = Inr (db', u) \<Longrightarrow> contracts_grow db db'"
  "setVin i vin db = Inr (db', u) \<Longrightarrow> contracts_grow db db'"
  "create_unit_op env cu db = Inr (db', u) \<Longrightarrow> contracts_grow db db'"
  "reserve_unit env i d cl note db = Inr (db', r) \<Longrightarrow> contracts_grow db db'"
  "cancelReserve i db = Inr (db', u) \<Longrightarrow> contracts_grow db db'"
  subgoal by (rule contracts_grow_map)
    (simp_all add: list_units_def expireReserves_def Let_def split: sum.split option.split)
  subgoal by (rule contracts_grow_map) (auto dest!: applyAction_Inr simp: moved_def)
  subgoal by (rule contracts_grow_map) (auto simp: unbindVin_Inr)
  subgoal by (rule contracts_grow_map) (auto simp: setVin_Inr)
  subgoal by (rule contracts_grow_same) (auto dest!: create_unit_Inr simp: links_def new_unit_def)
  subgoal by (rule contracts_grow_map) (auto dest!: reserve_unit_Inr)
  subgoal by (rule contracts_grow_map) (auto dest!: cancelReserve_Inr)
  done

lemma stage_contracts:
  assumes "setSalesStage env i st x db = Inr (db', v)"
  shows "contracts_grow db db'"
proof -
  from setSalesStage_Inr [OF assms] obtain price db1
    where db1: "db1 = audit ''unit.sales_stage'' i (update_units (\<lambda>v. ut_id v = i) (staged st x price) db)"
    and out: "db' = db1 \<or> accrueCommission env v db1 = Inr db' \<or> db' = record_event (CommissionFailed i None) db1"
    by blast
  have "contracts_grow db db1"
    by (rule contracts_grow_map) (simp_all add: db1 staged_def)
  moreover have "same_stock db1 db'" using out accrue_stock by (auto simp: same_stock_def)
  ultimately show ?thesis by (blast intro: contracts_grow_trans contracts_grow_stock)
qed

lemmas contract_ops = unit_ops_contracts(2-) stage_contracts recompute_contracts markPaidImport_contracts
  cancelImport_contracts sign_contracts create_import_contracts bulk_contracts
  createFlow_stock [THEN contracts_grow_stock] markPaid_stock [THEN contracts_grow_stock]
  cancelFlow_stock [THEN contracts_grow_stock] setFx_stock [THEN contracts_grow_stock]
  statement_stock [THEN contracts_grow_stock]

lemma run_glob_contracts: "run_glob oper db = Inr db' \<Longrightarrow> contracts_grow db db'"
  using unit_ops_contracts(1)
  by (cases oper) (auto simp: tables_Inr split: option.split_asm prod.split_asm dest: contract_ops)

text \<open>Of a cancelled contract only the payment flags can still change.\<close>

definition contract_mark :: "import_row \<Rightarrow> string \<times> string \<times> rat \<times> string \<times> import_lifecycle" where
  "contract_mark c = (ic_id c, ic_contractNo c, ic_totalAmount c, ic_status c, ic_lifecycleStatus c)"

definition contract_mark_evolves ::
  "string \<times> string \<times> rat \<times> string \<times> import_lifecycle \<Rightarrow> string \<times> string \<times> rat \<times> string \<times> import_lifecycle \<Rightarrow> bool" where
  "contract_mark_evolves a b \<longleftrightarrow> (case (a, b) of ((i, no, q, s, l), (i', no', q', s', l')) \<Rightarrow>
     i' = i \<and> no' = no \<and> q' = q \<and> contract_edge\<^sup>*\<^sup>* s s' \<and> phase_rises l l')"

interpretation contracts: keyed_history "\<lambda>db. map contract_mark (gb_imports db)" contract_mark_evolves contracts_ok glob_step
  fst "\<lambda>(i, no, q, s, l). s = ''cancelled'' \<and> l = LcCancelled"
proof unfold_locales
  show "contract_mark_evolves r r" for r by (cases r) (simp add: contract_mark_evolves_def)
  show "contract_mark_evolves a b \<Longrightarrow> contract_mark_evolves b c \<Longrightarrow> contract_mark_evolves a c" for a b c
    by (auto simp: contract_mark_evolves_def phase_rises_def)
  show "glob_step s s' \<Longrightarrow> contracts_ok s \<Longrightarrow> contracts_ok s'" for s s'
    by (auto elim!: glob_stepE dest: run_glob_contracts simp: contracts_grow_def)
  show "\<exists>r' \<in> set (map contract_mark (gb_imports s')). contract_mark_evolves r r'"
    if step: "glob_step s s'" and ok: "contracts_ok s" and r: "r \<in> set (map contract_mark (gb_imports s))" for s s' r
  proof -
    obtain c where c: "c \<in> set (gb_imports s)" "r = contract_mark c" using r by auto
    have "grows contract_evolves (gb_imports s) (gb_imports s')"
      using step ok by (auto elim!: glob_stepE dest: run_glob_contracts simp: contracts_grow_def)
    from grows_mem [OF this c(1)] c(2) show ?thesis
      by (auto simp: contract_mark_def contract_mark_evolves_def contract_evolves_def same_contract_def)
  qed
  show "contracts_ok s \<Longrightarrow> distinct (map fst (map contract_mark (gb_imports s)))" for s
    by (simp add: contracts_ok_def contract_mark_def comp_def)
  show "contract_mark_evolves r r' \<Longrightarrow> fst r' = fst r" for r r' by (auto simp: contract_mark_evolves_def)
  show "contract_mark_evolves r r' \<Longrightarrow> (case r of (i, no, q, s, l) \<Rightarrow> s = ''cancelled'' \<and> l = LcCancelled) \<Longrightarrow> r' = r" for r r'
    by (auto simp: contract_mark_evolves_def phase_rises_def dest: cancelled_stays)
qed

end
