(* ===== verification/GlobProps.thy ===== *)
theory GlobProps
  imports GlobSamples GlobRefine GlobMoney GlobContracts
begin

text \<open>
  The properties of the GLOBERENT contour as a whole, with their witnesses on the sample contour.
\<close>

section \<open>The sample contour is consistent\<close>

lemma sample_glob_ok: "warehouse_inv sample_glob" "flows_ok sample_glob" "contracts_ok sample_glob"
  by (simp_all add: warehouse_inv_def unit_keys_def vins_unique_def codes_unique_def one_reserve_def unit_ok_def
      stage_listed_def held_def UNIT_STATUSES_def sample_glob_def sample_unit_def flows_ok_def ext_unique_def
      sample_flow_def contracts_ok_def links_def contract_ok_def sample_contract_def given_def)

section \<open>The warehouse\<close>

lemma reserved_once:
  assumes "warehouse_inv db" "u \<in> set (gb_units db)" "ut_status u = ''RESERVED''"
  shows "length (filter (active_of (ut_id u)) (gb_reserves db)) = 1"
proof -
  have "list_ex (active_of (ut_id u)) (gb_reserves db)"
    using assms by (simp add: warehouse_inv_def unit_ok_def held_def)
  then have "filter (active_of (ut_id u)) (gb_reserves db) \<noteq> []" by (auto simp: list_ex_iff filter_empty_conv)
  moreover have "length (filter (active_of (ut_id u)) (gb_reserves db)) \<le> 1"
    using assms(1) by (simp add: warehouse_inv_def one_reserve_def)
  ultimately show ?thesis by (metis One_nat_def le_antisym length_greater_0_conv Suc_leI)
qed

text \<open>C7. Whatever operations the warehouse, the contracts and the money service run, a reserved unit is
  held by exactly one active reserve, no unit has two, every status is one of the seventeen, and ids,
  filled VINs and the codes of an organisation stay unique.\<close>
theorem reserved_units_are_held:
  assumes "glob_step\<^sup>*\<^sup>* db db'" "warehouse_inv db"
  shows "(\<forall>u \<in> set (gb_units db'). ut_status u \<in> set UNIT_STATUSES
      \<and> (ut_status u = ''RESERVED'' \<longrightarrow> length (filter (active_of (ut_id u)) (gb_reserves db')) = 1))
    \<and> (\<forall>i. length (filter (active_of i) (gb_reserves db')) \<le> 1)
    \<and> distinct (map ut_id (gb_units db')) \<and> vins_unique (gb_units db') \<and> codes_unique (gb_units db')"
proof -
  have "warehouse_inv db'" using assms by (rule units.steps_ok)
  with reserved_once [OF this] show ?thesis
    by (auto simp: warehouse_inv_def unit_keys_def unit_ok_def one_reserve_def)
qed

definition sample_reserve :: reserve_row where
  "sample_reserve = \<lparr>rv_id = ''n1'', rv_unitId = ''u1'', rv_clientId = None, rv_endDate = ''2026-03-09'',
     rv_status = ''active'', rv_note = None\<rparr>"

definition sample_held :: glob_db where
  "sample_held = audit ''unit.reserved'' ''u1'' (update_units (\<lambda>u. ut_id u = ''u1'') (\<lambda>u. u\<lparr>ut_status := ''RESERVED''\<rparr>)
     (sample_glob\<lparr>gb_reserves := [sample_reserve]\<rparr>))"

lemma sample_hold: "glob_step\<^sup>*\<^sup>* sample_glob sample_held"
proof -
  have 1: "is_iso_day ''2026-03-09''" "\<not> ''2026-03-09'' < ''2026-03-01''" "num_str 1 = ''1''" by code_simp+
  have "reserve_unit (sample_env 1) ''u1'' ''2026-03-09'' None None sample_glob = Inr (sample_held, sample_reserve)"
    by (simp add: reserve_unit_def 1 sample_env_def sample_glob_def find_unit_def sample_unit_def RESERVE_ALLOWED_def
        pg_date_def sample_held_def sample_reserve_def Let_def)
  then have "run_glob (OpReserve (sample_env 1) ''u1'' ''2026-03-09'' None None) sample_glob = Inr sample_held"
    by (simp only: run_glob.simps tables_Inr) blast
  then show ?thesis by (blast intro: glob_step.done_op)
qed

lemma sample_held_units: "gb_units sample_held = [sample_unit\<lparr>ut_status := ''RESERVED''\<rparr>]"
  by (simp add: sample_held_def sample_glob_def sample_unit_def)

theorem reserved_units_are_held_witness:
  "length (filter (active_of ''u1'') (gb_reserves sample_held)) = 1"
proof -
  have "\<forall>u \<in> set (gb_units sample_held). ut_status u = ''RESERVED'' \<longrightarrow>
      length (filter (active_of (ut_id u)) (gb_reserves sample_held)) = 1"
    using reserved_units_are_held [OF sample_hold sample_glob_ok(1)] by blast
  then show ?thesis by (simp add: sample_held_units sample_unit_def)
qed

text \<open>C8. The three services implement the abstract fleet: seen as a map from units to statuses, any
  sequence of operations is a sequence of single arrivals in a start status and single moves along the
  transition matrix, reserve, release and VIN roll-back.\<close>
theorem warehouse_refines_fleet:
  assumes "glob_step\<^sup>*\<^sup>* db db'" "warehouse_inv db"
  shows "fleet_step\<^sup>*\<^sup>* (fleet db) (fleet db')"
  using assms by (rule glob_steps_fleet)

theorem warehouse_refines_fleet_witness: "fleet_step\<^sup>*\<^sup>* [''u1'' \<mapsto> ''IN_STOCK''] [''u1'' \<mapsto> ''RESERVED'']"
proof -
  have "fleet sample_glob = [''u1'' \<mapsto> ''IN_STOCK'']" "fleet sample_held = [''u1'' \<mapsto> ''RESERVED'']"
    by (simp_all add: fleet_def sample_held_units) (simp_all add: sample_glob_def sample_unit_def)
  then show ?thesis using warehouse_refines_fleet [OF sample_hold sample_glob_ok(1)] by simp
qed

text \<open>A unit that the list shows as reserved is shown with its active reserve, and that reserve has not
  expired: reading the list gives the others back to stock first.\<close>
theorem listed_reserves_are_live:
  assumes "list_units env dm key db = (db', Inr rows)" "row \<in> set rows" "ut_status (ul_unit row) = ''RESERVED''"
  shows "\<exists>r. ul_activeReserve row = Some r \<and> rv_unitId r = ut_id (ul_unit row) \<and> rv_status r = ''active''
    \<and> \<not> rv_endDate r < ge_today env"
proof -
  have db': "db' = expireReserves env db" and row: "\<exists>u \<in> set (gb_units db'). row = list_row db' u"
    using assms(1,2) by (auto simp: list_units_def Let_def split: sum.split_asm option.split_asm)
  from row obtain u where u: "u \<in> set (gb_units db')" "row = list_row db' u" by blast
  have live: "\<not> rv_endDate r < ge_today env" if "r \<in> set (gb_reserves db')" "rv_status r = ''active''" for r
    using that by (auto simp: db' expireReserves_def Let_def split: if_splits)
  have "list_ex (active_of (ut_id u)) (gb_reserves db')"
    using u assms(3) by (auto simp: db' list_row_def expireReserves_def Let_def split: if_splits)
  then have "find (active_of (ut_id u)) (gb_reserves db') \<noteq> None" by (auto simp: find_None_iff list_ex_iff)
  then obtain r where r: "find (active_of (ut_id u)) (gb_reserves db') = Some r" by blast
  then have "active_of (ut_id u) r" "r \<in> set (gb_reserves db')" by (auto simp: find_Some_iff)
  with live r u show ?thesis by (auto simp: list_row_def active_of_def)
qed

theorem listed_reserves_are_live_witness:
  "\<exists>db' row. list_units (sample_env 1) ''globerent'' None sample_held = (db', Inr [row])
    \<and> ul_activeReserve row = Some sample_reserve \<and> \<not> rv_endDate sample_reserve < ''2026-03-01''"
proof -
  have 1: "\<not> ''2026-03-09'' < ''2026-03-01''" by code_simp
  have sample_held_org: "orgId sample_held ''globerent'' = Inr ''o''"
    by (simp add: orgId_def sample_held_def sample_glob_def audit_def update_units_def)
  have here: "expireReserves (sample_env 1) sample_held = sample_held"
    by (simp add: expireReserves_def sample_held_def sample_glob_def sample_reserve_def sample_env_def sample_unit_def 1
        Let_def active_of_def update_units_def update_reserves_def audit_def)
  let ?row = "list_row sample_held (sample_unit\<lparr>ut_status := ''RESERVED''\<rparr>)"
  have l: "list_units (sample_env 1) ''globerent'' None sample_held = (sample_held, Inr [?row])"
    using sample_held_org by (simp add: list_units_def here sample_held_units Let_def del: One_nat_def) (simp add: sample_unit_def)
  have "ut_status (ul_unit ?row) = ''RESERVED''" "rv_unitId sample_reserve = ''u1''" by (simp_all add: list_row_def sample_reserve_def)
  moreover have "r = sample_reserve" if "ul_activeReserve ?row = Some r" for r
    using that by (auto simp: list_row_def sample_held_def sample_glob_def split: if_splits)
  ultimately show ?thesis
    using listed_reserves_are_live [OF l, of ?row] l 1 by (auto simp: sample_env_def)
qed

lemma status_counts:
  "distinct ss \<Longrightarrow> sum_list (map (\<lambda>s. length (filter (\<lambda>u. P u \<and> g u = s) us)) ss)
    = length (filter (\<lambda>u. P u \<and> g u \<in> set ss) us)"
proof (induction ss)
  case Nil
  then show ?case by simp
next
  case (Cons s ss)
  have "length (filter (\<lambda>u. P u \<and> g u \<in> set (s # ss)) us)
      = length (filter (\<lambda>u. P u \<and> g u = s) us) + length (filter (\<lambda>u. P u \<and> g u \<in> set ss) us)"
    using Cons.prems by (induction us) auto
  with Cons show ?case by simp
qed

lemma sum_list_groups: "sum_list (map f (concat xss)) = sum_list (map (\<lambda>xs. sum_list (map f xs)) xss)"
  for f :: "'a \<Rightarrow> nat"
  by (induction xss) simp_all

text \<open>The tiles of the pipeline partition the units of an organisation: every unit is counted in
  exactly one group.\<close>
theorem pipeline_counts_every_unit_once:
  assumes "warehouse_inv db" "orgId db dm = Inr org" "pipelineSummary dm db = Inr tiles"
  shows "sum_list (map snd tiles) = length (filter (\<lambda>u. ut_orgId u = org) (gb_units db))"
proof -
  let ?n = "\<lambda>st. length (filter (\<lambda>u. ut_orgId u = org \<and> ut_status u = st) (gb_units db))"
  have tiles: "tiles = map (\<lambda>(key, statuses). (key, sum_list (map ?n statuses))) UNIT_GROUPS"
    using assms(2,3) by (simp add: pipelineSummary_def Let_def)
  have "sum_list (map snd tiles) = sum_list (map ?n (concat (map snd UNIT_GROUPS)))"
    by (simp add: tiles comp_def case_prod_beta sum_list_groups)
  also have "\<dots> = length (filter (\<lambda>u. ut_orgId u = org \<and> ut_status u \<in> set (concat (map snd UNIT_GROUPS))) (gb_units db))"
    using groups_distinct by (rule status_counts)
  also have "\<dots> = length (filter (\<lambda>u. ut_orgId u = org) (gb_units db))"
    using assms(1) unfolding groups_cover
    by (intro arg_cong [where f = length] filter_cong) (auto simp: warehouse_inv_def unit_ok_def)
  finally show ?thesis .
qed

theorem pipeline_counts_every_unit_once_witness:
  "sum_list (map snd (projr (pipelineSummary ''globerent'' sample_glob))) = 1"
proof -
  have o: "orgId sample_glob ''globerent'' = Inr ''o''" by (simp add: orgId_def sample_glob_def)
  then have "pipelineSummary ''globerent'' sample_glob = Inr (projr (pipelineSummary ''globerent'' sample_glob))"
    by (simp add: pipelineSummary_def)
  from pipeline_counts_every_unit_once [OF sample_glob_ok(1) o this] show ?thesis
    by (simp add: sample_glob_def sample_unit_def)
qed

section \<open>Money and contracts over time\<close>

text \<open>C10. Flows are append-only: after any operations each is still there with its amount, currency,
  direction and source, and its status has only moved from planned to actual or to cancelled; ids and
  external ids stay unique.\<close>
theorem flows_append_only:
  assumes "glob_step\<^sup>*\<^sup>* db db'" "flows_ok db" "f \<in> set (gb_flows db)"
  shows "flows_ok db' \<and> (\<exists>!g. g \<in> set (gb_flows db') \<and> mf_id g = mf_id f)
    \<and> (\<forall>g \<in> set (gb_flows db'). mf_id g = mf_id f \<longrightarrow> flow_evolves f g)"
proof -
  have ok: "flows_ok db'" using assms(1,2) by (rule flows.steps_ok)
  have row: "flow_evolves f g" if "g \<in> set (gb_flows db')" "mf_id g = mf_id f" for g
    using flows.row_by_ident [OF assms that] .
  obtain g where g: "g \<in> set (gb_flows db')" "flow_evolves f g" using flows.row_followed [OF assms] by blast
  have "distinct (map mf_id (gb_flows db'))" using ok by (rule flows.ok_distinct)
  then have "h = g" if "h \<in> set (gb_flows db')" "mf_id h = mf_id f" for h
    using that g by (auto simp: distinct_map inj_on_def flow_evolves_def)
  with g ok row show ?thesis by (auto simp: flow_evolves_def)
qed

lemma sample_paid: "glob_step sample_glob (audit ''finance.flow_cancelled'' ''f1''
    (update_flows (\<lambda>x. mf_id x = ''f1'') (\<lambda>x. x\<lparr>mf_status := ''cancelled''\<rparr>) sample_glob))"
proof -
  have "run_glob (OpCancelFlow ''f1'') sample_glob = Inr (audit ''finance.flow_cancelled'' ''f1''
    (update_flows (\<lambda>x. mf_id x = ''f1'') (\<lambda>x. x\<lparr>mf_status := ''cancelled''\<rparr>) sample_glob))"
    by (simp add: tables_def cancelFlow_def find_flow_def sample_glob_def sample_flow_def)
  then show ?thesis by (rule glob_step.done_op)
qed

theorem flows_append_only_witness:
  "flow_evolves sample_flow (sample_flow\<lparr>mf_status := ''cancelled''\<rparr>)"
proof -
  have "sample_flow \<in> set (gb_flows sample_glob)" by (simp add: sample_glob_def)
  from flows_append_only [OF r_into_rtranclp [of glob_step, OF sample_paid] sample_glob_ok(2) this] show ?thesis
    by (simp add: sample_glob_def sample_flow_def)
qed

text \<open>C9. The life cycle of an import contract never goes back: after any operations the contract still
  has its number and sum, its phase is at least what it was unless it was cancelled, and a cancelled
  contract stays cancelled.\<close>
theorem lifecycle_never_goes_back:
  assumes "glob_step\<^sup>*\<^sup>* db db'" "contracts_ok db" "c \<in> set (gb_imports db)" "d \<in> set (gb_imports db')" "ic_id d = ic_id c"
  shows "ic_contractNo d = ic_contractNo c \<and> ic_totalAmount d = ic_totalAmount c
    \<and> (ic_status d = ''cancelled'' \<or> ic_lifecycleStatus c \<le> ic_lifecycleStatus d)
    \<and> (ic_status c = ''cancelled'' \<longrightarrow> ic_status d = ''cancelled'' \<and> ic_lifecycleStatus d = LcCancelled)"
proof -
  have ok: "contracts_ok db'" using assms(1,2) by (rule contracts.steps_ok)
  have "contract_mark_evolves (contract_mark c) (contract_mark d)"
  proof (rule contracts.row_by_ident [OF assms(1,2)])
    show "contract_mark c \<in> set (map contract_mark (gb_imports db))" using assms(3) by simp
    show "contract_mark d \<in> set (map contract_mark (gb_imports db'))" using assms(4) by simp
    show "fst (contract_mark d) = fst (contract_mark c)" using assms(5) by (simp add: contract_mark_def)
  qed
  moreover have "ic_status d = ''cancelled'' \<longleftrightarrow> ic_lifecycleStatus d = LcCancelled"
    "ic_status c = ''cancelled'' \<longleftrightarrow> ic_lifecycleStatus c = LcCancelled"
    using ok assms(2-4) by (auto simp: contracts_ok_def contract_ok_def)
  ultimately show ?thesis
    by (auto simp: contract_mark_evolves_def contract_mark_def phase_rises_def)
qed

lemma sample_cancelled: "glob_step\<^sup>*\<^sup>* sample_glob (audit ''import.cancelled'' ''c1''
    (update_import ''c1'' (\<lambda>c. c\<lparr>ic_status := ''cancelled'', ic_lifecycleStatus := LcCancelled\<rparr>) sample_glob))"
proof -
  have "run_glob (OpCancelImport ''c1'') sample_glob = Inr (audit ''import.cancelled'' ''c1''
    (update_import ''c1'' (\<lambda>c. c\<lparr>ic_status := ''cancelled'', ic_lifecycleStatus := LcCancelled\<rparr>) sample_glob))"
    by (simp add: cancelImport_def find_import_def contract_units_def sample_glob_def sample_contract_def sample_unit_def Let_def)
  then show ?thesis by (blast intro: glob_step.done_op)
qed

theorem lifecycle_never_goes_back_witness:
  "\<exists>d :: import_row. ic_id d = ''c1'' \<and> ic_contractNo d = ''HELI-7'' \<and> (ic_status d = ''cancelled'' \<or> LcDraft \<le> ic_lifecycleStatus d)"
proof -
  let ?d = "sample_contract\<lparr>ic_status := ''cancelled'', ic_lifecycleStatus := LcCancelled\<rparr>"
  have "sample_contract \<in> set (gb_imports sample_glob)"
    and "?d \<in> set (gb_imports (audit ''import.cancelled'' ''c1''
      (update_import ''c1'' (\<lambda>c. c\<lparr>ic_status := ''cancelled'', ic_lifecycleStatus := LcCancelled\<rparr>) sample_glob)))"
    by (simp_all add: sample_glob_def sample_contract_def)
  moreover have "ic_id ?d = ic_id sample_contract" by simp
  ultimately have d: "ic_contractNo ?d = ic_contractNo sample_contract"
    "ic_status ?d = ''cancelled'' \<or> ic_lifecycleStatus sample_contract \<le> ic_lifecycleStatus ?d"
    using lifecycle_never_goes_back [OF sample_cancelled sample_glob_ok(3)] by blast+
  show ?thesis
  proof (intro exI conjI)
    show "ic_id ?d = ''c1''" by (simp add: sample_contract_def)
    show "ic_contractNo ?d = ''HELI-7''" using d(1) by (simp add: sample_contract_def)
    show "ic_status ?d = ''cancelled'' \<or> LcDraft \<le> ic_lifecycleStatus ?d" using d(2) by (simp add: sample_contract_def)
  qed
qed

end
