(* ===== verification/CommissionFacts.thy ===== *)
theory CommissionFacts
  imports Commission
begin

text \<open>
  The cost breakdown is exact on whole sums, the tier that is picked is the best candidate, and the
  default tiers pay more for a larger margin.
\<close>

section \<open>Whole sums\<close>

text \<open>A payment as category and whole amount; \<open>None\<close> when it has no rate.\<close>

type_synonym payment = "string option \<times> int option"

definition payment_row :: "payment \<Rightarrow> cogs_row" where
  "payment_row p = \<lparr>cg_category = fst p, cg_uzs = map_option (\<lambda>n. Fin (of_int n)) (snd p)\<rparr>"

definition paid :: "payment \<Rightarrow> int" where
  "paid p = (case snd p of None \<Rightarrow> 0 | Some n \<Rightarrow> n)"

definition paid_if :: "(string option \<Rightarrow> bool) \<Rightarrow> payment list \<Rightarrow> int" where
  "paid_if P ps = sum_list (map paid (filter (P \<circ> fst) ps))"

definition other_category :: "string option \<Rightarrow> bool" where
  "other_category c \<longleftrightarrow> c \<notin> {Some ''supplier'', Some ''logistics'', Some ''customs''}"

definition turnover :: "payment list \<Rightarrow> int" where
  "turnover ps = sum_list (map (\<lambda>p. \<bar>paid p\<bar>) ps)"

definition whole_cogs :: "int \<Rightarrow> int \<Rightarrow> int \<Rightarrow> int \<Rightarrow> int \<Rightarrow> int \<Rightarrow> cogs" where
  "whole_cogs s l c k t u = \<lparr>cb_supplier = Fin (of_int s), cb_logistics = Fin (of_int l), cb_customs = Fin (of_int c),
     cb_other = Fin (of_int k), cb_totalUzs = Fin (of_int t), cb_unconverted = u\<rparr>"

definition all_below :: "int \<Rightarrow> int list \<Rightarrow> bool" where
  "all_below A xs \<longleftrightarrow> (\<forall>x \<in> set xs. \<bar>x\<bar> \<le> A)"

lemma paid_if_Cons:
  "paid_if P (p # ps) = (if P (fst p) then paid p else 0) + paid_if P ps"
  by (simp add: paid_if_def)

lemma turnover_nonneg: "0 \<le> turnover ps"
  by (induction ps) (auto simp: turnover_def)

lemma cogs_step_whole:
  assumes "all_below A [s, l, c, k, t]" "A + \<bar>paid p\<bar> < 2 ^ 53"
  shows "cogs_step (whole_cogs s l c k t u) (payment_row p) =
      whole_cogs (s + paid_if (\<lambda>x. x = Some ''supplier'') [p]) (l + paid_if (\<lambda>x. x = Some ''logistics'') [p])
        (c + paid_if (\<lambda>x. x = Some ''customs'') [p]) (k + paid_if other_category [p]) (t + paid p)
        (u + (if snd p = None then 1 else 0))"
proof (cases "snd p")
  case None
  then show ?thesis by (simp add: cogs_step_def payment_row_def whole_cogs_def paid_def paid_if_def)
next
  case (Some n)
  have add: "to_double (rat_of_int x + rat_of_int n) = Fin (of_int (x + n))" if "x \<in> {s, l, c, k, t}" for x
  proof -
    have "\<bar>x\<bar> \<le> A" "\<bar>n\<bar> = \<bar>paid p\<bar>" using assms(1) that Some by (auto simp: all_below_def paid_def)
    with assms(2) have "\<bar>x + n\<bar> < 2 ^ 53" by linarith
    from to_double_whole [OF this] show ?thesis by simp
  qed
  from Some show ?thesis
    by (auto simp: cogs_step_def payment_row_def whole_cogs_def paid_def paid_if_def Let_def add other_category_def)
qed

lemma cogs_fold_whole:
  assumes "all_below A [s, l, c, k, t]" "A + turnover ps < 2 ^ 53"
  shows "foldl cogs_step (whole_cogs s l c k t u) (map payment_row ps) =
      whole_cogs (s + paid_if (\<lambda>x. x = Some ''supplier'') ps) (l + paid_if (\<lambda>x. x = Some ''logistics'') ps)
        (c + paid_if (\<lambda>x. x = Some ''customs'') ps) (k + paid_if other_category ps) (t + paid_if (\<lambda>_. True) ps)
        (u + int (length (filter (\<lambda>p. snd p = None) ps)))"
  using assms
proof (induction ps arbitrary: A s l c k t u)
  case Nil
  then show ?case by (simp add: paid_if_def)
next
  case (Cons p ps)
  have tn: "turnover (p # ps) = \<bar>paid p\<bar> + turnover ps" by (simp add: turnover_def)
  have st: "A + \<bar>paid p\<bar> < 2 ^ 53" using Cons.prems(2) tn turnover_nonneg [of ps] by linarith
  have "\<bar>paid_if P [p]\<bar> \<le> \<bar>paid p\<bar>" for P by (simp add: paid_if_def)
  with Cons.prems(1) have "all_below (A + \<bar>paid p\<bar>) [s + paid_if (\<lambda>x. x = Some ''supplier'') [p], l + paid_if (\<lambda>x. x = Some ''logistics'') [p],
      c + paid_if (\<lambda>x. x = Some ''customs'') [p], k + paid_if other_category [p], t + paid p]"
    by (auto simp: all_below_def intro!: order_trans [OF abs_triangle_ineq] add_mono)
  moreover have "A + \<bar>paid p\<bar> + turnover ps < 2 ^ 53" using Cons.prems(2) tn by simp
  ultimately have fold: "foldl cogs_step (cogs_step (whole_cogs s l c k t u) (payment_row p)) (map payment_row ps) =
      whole_cogs (s + paid_if (\<lambda>x. x = Some ''supplier'') [p] + paid_if (\<lambda>x. x = Some ''supplier'') ps)
        (l + paid_if (\<lambda>x. x = Some ''logistics'') [p] + paid_if (\<lambda>x. x = Some ''logistics'') ps)
        (c + paid_if (\<lambda>x. x = Some ''customs'') [p] + paid_if (\<lambda>x. x = Some ''customs'') ps)
        (k + paid_if other_category [p] + paid_if other_category ps)
        (t + paid p + paid_if (\<lambda>_. True) ps)
        (u + (if snd p = None then 1 else 0) + int (length (filter (\<lambda>p. snd p = None) ps)))"
    unfolding cogs_step_whole [OF Cons.prems(1) st] by (rule Cons.IH)
  have one: "paid_if P (p # ps) = paid_if P [p] + paid_if P ps" "paid_if (\<lambda>_. True) [p] = paid p" for P
    by (simp_all add: paid_if_def)
  show ?case unfolding list.map foldl.simps fold by (simp add: one(1) [of _] one(2) algebra_simps)
qed

lemma round2_whole:
  assumes "\<bar>n\<bar> * 100 < 2 ^ 53"
  shows "round2 (Fin (of_int n)) = Fin (of_int n)"
proof -
  have "js_mul (Fin (of_int n)) (Fin (of_int 100)) = Fin (of_int (n * 100))"
    using assms by (intro js_mul_whole) (simp add: abs_mult)
  moreover have "js_div (Fin (of_int (n * 100))) (Fin (of_int 100)) = Fin (of_int n)"
    using assms by (intro js_div_whole) auto
  moreover have "js_round (Fin (of_int (n * 100))) = Fin (of_int (n * 100))" by (rule js_round_whole)
  ultimately show ?thesis by (simp add: round2_def del: js_mul.simps js_div.simps js_round.simps)
qed

lemma paid_if_bound: "\<bar>paid_if P ps\<bar> \<le> turnover ps"
proof (induction ps)
  case Nil
  then show ?case by (simp add: paid_if_def turnover_def)
next
  case (Cons p ps)
  then show ?case by (auto simp: paid_if_def turnover_def)
qed

lemma paid_if_parts:
  "paid_if (\<lambda>x. x = Some ''supplier'') ps + paid_if (\<lambda>x. x = Some ''logistics'') ps
    + paid_if (\<lambda>x. x = Some ''customs'') ps + paid_if other_category ps = paid_if (\<lambda>_. True) ps"
  by (induction ps) (auto simp: paid_if_def other_category_def)

text \<open>On whole sums the cost breakdown is exact: every bucket is the sum of its payments, the four
  buckets add up to the total, and the payments without a rate are counted apart and left out.\<close>
theorem cogs_exact_on_whole_sums:
  assumes "turnover ps * 100 < 2 ^ 53"
  shows "cogsBreakdown (map payment_row ps) =
      whole_cogs (paid_if (\<lambda>x. x = Some ''supplier'') ps) (paid_if (\<lambda>x. x = Some ''logistics'') ps)
        (paid_if (\<lambda>x. x = Some ''customs'') ps) (paid_if other_category ps) (paid_if (\<lambda>_. True) ps)
        (int (length (filter (\<lambda>p. snd p = None) ps)))
    \<and> paid_if (\<lambda>x. x = Some ''supplier'') ps + paid_if (\<lambda>x. x = Some ''logistics'') ps
        + paid_if (\<lambda>x. x = Some ''customs'') ps + paid_if other_category ps = paid_if (\<lambda>_. True) ps"
proof
  have r: "round2 (Fin (of_int (paid_if P ps))) = Fin (of_int (paid_if P ps))" for P
    using assms paid_if_bound [of P ps] by (intro round2_whole) linarith
  have e: "cogs_empty = whole_cogs 0 0 0 0 0 0" by (simp add: cogs_empty_def whole_cogs_def)
  have "all_below 0 [0, 0, 0, 0, 0]" by (simp add: all_below_def)
  moreover have "0 + turnover ps < 2 ^ 53" using assms turnover_nonneg [of ps] by linarith
  ultimately have "foldl cogs_step cogs_empty (map payment_row ps) =
      whole_cogs (paid_if (\<lambda>x. x = Some ''supplier'') ps) (paid_if (\<lambda>x. x = Some ''logistics'') ps)
        (paid_if (\<lambda>x. x = Some ''customs'') ps) (paid_if other_category ps) (paid_if (\<lambda>_. True) ps)
        (int (length (filter (\<lambda>p. snd p = None) ps)))"
    unfolding e using cogs_fold_whole [of 0 0 0 0 0 0 ps 0] by simp
  then show "cogsBreakdown (map payment_row ps) =
      whole_cogs (paid_if (\<lambda>x. x = Some ''supplier'') ps) (paid_if (\<lambda>x. x = Some ''logistics'') ps)
        (paid_if (\<lambda>x. x = Some ''customs'') ps) (paid_if other_category ps) (paid_if (\<lambda>_. True) ps)
        (int (length (filter (\<lambda>p. snd p = None) ps)))"
    by (simp add: cogsBreakdown_def whole_cogs_def r)
qed (rule paid_if_parts)

theorem cogs_exact_on_whole_sums_witness:
  "cogsBreakdown (map payment_row [(Some ''supplier'', Some 900), (None, Some 50), (Some ''customs'', None)])
    = whole_cogs 900 0 0 50 950 1"
  using cogs_exact_on_whole_sums [of "[(Some ''supplier'', Some 900), (None, Some 50), (Some ''customs'', None)]"]
  by (simp add: turnover_def paid_def paid_if_def other_category_def)

section \<open>Tiers\<close>

lemma pickTier_cases:
  "pickTier ts m p = None \<longleftrightarrow> filter (tier_applies m p) ts = []"
  by (auto simp: pickTier_def split: list.split dest: arg_cong [where f = set])

lemma pickTier_best:
  assumes "pickTier ts m p = Some t"
  shows "t \<in> set ts \<and> tier_applies m p t \<and> (\<forall>u \<in> set ts. tier_applies m p u \<longrightarrow> tier_key t \<le> tier_key u)"
proof -
  from assms obtain us where us: "sort_key tier_key (filter (tier_applies m p) ts) = t # us"
    by (auto simp: pickTier_def split: list.splits)
  then have "set (t # us) = set (filter (tier_applies m p) ts)" by (metis set_sort)
  moreover have "sorted (map tier_key (t # us))" using us by (metis sorted_sort_key)
  ultimately show ?thesis by auto
qed

text \<open>The tier of a margin is the best of those that apply: it is personal if any personal one
  applies, and among equals it has the largest lower limit; no tier is returned only when none applies.
  The default tiers cover every non-negative margin and pay a larger margin at no lower rate.\<close>
theorem tier_is_best_candidate:
  "(case pickTier ts m p of
      None \<Rightarrow> \<forall>u \<in> set ts. \<not> tier_applies m p u
    | Some t \<Rightarrow> t \<in> set ts \<and> tier_applies m p t
        \<and> (\<forall>u \<in> set ts. tier_applies m p u \<longrightarrow>
            (ct_positionId t \<noteq> None \<or> ct_positionId u = None)
            \<and> ((ct_positionId t = None) = (ct_positionId u = None) \<longrightarrow> ct_marginPctFrom u \<le> ct_marginPctFrom t)))
   \<and> (0 \<le> x \<and> x \<le> y \<longrightarrow>
       (case (pickTier DEFAULT_COMMISSION_TIERS (Fin x) p, pickTier DEFAULT_COMMISSION_TIERS (Fin y) p) of
          (Some t, Some u) \<Rightarrow> ct_ratePct t \<le> ct_ratePct u | _ \<Rightarrow> False))"
proof
  show "case pickTier ts m p of
      None \<Rightarrow> \<forall>u \<in> set ts. \<not> tier_applies m p u
    | Some t \<Rightarrow> t \<in> set ts \<and> tier_applies m p t
        \<and> (\<forall>u \<in> set ts. tier_applies m p u \<longrightarrow>
            (ct_positionId t \<noteq> None \<or> ct_positionId u = None)
            \<and> ((ct_positionId t = None) = (ct_positionId u = None) \<longrightarrow> ct_marginPctFrom u \<le> ct_marginPctFrom t))"
  proof (cases "pickTier ts m p")
    case None
    then show ?thesis using pickTier_cases [of ts m p] by (auto simp: filter_empty_conv)
  next
    case (Some t)
    from pickTier_best [OF Some] Some show ?thesis
      by (auto simp: tier_key_def less_eq_prod_def less_bool_def)
  qed
  have one: "pickTier DEFAULT_COMMISSION_TIERS (Fin z) p = Some (if z < 5 then general_tier 0 (Some 5) (1 / 2)
      else if z < 10 then general_tier 5 (Some 10) (3 / 2) else if z < 15 then general_tier 10 (Some 15) (5 / 2)
      else general_tier 15 None (7 / 2))" if "0 \<le> z" for z
    using that
    by (auto simp: pickTier_def DEFAULT_COMMISSION_TIERS_def tier_applies_def general_tier_def js_leq_def tier_key_def)
  show "0 \<le> x \<and> x \<le> y \<longrightarrow>
       (case (pickTier DEFAULT_COMMISSION_TIERS (Fin x) p, pickTier DEFAULT_COMMISSION_TIERS (Fin y) p) of
          (Some t, Some u) \<Rightarrow> ct_ratePct t \<le> ct_ratePct u | _ \<Rightarrow> False)"
    by (auto simp: one general_tier_def)
qed

theorem tier_is_best_candidate_witness:
  "case (pickTier DEFAULT_COMMISSION_TIERS (Fin 7) None, pickTier DEFAULT_COMMISSION_TIERS (Fin 20) None) of
     (Some t, Some u) \<Rightarrow> ct_ratePct t \<le> ct_ratePct u | _ \<Rightarrow> False"
  using tier_is_best_candidate [of "[]" NaN None 7 20] by simp

end
