(* ===== verification/GlobMoneyProps.thy ===== *)
theory GlobMoneyProps
  imports GlobSamples GlobMoney CommissionFacts
begin

text \<open>
  Properties of single operations of the contour: signing, the import of a bank statement, and the
  commission of a closed sale.
\<close>

section \<open>Bank statement\<close>

text \<open>A row of a statement is settled in the tables when another run cannot create a flow for it.\<close>

definition settled_row :: "glob_db \<Rightarrow> statement_item \<Rightarrow> bool" where
  "settled_row db item \<longleftrightarrow> (case turnover_of item of None \<Rightarrow> True
     | Some t \<Rightarrow> flow_input_error (statement_flow item t) \<noteq> None \<or> (\<exists>e. column numeric_18_2 (snd t) = Inl e)
         \<or> find_ext db ''bank'' (si_extId item) \<noteq> None)"

lemma statement_prepare:
  assumes "flow_input_error (statement_flow item t) = None"
  shows "prepareFlow (statement_flow item t) db =
    (case (if si_extId item = [] then None else find_ext db ''bank'' (si_extId item)) of
       Some f \<Rightarrow> Inr (Existing f)
     | None \<Rightarrow> Inr (New \<lparr>fp_orgId = None, fp_currency = ''UZS'', fp_source = ''bank'', fp_rate = None, fp_amountUzs = None\<rparr>))"
proof -
  have "js_trim (js_upper ''UZS'') = ''UZS''" by code_simp
  with assms show ?thesis by (auto simp: prepareFlow_def statement_flow_def Let_def split: option.split)
qed

definition bank_flow :: "string \<Rightarrow> statement_item \<Rightarrow> string \<times> jsnum \<Rightarrow> rat \<Rightarrow> flow_row" where
  "bank_flow i item t a =
     \<lparr>mf_id = i, mf_orgId = None, mf_direction = fst t, mf_amount = a, mf_currency = ''UZS'', mf_source = ''bank'',
      mf_extId = Some (si_extId item), mf_purpose = si_purpose item, mf_cashSymbol = si_cashSymbol item,
      mf_status = ''actual'', mf_category = None, mf_method = None, mf_isOfficial = True, mf_rate = None,
      mf_amountUzs = None, mf_counterpartyId = None, mf_dueDate = None, mf_contractId = None,
      mf_importContractId = None, mf_unitId = None\<rparr>"

lemma statement_write:
  "writeFlow env i (statement_flow item t)
      \<lparr>fp_orgId = None, fp_currency = ''UZS'', fp_source = ''bank'', fp_rate = None, fp_amountUzs = None\<rparr> db =
    (case column numeric_18_2 (snd t) of Inl e \<Rightarrow> Inl e
     | Inr a \<Rightarrow>
         if i \<in> set (map mf_id (gb_flows db)) \<or> find_ext db ''bank'' (si_extId item) \<noteq> None then Inl DatabaseError
         else Inr (audit ''finance.flow_created'' i (db\<lparr>gb_flows := gb_flows db @ [bank_flow i item t a]\<rparr>), bank_flow i item t a))"
  by (cases "column numeric_18_2 (snd t)")
    (simp_all add: writeFlow_def statement_flow_def optional_column_def insert_flow_def ext_free_def bank_flow_def Let_def)

lemma settled_step:
  assumes "settled_row db item"
  shows "\<exists>rep'. statement_step env dry n item (db, rep) = (db, rep') \<and> (dry = False \<longrightarrow> sr_created rep' = sr_created rep)"
proof (cases "turnover_of item")
  case None
  then show ?thesis by (simp add: statement_step_def)
next
  case (Some t)
  show ?thesis
  proof (cases "flow_input_error (statement_flow item t)")
    case None
    with assms Some have s: "(\<exists>e. column numeric_18_2 (snd t) = Inl e) \<or> find_ext db ''bank'' (si_extId item) \<noteq> None"
      by (simp add: settled_row_def)
    then show ?thesis
      using Some by (auto simp: statement_step_def statement_prepare [OF None] statement_write Let_def
          split: option.split sum.split if_split)
  next
    case (Some e)
    then have "prepareFlow (statement_flow item t) db = Inl e" by (simp add: prepareFlow_def)
    with \<open>turnover_of item = Some t\<close> show ?thesis by (simp add: statement_step_def)
  qed
qed

lemma find_ext_here: "f \<in> set (gb_flows db) \<Longrightarrow> mf_source f = s \<Longrightarrow> mf_extId f = Some i \<Longrightarrow> find_ext db s i \<noteq> None"
  by (auto simp: find_ext_def find_None_iff)

lemma settled_append:
  assumes "gb_flows db' = gb_flows db @ xs" "settled_row db item"
  shows "settled_row db' item"
proof -
  have "find_ext db ''bank'' (si_extId item) \<noteq> None \<Longrightarrow> find_ext db' ''bank'' (si_extId item) \<noteq> None"
    using assms(1) by (auto simp: find_ext_def find_None_iff find_Some_iff)
  with assms(2) show ?thesis by (auto simp: settled_row_def split: option.split_asm option.split)
qed

text \<open>One row: the flows only grow, by at most the new id, and the row is settled afterwards.\<close>

lemma statement_step_settles:
  assumes "ge_ids env n \<notin> mf_id ` set (gb_flows db)"
  shows "\<exists>xs. gb_flows (fst (statement_step env False n item (db, rep))) = gb_flows db @ xs
      \<and> mf_id ` set xs \<subseteq> {ge_ids env n} \<and> settled_row (fst (statement_step env False n item (db, rep))) item"
proof (cases "settled_row db item")
  case True
  from settled_step [OF this, of env False n rep] True show ?thesis by (intro exI [of _ "[]"]) auto
next
  case False
  then obtain t where t: "turnover_of item = Some t" by (auto simp: settled_row_def split: option.split_asm)
  with False have ok: "flow_input_error (statement_flow item t) = None"
    and free: "find_ext db ''bank'' (si_extId item) = None" by (auto simp: settled_row_def)
  obtain a where a: "column numeric_18_2 (snd t) = Inr a"
    using False t by (cases "column numeric_18_2 (snd t)") (auto simp: settled_row_def)
  have prep: "prepareFlow (statement_flow item t) db
      = Inr (New \<lparr>fp_orgId = None, fp_currency = ''UZS'', fp_source = ''bank'', fp_rate = None, fp_amountUzs = None\<rparr>)"
    using free by (simp add: statement_prepare [OF ok])
  have new: "ge_ids env n \<notin> set (map mf_id (gb_flows db))" using assms by simp
  define f where "f = bank_flow (ge_ids env n) item t a"
  have f: "mf_id f = ge_ids env n" "mf_source f = ''bank''" "mf_extId f = Some (si_extId item)"
    by (simp_all add: f_def bank_flow_def)
  have w: "writeFlow env (ge_ids env n) (statement_flow item t)
        \<lparr>fp_orgId = None, fp_currency = ''UZS'', fp_source = ''bank'', fp_rate = None, fp_amountUzs = None\<rparr> db
      = Inr (audit ''finance.flow_created'' (ge_ids env n) (db\<lparr>gb_flows := gb_flows db @ [f]\<rparr>), f)"
    using new by (simp add: statement_write a free f_def)
  have step: "fst (statement_step env False n item (db, rep))
      = audit ''finance.flow_created'' (ge_ids env n) (db\<lparr>gb_flows := gb_flows db @ [f]\<rparr>)"
    by (simp add: statement_step_def t prep w Let_def)
  then have "settled_row (fst (statement_step env False n item (db, rep))) item"
    using find_ext_here [of f _ "''bank''" "si_extId item"] f by (simp add: settled_row_def t)
  with f(1) step show ?thesis by (intro exI [of _ "[f]"]) simp
qed

lemma statement_rows_settle:
  assumes "inj (ge_ids env)" "\<And>k. n \<le> k \<Longrightarrow> ge_ids env k \<notin> mf_id ` set (gb_flows db)"
  shows "\<exists>xs. gb_flows (fst (statement_rows env False n items (db, rep))) = gb_flows db @ xs
      \<and> (\<forall>item \<in> set items. settled_row (fst (statement_rows env False n items (db, rep))) item)"
  using assms(2)
proof (induction items arbitrary: n db rep)
  case Nil
  then show ?case by simp
next
  case (Cons i items)
  obtain db1 rep1 where s: "statement_step env False n i (db, rep) = (db1, rep1)" by (cases "statement_step env False n i (db, rep)")
  obtain xs where xs: "gb_flows db1 = gb_flows db @ xs" "mf_id ` set xs \<subseteq> {ge_ids env n}" "settled_row db1 i"
    using statement_step_settles [of env n db i rep] Cons.prems [of n] s by auto
  have "ge_ids env k \<notin> mf_id ` set (gb_flows db1)" if "n + 1 \<le> k" for k
  proof -
    have "ge_ids env k \<noteq> ge_ids env n" using assms(1) that by (auto simp: inj_eq)
    with xs(1,2) Cons.prems [of k] that show ?thesis by auto
  qed
  from Cons.IH [OF this] obtain ys where
    ys: "gb_flows (fst (statement_rows env False (n + 1) items (db1, rep1))) = gb_flows db1 @ ys"
      "\<forall>item \<in> set items. settled_row (fst (statement_rows env False (n + 1) items (db1, rep1))) item" by blast
  then have "settled_row (fst (statement_rows env False (n + 1) items (db1, rep1))) i"
    using settled_append xs(3) by blast
  with ys xs(1) show ?case by (simp add: s)
qed

lemma settled_rows_again:
  assumes "\<forall>item \<in> set items. settled_row db item"
  shows "\<exists>rep'. statement_rows env False n items (db, rep) = (db, rep') \<and> sr_created rep' = sr_created rep"
  using assms
proof (induction items arbitrary: n rep)
  case Nil
  then show ?case by simp
next
  case (Cons i items)
  obtain rep1 where "statement_step env False n i (db, rep) = (db, rep1)" "sr_created rep1 = sr_created rep"
    using settled_step [of db i env False n rep] Cons.prems by auto
  with Cons.IH [of "n + 1" rep1] Cons.prems show ?case by auto
qed

text \<open>C11. Importing the same bank statement again creates nothing and leaves every table as it is,
  whatever the first run created, skipped or rejected; a dry run never changes a table.\<close>
theorem statement_reimport_changes_nothing:
  assumes "inj (ge_ids env)" "\<And>k. ge_ids env k \<notin> mf_id ` set (gb_flows db)"
    "importBankStatement env False items db = Some (db', rep)"
  shows "(\<exists>rep'. importBankStatement env' False items db' = Some (db', rep') \<and> sr_created rep' = 0)
    \<and> fst (the (importBankStatement env' True items db)) = db"
proof
  let ?r = "\<lparr>sr_created = 0, sr_skippedRepeat = 0, sr_rejected = []\<rparr>"
  have small: "length items \<le> 3000" and db': "db' = fst (statement_rows env False 0 items (db, ?r))"
    using assms(3) by (auto simp: importBankStatement_def split: if_split_asm)
  from statement_rows_settle [OF assms(1,2), of 0 items ?r] have "\<forall>item \<in> set items. settled_row db' item"
    unfolding db' by blast
  from settled_rows_again [OF this, of env' 0 ?r] small
  show "\<exists>rep'. importBankStatement env' False items db' = Some (db', rep') \<and> sr_created rep' = 0"
    by (auto simp: importBankStatement_def)
  have "fst (statement_rows env' True n items (db, rep)) = db" for n rep
  proof (induction items arbitrary: n rep)
    case (Cons i items)
    have "fst (statement_step env' True n i (db, rep)) = db"
      by (auto simp: statement_step_def Let_def split: option.split sum.split prep.split)
    then obtain rep1 where "statement_step env' True n i (db, rep) = (db, rep1)" by (metis prod.collapse)
    with Cons.IH show ?case by simp
  qed simp
  with small show "fst (the (importBankStatement env' True items db)) = db" by (simp add: importBankStatement_def)
qed

definition sample_row :: statement_item where
  "sample_row = \<lparr>si_debit = None, si_credit = Some (Fin 32), si_purpose = None, si_cashSymbol = None, si_extId = ''d1''\<rparr>"

lemma sample_ids: "inj (ge_ids (sample_env 1))" "ge_ids (sample_env 1) k \<notin> mf_id ` set (gb_flows sample_glob)"
proof -
  show "inj (ge_ids (sample_env 1))"
  proof (rule injI)
    fix a b assume "ge_ids (sample_env 1) a = ge_ids (sample_env 1) b"
    then have "num_str (int a) = num_str (int b)" by (simp add: sample_env_def del: num_str.simps)
    then show "a = b" by (metis num_str_val of_nat_0_le_iff of_nat_eq_iff)
  qed
  show "ge_ids (sample_env 1) k \<notin> mf_id ` set (gb_flows sample_glob)"
    by (simp add: sample_env_def sample_glob_def sample_flow_def del: num_str.simps)
qed

lemma sample_turnover: "turnover_of sample_row = Some (''in'', Fin 32)"
  by (simp add: turnover_of_def sample_row_def Let_def)

lemma sample_input: "flow_input_error (statement_flow sample_row (''in'', Fin 32)) = None"
proof -
  have "js_trim (js_upper ''UZS'') = ''UZS''" "CURRENCY_OK ''UZS''" by code_simp+
  then show ?thesis
    by (simp add: flow_input_error_def statement_flow_def positive_number_def js_finite_def sample_row_def Let_def)
qed

lemma sample_column_32: "column numeric_18_2 (Fin 32) = Inr 32"
  by (simp add: column_def sample_column)

lemma statement_runs: "length items \<le> 3000 \<Longrightarrow> \<exists>db' rep. importBankStatement env dry items db = Some (db', rep)"
  by (simp add: importBankStatement_def)

theorem statement_reimport_changes_nothing_witness:
  "\<exists>rep'. importBankStatement (sample_env 2) False [sample_row, sample_row]
      (fst (the (importBankStatement (sample_env 1) False [sample_row, sample_row] sample_glob)))
    = Some (fst (the (importBankStatement (sample_env 1) False [sample_row, sample_row] sample_glob)), rep')
    \<and> sr_created rep' = 0"
proof -
  have "length [sample_row, sample_row] \<le> 3000" by simp
  from statement_runs [OF this] obtain db' rep
    where "importBankStatement (sample_env 1) False [sample_row, sample_row] sample_glob = Some (db', rep)" by blast
  with statement_reimport_changes_nothing [OF sample_ids this, of "sample_env 2"] show ?thesis by simp
qed

section \<open>Dry run\<close>

lemma statement_step_created:
  assumes "turnover_of item = Some t" "flow_input_error (statement_flow item t) = None" "column numeric_18_2 (snd t) = Inr a"
    "find_ext db ''bank'' (si_extId item) = None" "i = ge_ids env n" "i \<notin> mf_id ` set (gb_flows db)"
  shows "statement_step env dry n item (db, rep) =
    ((if dry then db else audit ''finance.flow_created'' i (db\<lparr>gb_flows := gb_flows db @ [bank_flow i item t a]\<rparr>)),
     rep\<lparr>sr_created := sr_created rep + 1\<rparr>)"
  using assms by (auto simp: statement_step_def statement_prepare statement_write Let_def)

lemma statement_step_repeat:
  assumes "turnover_of item = Some t" "flow_input_error (statement_flow item t) = None"
    "find_ext db ''bank'' (si_extId item) \<noteq> None" "si_extId item \<noteq> []"
  shows "statement_step env dry n item (db, rep) = (db, rep\<lparr>sr_skippedRepeat := sr_skippedRepeat rep + 1\<rparr>)"
  using assms by (auto simp: statement_step_def statement_prepare Let_def)

text \<open>The report of a dry run can differ from that of the real run: a document that occurs twice in one
  batch is counted as two new flows, while the real run creates one and skips the other.\<close>
theorem dry_run_counts_repeats_as_new:
  "map_option snd (importBankStatement (sample_env 1) True [sample_row, sample_row] sample_glob)
      = Some \<lparr>sr_created = 2, sr_skippedRepeat = 0, sr_rejected = []\<rparr>
   \<and> map_option snd (importBankStatement (sample_env 1) False [sample_row, sample_row] sample_glob)
      = Some \<lparr>sr_created = 1, sr_skippedRepeat = 1, sr_rejected = []\<rparr>"
proof -
  have new: "find_ext sample_glob ''bank'' (si_extId sample_row) = None"
    by (simp add: find_ext_def sample_glob_def sample_flow_def)
  define f where "f = bank_flow (ge_ids (sample_env 1) 0) sample_row (''in'', Fin 32) 32"
  define db1 where "db1 = audit ''finance.flow_created'' (ge_ids (sample_env 1) 0) (sample_glob\<lparr>gb_flows := gb_flows sample_glob @ [f]\<rparr>)"
  have step: "statement_step (sample_env 1) dry n sample_row (sample_glob, rep) =
      ((if dry then sample_glob else audit ''finance.flow_created'' (ge_ids (sample_env 1) n)
        (sample_glob\<lparr>gb_flows := gb_flows sample_glob @ [bank_flow (ge_ids (sample_env 1) n) sample_row (''in'', Fin 32) 32]\<rparr>)),
       rep\<lparr>sr_created := sr_created rep + 1\<rparr>)" for dry n rep
    by (rule statement_step_created [OF sample_turnover sample_input _ new refl sample_ids(2)]) (simp add: sample_column_32)
  have "find_ext db1 ''bank'' (si_extId sample_row) \<noteq> None"
    by (rule find_ext_here [of f]) (simp_all add: db1_def f_def bank_flow_def)
  moreover have "si_extId sample_row \<noteq> []" by (simp add: sample_row_def)
  ultimately have again: "statement_step (sample_env 1) False n sample_row (db1, rep)
      = (db1, rep\<lparr>sr_skippedRepeat := sr_skippedRepeat rep + 1\<rparr>)" for n rep
    using statement_step_repeat [OF sample_turnover sample_input] by blast
  show ?thesis
    by (simp add: importBankStatement_def step again f_def [symmetric] db1_def [symmetric] del: One_nat_def)
qed

section \<open>Commission\<close>

text \<open>Of the three commission methods only the rate on the margin can accrue money when a sale is closed:
  the warehouse passes neither an actual profit nor a pocket amount, so the default bonus method and the
  tiers always give zero with a reason, and no flow is created.\<close>
theorem only_margin_rate_accrues:
  assumes "commission_method_of db \<noteq> MarginRate" "accrueCommission env u db = Inr db'"
  shows "gb_flows db' = gb_flows db \<and> (\<exists>r. gb_events db' = gb_events db @ [SaleClosed (ut_id u) r]
    \<and> cn_commission r = Fin 0 \<and> cn_note r \<noteq> None)"
proof -
  obtain r where r: "commission_of u db = Inr r" using assms(2) by (auto simp: accrueCommission_def success)
  have pocket: "pickTier DEFAULT_COMMISSION_TIERS m p = Some t \<Longrightarrow> ct_baseType t = NetPocket" for m p t
    using pickTier_best [of DEFAULT_COMMISSION_TIERS m p t] by (auto simp: DEFAULT_COMMISSION_TIERS_def general_tier_def)
  then have "commissionTiers s c q None None p = None" for s c q p
    by (auto simp: commissionTiers_def Let_def split: option.split)
  then have none: "\<exists>why. computeCommission m (commission_figures u k v) = no_commission m why" if "m \<noteq> MarginRate" for m k v
    using that by (cases m) (auto simp: computeCommission_def commission_figures_def Let_def split: option.split)
  obtain k v where "r = computeCommission (commission_method_of db) (commission_figures u k v)"
    using r by (auto simp: commission_of_def success Let_def)
  then have zero: "cn_commission r = Fin 0 \<and> cn_note r \<noteq> None"
    using none [OF assms(1), of k v] by (auto simp: no_commission_def)
  with assms(2) r show ?thesis by (auto simp: accrueCommission_def audit_def record_event_def)
qed

definition bonus_glob :: glob_db where
  "bonus_glob = sample_glob\<lparr>gb_config := \<lambda>_. None\<rparr>"

theorem only_margin_rate_accrues_witness:
  "\<exists>db'. accrueCommission (sample_env 1) sample_unit bonus_glob = Inr db' \<and> gb_flows db' = [sample_flow]"
proof -
  have m: "commission_method_of bonus_glob = FlatBonus"
    by (simp add: commission_method_of_def bonus_glob_def COMMISSION_METHODS_def)
  obtain c where c: "commission_of sample_unit bonus_glob = Inr c" "cn_commission c = Fin 0"
    using m by (simp add: commission_of_def unit_cost_def find_unit_def bonus_glob_def sample_glob_def sample_unit_def
        computeCommission_def commission_figures_def no_commission_def Let_def)
  then obtain db' where db': "accrueCommission (sample_env 1) sample_unit bonus_glob = Inr db'"
    by (simp add: accrueCommission_def)
  have "commission_method_of bonus_glob \<noteq> MarginRate" by (simp add: m)
  from only_margin_rate_accrues [OF this db'] have "gb_flows db' = gb_flows bonus_glob" by blast
  with db' show ?thesis by (simp add: bonus_glob_def sample_glob_def)
qed

text \<open>What an accrual adds.\<close>

lemma accrue_Inr:
  "accrueCommission env u db = Inr db' \<Longrightarrow> gb_flows db' \<noteq> gb_flows db \<Longrightarrow>
    \<exists>r a. commission_of u db = Inr r \<and> js_less (Fin 0) (cn_commission r) \<and> price_column (Some (cn_commission r)) = Inr (Some a)
      \<and> gb_flows db' = gb_flows db @ [commission_flow env u a] \<and> gb_units db' = gb_units db \<and> gb_config db' = gb_config db"
  by (auto simp: accrueCommission_def success insert_flow_def audit_def record_event_def
      split: if_split_asm option.split_asm)

lemma accrueI:
  assumes "commission_of u db = Inr r" "js_less (Fin 0) (cn_commission r)" "price_column (Some (cn_commission r)) = Inr (Some a)"
    "ge_newId env \<notin> mf_id ` set (gb_flows db)"
  shows "\<exists>db'. accrueCommission env u db = Inr db' \<and> gb_flows db' = gb_flows db @ [commission_flow env u a]"
  using assms by (simp add: accrueCommission_def insert_flow_def commission_flow_def ext_free_def)

lemma find_map_id:
  "(\<And>u. ut_id (f u) = ut_id u) \<Longrightarrow> find (\<lambda>u. ut_id u = i) us = Some u \<Longrightarrow>
    find (\<lambda>u. ut_id u = i) (map (\<lambda>u. if ut_id u = i then f u else u) us) = Some (f u)"
  by (induction us) (auto split: if_splits)

lemma find_unit_update:
  assumes "\<And>u. ut_id (f u) = ut_id u" "find_unit db i = Inr u" "gb_units db' = map (\<lambda>u. if ut_id u = i then f u else u) (gb_units db)"
  shows "find_unit db' i = Inr (f u)"
  using assms find_map_id [OF assms(1), of i "gb_units db"] by (auto simp: find_unit_def split: option.split_asm)

lemma commission_of_staged:
  assumes "find_unit db (ut_id u) = Inr a" "find_unit db' (ut_id u) = Inr a'" "ut_salesPrice a' = ut_salesPrice a"
    and "cost_flows (ut_id u) db' = cost_flows (ut_id u) db" "gb_config db' = gb_config db"
    and "ut_id u' = ut_id u" "ut_salesPrice u' = ut_salesPrice u"
  shows "commission_of u' db' = commission_of u db"
proof -
  have "unit_cost (ut_id u) db' = unit_cost (ut_id u) db" using assms(1-4) by (simp add: unit_cost_def)
  then show ?thesis using assms(5-7) by (simp add: commission_of_def commission_method_of_def commission_figures_def)
qed

lemma moved_back:
  assumes "setSalesStage env i s x db = Inr (db', v)" "s \<noteq> ''CLOSED''"
  shows "\<exists>u price. find_unit db i = Inr u \<and> v = staged s x price u
    \<and> db' = audit ''unit.sales_stage'' i (update_units (\<lambda>v. ut_id v = i) (staged s x price) db)"
  using assms by (auto simp: setSalesStage_def Let_def success split: if_split_asm)

text \<open>Closing a unit whose sale is in some stage: the stage is never asked for, only that there is one.\<close>

lemma close_accrues:
  assumes "find_unit db i = Inr u" "ut_salesStage u \<noteq> None"
    and "accrueCommission env (staged ''CLOSED'' no_extra None u)
      (audit ''unit.sales_stage'' i (update_units (\<lambda>v. ut_id v = i) (staged ''CLOSED'' no_extra None) db)) = Inr db2"
  shows "setSalesStage env i ''CLOSED'' no_extra db = Inr (db2, staged ''CLOSED'' no_extra None u)"
  using assms
  by (simp add: setSalesStage_def SALES_STAGES_def STAGES_REQUIRE_PRICE_def no_extra_def [THEN arg_cong [where f = sx_salesPrice]]
      price_ok_def price_column_def Let_def)

text \<open>C40. A sale is closed twice: when closing it accrued a commission, moving it back to another stage at the
  same price and closing it again is accepted and accrues the same amount once more, so both commissions
  are planned for the unit.\<close>
theorem reclosing_accrues_again:
  assumes first: "setSalesStage env i ''CLOSED'' x db = Inr (db1, v)" and accrued: "gb_flows db1 = gb_flows db @ [f]"
    and moved: "setSalesStage env0 i s y db1 = Inr (db2, w)" "s \<noteq> ''CLOSED''" "sx_salesPrice y = None"
    and fresh: "ge_newId env' \<notin> mf_id ` set (gb_flows db1)"
  shows "\<exists>db3 z g. setSalesStage env' i ''CLOSED'' no_extra db2 = Inr (db3, z) \<and> gb_flows db3 = gb_flows db @ [f, g]
    \<and> mf_amount g = mf_amount f \<and> mf_unitId f = Some i \<and> mf_unitId g = Some i
    \<and> mf_category f = Some ''commission'' \<and> mf_category g = Some ''commission''
    \<and> mf_status f = ''planned'' \<and> mf_status g = ''planned''"
proof -
  from setSalesStage_Inr [OF first] obtain u price db0 where u: "find_unit db i = Inr u" "v = staged ''CLOSED'' x price u"
    and db0: "db0 = audit ''unit.sales_stage'' i (update_units (\<lambda>v. ut_id v = i) (staged ''CLOSED'' x price) db)"
    and out: "db1 = db0 \<or> accrueCommission env v db0 = Inr db1 \<or> db1 = record_event (CommissionFailed i None) db0" by blast
  have flows0: "gb_flows db0 = gb_flows db" by (simp add: db0)
  with out accrued have acc: "accrueCommission env v db0 = Inr db1" "gb_flows db1 \<noteq> gb_flows db0" by auto
  from accrue_Inr [OF acc] obtain r a where r: "commission_of v db0 = Inr r" "js_less (Fin 0) (cn_commission r)"
    "price_column (Some (cn_commission r)) = Inr (Some a)" and f: "gb_flows db1 = gb_flows db0 @ [commission_flow env v a]"
    and same: "gb_units db1 = gb_units db0" "gb_config db1 = gb_config db0" by blast
  have id: "ut_id v = i" using u find_unit_Inr [OF u(1)] by simp
  have v0: "find_unit db0 i = Inr v" using u(1) by (simp add: db0 u(2) find_unit_update [where db = db])
  then have v1: "find_unit db1 i = Inr v" by (simp add: find_unit_def same)
  from moved_back [OF moved(1,2)] v1 obtain price2 where w: "w = staged s y price2 v"
    and db2: "db2 = audit ''unit.sales_stage'' i (update_units (\<lambda>v. ut_id v = i) (staged s y price2) db1)" by auto
  have w2: "find_unit db2 i = Inr w" using v1 by (simp add: db2 w find_unit_update [where db = db1])
  define z where "z = staged ''CLOSED'' no_extra None w"
  define db3 where "db3 = audit ''unit.sales_stage'' i (update_units (\<lambda>v. ut_id v = i) (staged ''CLOSED'' no_extra None) db2)"
  have z3: "find_unit db3 i = Inr z" using w2 by (simp add: db3_def z_def find_unit_update [where db = db2])
  have zv: "ut_id z = i" "ut_salesPrice z = ut_salesPrice v" "ut_salesStage w \<noteq> None"
    using id moved(3) by (simp_all add: z_def w staged_def no_extra_def)
  have flows3: "gb_flows db3 = gb_flows db1" by (simp add: db3_def db2)
  have config3: "gb_config db3 = gb_config db0" by (simp add: db3_def db2 same audit_def update_units_def)
  have "commission_of z db3 = commission_of v db0"
    using v0 z3 zv f by (intro commission_of_staged [of db0 v v db3 z])
      (simp_all add: id cost_flows_def flows3 commission_flow_def config3)
  then have "commission_of z db3 = Inr r" using r(1) by simp
  then obtain db4 where db4: "accrueCommission env' z db3 = Inr db4" "gb_flows db4 = gb_flows db1 @ [commission_flow env' z a]"
    using accrueI [of z db3 r a env'] r(2,3) fresh flows3 by auto
  have "setSalesStage env' i ''CLOSED'' no_extra db2 = Inr (db4, z)"
    using close_accrues [OF w2 zv(3), of env' db4] db4(1) by (simp add: z_def db3_def)
  moreover have "f = commission_flow env v a" using accrued f flows0 by simp
  moreover have "gb_flows db4 = gb_flows db @ [f, commission_flow env' z a]" using db4(2) accrued by simp
  ultimately show ?thesis using id zv(1) by (auto simp: commission_flow_def)
qed

lemma sample_close:
  "\<exists>db1 v f. setSalesStage (sample_env 1) ''u1'' ''CLOSED'' no_extra sample_glob = Inr (db1, v)
    \<and> gb_flows db1 = gb_flows sample_glob @ [f] \<and> mf_amount f = 32 \<and> mf_id f = ''n1''"
proof -
  define v where "v = staged ''CLOSED'' no_extra None sample_unit"
  define db0 where "db0 = audit ''unit.sales_stage'' ''u1'' (update_units (\<lambda>v. ut_id v = ''u1'') (staged ''CLOSED'' no_extra None) sample_glob)"
  have n1: "num_str 1 = ''1''" by code_simp
  have v: "find_unit db0 ''u1'' = Inr v" "ut_salesPrice v = Some 1000" "ut_id v = ''u1''"
    by (simp_all add: db0_def v_def find_unit_def sample_glob_def sample_unit_def staged_def no_extra_def)
  have "cost_flows ''u1'' db0 = [sample_flow]" "gb_config db0 = [''GR_COMMISSION_METHOD'' \<mapsto> ''margin_rate'']"
    by (simp_all add: db0_def cost_flows_def sample_glob_def sample_flow_def audit_def update_units_def)
  from sample_commission [OF v this] obtain db1 where db1: "accrueCommission (sample_env 1) v db0 = Inr db1"
    "gb_flows db1 = gb_flows db0 @ [commission_flow (sample_env 1) v 32]"
    using accrueI [of v db0 _ 32 "sample_env 1"]
    by (auto simp: price_column_def sample_column db0_def sample_glob_def sample_flow_def sample_env_def simp del: num_str.simps)
  have "find_unit sample_glob ''u1'' = Inr sample_unit" by (simp add: find_unit_def sample_glob_def sample_unit_def)
  then have "setSalesStage (sample_env 1) ''u1'' ''CLOSED'' no_extra sample_glob = Inr (db1, v)"
    using db1(1)
    by (simp add: setSalesStage_def SALES_STAGES_def STAGES_REQUIRE_PRICE_def no_extra_def [THEN arg_cong [where f = sx_salesPrice]]
        price_ok_def price_column_def v_def [symmetric] db0_def [symmetric] Let_def
        sample_unit_def [THEN arg_cong [where f = ut_status]] SALE_START_ALLOWED_def)
  with db1(2) n1 show ?thesis
    by (auto simp: commission_flow_def db0_def sample_env_def)
qed

theorem reclosing_accrues_again_witness:
  "\<exists>db1 v db2 w db3 z f g. setSalesStage (sample_env 1) ''u1'' ''CLOSED'' no_extra sample_glob = Inr (db1, v)
    \<and> setSalesStage (sample_env 2) ''u1'' ''NEGOTIATION'' no_extra db1 = Inr (db2, w)
    \<and> setSalesStage (sample_env 2) ''u1'' ''CLOSED'' no_extra db2 = Inr (db3, z)
    \<and> gb_flows db3 = gb_flows sample_glob @ [f, g] \<and> mf_amount f = 32 \<and> mf_amount g = 32"
proof -
  obtain db1 v f where one: "setSalesStage (sample_env 1) ''u1'' ''CLOSED'' no_extra sample_glob = Inr (db1, v)"
    and f: "gb_flows db1 = gb_flows sample_glob @ [f]" "mf_amount f = 32" "mf_id f = ''n1''" using sample_close by blast
  have n2: "num_str 2 = ''2''" by code_simp
  have new: "ge_newId (sample_env 2) \<notin> mf_id ` set (gb_flows db1)"
    by (simp add: f sample_env_def n2 sample_glob_def sample_flow_def)
  from setSalesStage_Inr [OF one] obtain u price db0 where u: "find_unit sample_glob ''u1'' = Inr u"
    and db0: "db0 = audit ''unit.sales_stage'' ''u1'' (update_units (\<lambda>v. ut_id v = ''u1'') (staged ''CLOSED'' no_extra price) sample_glob)"
    and out: "db1 = db0 \<or> accrueCommission (sample_env 1) v db0 = Inr db1 \<or> db1 = record_event (CommissionFailed ''u1'' None) db0" by blast
  have "gb_units db1 = gb_units db0" using out accrue_stock by (auto simp: same_stock_def)
  then have "find_unit db1 ''u1'' = Inr (staged ''CLOSED'' no_extra price u)"
    using find_unit_update [OF _ u, of "staged ''CLOSED'' no_extra price" db1] by (simp add: db0)
  then have "\<exists>db2 w. setSalesStage (sample_env 2) ''u1'' ''NEGOTIATION'' no_extra db1 = Inr (db2, w)"
    by (simp add: setSalesStage_def SALES_STAGES_def STAGES_REQUIRE_PRICE_def price_ok_def price_column_def no_extra_def staged_def Let_def)
  then obtain db2 w where two: "setSalesStage (sample_env 2) ''u1'' ''NEGOTIATION'' no_extra db1 = Inr (db2, w)" by blast
  have "sx_salesPrice no_extra = None" by (simp add: no_extra_def)
  from reclosing_accrues_again [OF one f(1) two _ this new] obtain db3 z g where
    "setSalesStage (sample_env 2) ''u1'' ''CLOSED'' no_extra db2 = Inr (db3, z)" "gb_flows db3 = gb_flows sample_glob @ [f, g]"
    "mf_amount g = mf_amount f" by auto
  with one two f(2) show ?thesis by metis
qed

section \<open>Signing\<close>

lemma pieces_length: "length (pieces is) = sum_list (map (\<lambda>item. nat (it_qty item)) is)"
  by (simp add: pieces_def length_concat comp_def)

lemma materialized_nth:
  "k < length (materialized env c n) \<Longrightarrow>
    materialized env c n ! k = contract_unit c (ge_ids env k) (pieces (ic_items c) ! k) (n + int k)"
  by (simp add: materialized_def nth_enumerate_eq)

lemma find_import_update:
  assumes "find_import db i = Inr c" "\<And>c. ic_id (k c) = ic_id c" "gb_imports db' = gb_imports (update_import i k db)"
  shows "find_import db' i = Inr (k c)"
proof -
  have "find (\<lambda>c. ic_id c = i) cs = Some c \<Longrightarrow>
      find (\<lambda>c. ic_id c = i) (map (\<lambda>c. if ic_id c = i then k c else c) cs) = Some (k c)" for cs
    using assms(2) by (induction cs) (auto split: if_splits)
  with assms(1,3) show ?thesis by (auto simp: find_import_def split: option.split_asm)
qed

lemma sign_draft:
  assumes "find_import db i = Inr c" "ic_status c = ''draft''"
    "\<And>k. \<exists>db1. materialize env i c (update_import i k db) = Inr db1"
    "\<And>n db1. createPaymentPlan env n c db1 = Inr db1"
  shows "\<exists>db'. sign env i db = Inr db'"
proof -
  obtain db1 where "materialize env i c (update_import i (\<lambda>c. c\<lparr>ic_status := ''in_progress'', ic_lifecycleStatus := LcSigned\<rparr>) db) = Inr db1"
    using assms(3) by blast
  then show ?thesis unfolding sign_def assms(1) by (simp add: assms(2,4))
qed

lemma materializeI:
  assumes "next_code (ic_orgId c) (gb_units db) = Inr n" "unit_keys (gb_units db @ materialized env c n)"
    "\<forall>u \<in> set (gb_units db). ut_importContractId u \<noteq> Some i"
  shows "\<exists>db1. materialize env i c db = Inr db1"
proof -
  have "check_unit_indexes (db\<lparr>gb_units := gb_units db @ materialized env c n\<rparr>)
      = Inr (db\<lparr>gb_units := gb_units db @ materialized env c n\<rparr>)"
    using assms(2) by (simp add: check_unit_indexes_def unit_keys_def)
  with assms(1,3) show ?thesis unfolding materialize_def by (simp add: list_ex_iff del: map_append distinct_append)
qed

text \<open>C34. Signing a draft contract creates one unit for every piece of its specification, in the order of the
  items, with consecutive warehouse codes after the highest of the organisation, all unique; the contract
  is then in progress, and signing it again is refused.\<close>
theorem signing_materializes_the_specification:
  assumes signed: "sign env i db = Inr db'" and c: "find_import db i = Inr c"
    and none: "Some i \<notin> ut_importContractId ` set (gb_units db)"
  shows "sign env' i db' = Inl (AlreadySigned ''in_progress'') \<and> (\<exists>n new. next_code (ic_orgId c) (gb_units db) = Inr n \<and> gb_units db' = gb_units db @ new \<and> unit_keys (gb_units db')
      \<and> length new = sum_list (map (\<lambda>item. nat (it_qty item)) (ic_items c))
      \<and> (\<forall>k < length new. ut_code (new ! k) = unit_code (n + int k) \<and> ut_status (new ! k) = ''CONTRACT_SIGNED''
          \<and> ut_importContractId (new ! k) = Some i \<and> ut_name (new ! k) = it_name (pieces (ic_items c) ! k)))"
proof -
  let ?k = "\<lambda>c. c\<lparr>ic_status := ''in_progress'', ic_lifecycleStatus := LcSigned\<rparr>"
  from sign_Inr [OF signed] c obtain db1 db2 where m: "materialize env i c (update_import i ?k db) = Inr db1"
    and p: "createPaymentPlan env (length (pieces (ic_items c))) c db1 = Inr db2"
    and db': "db' = record_event (ImportSigned i) (audit ''import.signed'' i db2)"
    by auto
  have id: "ic_id c = i" using c by (auto simp: find_import_def find_Some_iff split: option.split_asm)
  have "\<not> list_ex (\<lambda>u. ut_importContractId u = Some i) (gb_units (update_import i ?k db))"
    using none by (simp add: list_ex_iff) (metis image_eqI)
  with m obtain n where n: "next_code (ic_orgId c) (gb_units db) = Inr n" "unit_keys (gb_units db1)"
    and db1: "gb_units db1 = gb_units db @ materialized env c n" "gb_imports db1 = gb_imports (update_import i ?k db)"
    by (auto simp: materialize_def success check_unit_indexes_Inr)
  have stock: "gb_units db' = gb_units db1" "gb_imports db' = gb_imports db1"
    using plan_stock [OF p] by (simp_all add: db' same_stock_def)
  have len: "length (materialized env c n) = sum_list (map (\<lambda>item. nat (it_qty item)) (ic_items c))"
    by (simp add: materialized_def pieces_length)
  have nth: "\<forall>k < length (materialized env c n). ut_code (materialized env c n ! k) = unit_code (n + int k)
      \<and> ut_status (materialized env c n ! k) = ''CONTRACT_SIGNED'' \<and> ut_importContractId (materialized env c n ! k) = Some i
      \<and> ut_name (materialized env c n ! k) = it_name (pieces (ic_items c) ! k)"
    by (simp add: materialized_nth contract_unit_def id)
  have made: "\<exists>n new. next_code (ic_orgId c) (gb_units db) = Inr n \<and> gb_units db' = gb_units db @ new \<and> unit_keys (gb_units db')
      \<and> length new = sum_list (map (\<lambda>item. nat (it_qty item)) (ic_items c))
      \<and> (\<forall>k < length new. ut_code (new ! k) = unit_code (n + int k) \<and> ut_status (new ! k) = ''CONTRACT_SIGNED''
          \<and> ut_importContractId (new ! k) = Some i \<and> ut_name (new ! k) = it_name (pieces (ic_items c) ! k))"
    by (intro exI [of _ n] exI [of _ "materialized env c n"] conjI)
       (rule n(1), simp only: stock db1, simp only: stock n, rule len, rule nth)
  have "find_import db' i = Inr (?k c)" 
    by (rule find_import_update [of db i c ?k, OF c]) (simp_all only: stock db1, simp)
  then have "sign env' i db' = Inl (AlreadySigned ''in_progress'')" by (simp add: sign_def)
  with made show ?thesis by blast
qed

definition unscheduled_glob :: glob_db where
  "unscheduled_glob = sample_glob\<lparr>gb_imports := [sample_contract\<lparr>ic_prepaymentAmount := None, ic_balanceAmount := None\<rparr>]\<rparr>"

theorem signing_materializes_the_specification_witness:
  "\<exists>db'. sign (sample_env 1) ''c1'' unscheduled_glob = Inr db' \<and> length (gb_units db') = 3
    \<and> sign (sample_env 2) ''c1'' db' = Inl (AlreadySigned ''in_progress'')"
proof -
  let ?c = "sample_contract\<lparr>ic_prepaymentAmount := None, ic_balanceAmount := None\<rparr>"
  have codes: "code_number ''WH-0001'' = Some 1" "unit_code 2 = ''WH-0002''" "unit_code 3 = ''WH-0003''"
    "num_str 0 = ''0''" "num_str 1 = ''1''" by code_simp+
  have c: "find_import unscheduled_glob ''c1'' = Inr ?c"
    by (simp add: find_import_def unscheduled_glob_def sample_contract_def)
  have highest: "next_code ''o'' [sample_unit] = Inr 2"
    by (simp add: next_code_def sample_unit_def codes max0_def)
  have units: "materialized (sample_env 1) ?c 2
      = [contract_unit ?c ''n1-0'' \<lparr>it_modelId = None, it_name = ''CPCD30'', it_qty = 2, it_price = 450\<rparr> 2,
         contract_unit ?c ''n1-1'' \<lparr>it_modelId = None, it_name = ''CPCD30'', it_qty = 2, it_price = 450\<rparr> 3]"
    by (simp add: materialized_def pieces_def sample_contract_def sample_env_def numeral_2_eq_2 codes del: num_str.simps)
  have "unit_keys ([sample_unit] @ materialized (sample_env 1) ?c 2)"
    unfolding units by (simp add: unit_keys_def vins_unique_def codes_unique_def given_def contract_unit_def sample_unit_def codes)
  moreover have u: "gb_units (update_import ''c1'' k unscheduled_glob) = [sample_unit]" for k
    by (simp add: unscheduled_glob_def sample_glob_def)
  moreover have "ic_orgId ?c = ''o''" "ut_importContractId sample_unit = None"
    by (simp_all add: sample_contract_def sample_unit_def)
  ultimately have "\<exists>db1. materialize (sample_env 1) ''c1'' ?c (update_import ''c1'' k unscheduled_glob) = Inr db1" for k
    using highest by (intro materializeI) auto
  moreover have "createPaymentPlan (sample_env 1) n ?c db1 = Inr db1" for n db1
    by (simp add: createPaymentPlan_def mk_plan_def)
  moreover have "ic_status ?c = ''draft''" by (simp add: sample_contract_def)
  ultimately have "\<exists>db'. sign (sample_env 1) ''c1'' unscheduled_glob = Inr db'"
    by (intro sign_draft [OF c]) (simp_all only:)
  then obtain db' where s: "sign (sample_env 1) ''c1'' unscheduled_glob = Inr db'" by blast
  have "Some ''c1'' \<notin> ut_importContractId ` set (gb_units unscheduled_glob)"
    by (simp add: unscheduled_glob_def sample_glob_def sample_unit_def)
  then have "\<exists>new. gb_units db' = gb_units unscheduled_glob @ new \<and> length new = sum_list (map (\<lambda>item. nat (it_qty item)) (ic_items ?c))"
    and again: "sign (sample_env 2) ''c1'' db' = Inl (AlreadySigned ''in_progress'')"
    using signing_materializes_the_specification [OF s c, of "sample_env 2"] by blast+
  then obtain new where "gb_units db' = gb_units unscheduled_glob @ new" "length new = 2"
    by (auto simp: sample_contract_def)
  with again s show ?thesis by (simp add: unscheduled_glob_def sample_glob_def del: One_nat_def)
qed

end
