(* ===== verification/JsCollections.thy ===== *)
theory JsCollections
  imports Prelude "HOL-Library.Multiset" "HOL-Library.List_Lexorder"
begin

text \<open>
  The collections of the JavaScript standard library as the pure functions of Core use them: a \<open>Map\<close>
  keeps its keys in the order of their first insertion, \<open>sort\<close> with a comparator is stable,
  \<open>slice\<close> counts a negative start from the end.
\<close>

section \<open>Map\<close>

text \<open>\<open>map_put k f d m\<close> is \<open>m.set(k, f(m.get(k) ?? d))\<close>.\<close>

fun map_put :: "'k \<Rightarrow> ('v \<Rightarrow> 'v) \<Rightarrow> 'v \<Rightarrow> ('k \<times> 'v) list \<Rightarrow> ('k \<times> 'v) list" where
  "map_put k f d [] = [(k, f d)]"
| "map_put k f d ((k', v) # m) = (if k' = k then (k', f v) # m else (k', v) # map_put k f d m)"

definition map_get :: "'k \<Rightarrow> 'v \<Rightarrow> ('k \<times> 'v) list \<Rightarrow> 'v" where
  "map_get k d m = (case map_of m k of None \<Rightarrow> d | Some v \<Rightarrow> v)"

lemma map_of_put: "map_of (map_put k f d m) = (map_of m)(k \<mapsto> f (map_get k d m))"
  by (induction k f d m rule: map_put.induct) (auto simp: map_get_def fun_eq_iff split: option.split)

lemma keys_put [simp]: "fst ` set (map_put k f d m) = insert k (fst ` set m)"
  by (induction k f d m rule: map_put.induct) auto

lemma distinct_put: "distinct (map fst m) \<Longrightarrow> distinct (map fst (map_put k f d m))"
proof (induction k f d m rule: map_put.induct)
  case (2 k f d k' v m)
  have "fst ` set (map_put k f d m) = insert k (fst ` set m)" by simp
  with 2 show ?case by auto
qed simp

lemma map_get_put [simp]: "map_get k' e (map_put k f d m) = (if k' = k then f (map_get k d m) else map_get k' e m)"
  by (simp add: map_get_def map_of_put)

text \<open>What a sum over the values gains.\<close>

lemma sum_put:
  fixes g :: "'v \<Rightarrow> 'n::ab_group_add"
  assumes "distinct (map fst m)" "g d = 0"
  shows "sum_list (map (\<lambda>p. g (snd p)) (map_put k f d m))
    = sum_list (map (\<lambda>p. g (snd p)) m) + (g (f (map_get k d m)) - g (map_get k d m))"
  using assms(1)
proof (induction m)
  case Nil
  then show ?case by (simp add: map_get_def assms(2))
next
  case (Cons p m)
  obtain k' v where p: "p = (k', v)" by fastforce
  have "map_of m k = None" if "k' = k" using Cons.prems that p by (auto simp: map_of_eq_None_iff)
  with Cons p show ?case by (auto simp: map_get_def algebra_simps)
qed

lemma set_put: "x \<in> set (map_put k f d m) \<Longrightarrow> x \<in> set m \<or> (fst x = k \<and> (snd x = f d \<or> (\<exists>v. (k, v) \<in> set m \<and> snd x = f v)))"
  by (induction k f d m rule: map_put.induct) (auto split: if_splits)

section \<open>Stable sort\<close>

text \<open>\<open>bef a b\<close> says that the comparator is negative on \<open>a, b\<close>.\<close>

fun insert_sorted :: "('a \<Rightarrow> 'a \<Rightarrow> bool) \<Rightarrow> 'a \<Rightarrow> 'a list \<Rightarrow> 'a list" where
  "insert_sorted bef x [] = [x]"
| "insert_sorted bef x (y # ys) = (if bef y x then y # insert_sorted bef x ys else x # y # ys)"

definition js_sort :: "('a \<Rightarrow> 'a \<Rightarrow> bool) \<Rightarrow> 'a list \<Rightarrow> 'a list" where
  "js_sort bef xs = foldr (insert_sorted bef) xs []"

lemma mset_insert_sorted [simp]: "mset (insert_sorted bef x ys) = add_mset x (mset ys)"
  by (induction ys) auto

lemma mset_js_sort [simp]: "mset (js_sort bef xs) = mset xs"
  by (induction xs) (simp_all add: js_sort_def)

lemma set_js_sort [simp]: "set (js_sort bef xs) = set xs"
  by (metis mset_js_sort set_mset_mset)

lemma length_js_sort [simp]: "length (js_sort bef xs) = length xs"
  by (metis mset_js_sort size_mset)

text \<open>With a comparator that is a strict weak order the result is sorted.\<close>

definition weak_order :: "('a \<Rightarrow> 'a \<Rightarrow> bool) \<Rightarrow> bool" where
  "weak_order bef \<longleftrightarrow> (\<forall>a b. bef a b \<longrightarrow> \<not> bef b a) \<and> (\<forall>a b c. \<not> bef b a \<longrightarrow> \<not> bef c b \<longrightarrow> \<not> bef c a)"

lemma weak_order_key: "weak_order (\<lambda>a b. key a < (key b :: 'k::linorder))"
  by (auto simp: weak_order_def)

lemma sorted_insert_sorted:
  assumes "weak_order bef" "sorted_wrt (\<lambda>a b. \<not> bef b a) ys"
  shows "sorted_wrt (\<lambda>a b. \<not> bef b a) (insert_sorted bef x ys)"
  using assms(2)
proof (induction ys)
  case (Cons y ys)
  have "set (insert_sorted bef x ys) = insert x (set ys)"
    by (metis mset_insert_sorted set_mset_add_mset_insert set_mset_mset)
  moreover have "\<not> bef z x" if "\<not> bef y x" "z \<in> set ys" for z
  proof -
    have "\<not> bef z y" using Cons.prems that(2) by simp
    with that(1) assms(1) show ?thesis unfolding weak_order_def by blast
  qed
  moreover have "\<not> bef x y" if "bef y x" using that assms(1) unfolding weak_order_def by blast
  ultimately show ?case using Cons by auto
qed simp

lemma sorted_js_sort: "weak_order bef \<Longrightarrow> sorted_wrt (\<lambda>a b. \<not> bef b a) (js_sort bef xs)"
  by (induction xs) (simp_all add: js_sort_def sorted_insert_sorted)

lemma sorted_js_sort_key: "sorted (map key (js_sort (\<lambda>a b. key a < key b) xs))" for key :: "'a \<Rightarrow> 'k::linorder"
  using sorted_js_sort [OF weak_order_key, of key xs] by (simp add: sorted_wrt_map not_less)

section \<open>slice\<close>

text \<open>\<open>xs.slice(-n)\<close>: a negative zero is the start of the list.\<close>

definition slice_last :: "nat \<Rightarrow> 'a list \<Rightarrow> 'a list" where
  "slice_last n xs = (if n = 0 then xs else drop (length xs - n) xs)"

lemma length_slice_last: "0 < n \<Longrightarrow> length (slice_last n xs) \<le> n"
  by (simp add: slice_last_def)

lemma set_slice_last: "set (slice_last n xs) \<subseteq> set xs"
  by (auto simp: slice_last_def dest: in_set_dropD)

end
