(* ===== verification/ApprovalState.thy ===== *)
theory ApprovalState
  imports Json JsCollections
begin

text \<open>
  The queue of approvals of Core and the tables that a decision writes,
  \<^verbatim>\<open>packages/db/src/schema.ts\<close>.

  A payload is a JSON value.  A transaction is a function from the tables to an error or to the new
  tables; the constraints of a table are errors of the insert.  What PostgreSQL takes for a uuid or a
  date, and the ids of new rows, are the environment.  A text is a sequence of code units below 256;
  the one Cyrillic constant stands as its UTF-8 bytes.  Time stamps, notes and foreign keys are left out.
\<close>

section \<open>Rows\<close>

datatype decision = Pending | Approved | Rejected | Clarify

record approval_row =
  ap_id :: string
  ap_agent :: string
  ap_action :: string
  ap_tier :: string
  ap_payload :: json
  ap_decision :: decision
  ap_clientKey :: "string option"

record event_row =
  ev_source :: string
  ev_type :: string
  ev_payload :: json
  ev_clientKey :: "string option"

record entity_row =
  en_id :: string
  en_orgId :: "string option"
  en_type :: string
  en_name :: string
  en_externalRef :: "string option"
  en_attrs :: json
  en_approved :: bool
  en_approvedBy :: "string option"
  en_createdFrom :: "string option"

record draft_row =
  dr_entityId :: string
  dr_field :: string
  dr_value :: string

record refill_row =
  rf_id :: string
  rf_locationId :: string
  rf_position :: int
  rf_containerNumber :: "int option"
  rf_filledWeight :: int
  rf_measuredBefore :: "int option"
  rf_packageCount :: "int option"
  rf_enteredDate :: string
  rf_stockMovementId :: "string option"
  rf_createdBy :: "string option"

record return_row =
  rt_id :: string
  rt_position :: int
  rt_containerNumber :: int
  rt_weight :: int
  rt_returnedDate :: string
  rt_locationNote :: "string option"
  rt_createdBy :: "string option"

record consumable_row =
  cu_id :: string
  cu_locationId :: string
  cu_loggedDate :: string
  cu_water :: int
  cu_cups :: int
  cu_lids :: int
  cu_createdBy :: "string option"

record order_row =
  or_id :: string
  or_approvalId :: string
  or_positions :: "json list"
  or_totalBuy :: int
  or_totalOrder :: int
  or_costExact :: rat
  or_costRounded :: rat
  or_createdBy :: "string option"

record audit_row =
  au_actor :: string
  au_action :: string
  au_target :: string

record appr_db =
  db_approvals :: "approval_row list"
  db_events :: "event_row list"
  db_audit :: "audit_row list"
  db_orgs :: "(string \<times> string) list"
  db_entities :: "entity_row list"
  db_drafts :: "draft_row list"
  db_refills :: "refill_row list"
  db_movements :: "string list"
  db_returns :: "return_row list"
  db_consumables :: "consumable_row list"
  db_orders :: "order_row list"

record appr_env =
  ae_isUuid :: "string \<Rightarrow> bool"
  ae_isDate :: "string \<Rightarrow> bool"
  ae_id :: "string \<Rightarrow> nat \<Rightarrow> string"

datatype appr_error =
    StillSaving
  | KeyConflict
  | ApprovalNotFound
  | AlreadyDecided decision
  | SqlError
  | NullRecord

section \<open>Constraints of the tables\<close>

definition int32 :: "int \<Rightarrow> bool" where
  "int32 n \<longleftrightarrow> - (2 ^ 31) \<le> n \<and> n < 2 ^ 31"

definition sql_check :: "bool \<Rightarrow> 'a \<Rightarrow> appr_error + 'a" where
  "sql_check b x = (if b then Inr x else Inl SqlError)"

text \<open>A truncated number bound to an integer column; \<open>None\<close> is NaN, which is no integer text.\<close>

definition int_column :: "int option \<Rightarrow> appr_error + int" where
  "int_column v = (case v of Some n \<Rightarrow> sql_check (int32 n) n | None \<Rightarrow> Inl SqlError)"

definition opt_int_column :: "int option \<Rightarrow> appr_error + int option" where
  "opt_int_column v = (case v of None \<Rightarrow> Inr None | Some n \<Rightarrow> sql_check (int32 n) (Some n))"

definition contractor_unique :: "entity_row list \<Rightarrow> bool" where
  "contractor_unique es \<longleftrightarrow>
     distinct (map en_externalRef
       (filter (\<lambda>e. en_type e = ''contractor'' \<and> en_externalRef e \<noteq> None \<and> en_externalRef e \<noteq> Some []) es))"

definition insert_entity :: "entity_row \<Rightarrow> appr_db \<Rightarrow> appr_error + appr_db" where
  "insert_entity e db =
     (let es = db_entities db @ [e] in
      sql_check (distinct (map en_id es) \<and> contractor_unique es) (db\<lparr>db_entities := es\<rparr>))"

definition keys_unique :: "('a \<Rightarrow> string option) \<Rightarrow> 'a list \<Rightarrow> bool" where
  "keys_unique key xs \<longleftrightarrow> distinct (filter (\<lambda>k. k \<noteq> None) (map key xs))"

definition insert_event :: "event_row \<Rightarrow> appr_db \<Rightarrow> appr_error + appr_db" where
  "insert_event e db =
     (let es = db_events db @ [e] in sql_check (keys_unique ev_clientKey es) (db\<lparr>db_events := es\<rparr>))"

definition log_audit :: "string \<Rightarrow> string \<Rightarrow> string \<Rightarrow> appr_db \<Rightarrow> appr_db" where
  "log_audit actor action target db =
     db\<lparr>db_audit := db_audit db @ [\<lparr>au_actor = actor, au_action = action, au_target = target\<rparr>]\<rparr>"

definition insert_refill :: "appr_env \<Rightarrow> refill_row \<Rightarrow> appr_db \<Rightarrow> appr_error + appr_db" where
  "insert_refill E r db =
     sql_check (rf_id r \<notin> rf_id ` set (db_refills db) \<and> ae_isDate E (rf_enteredDate r)
         \<and> 1 \<le> rf_position r \<and> rf_position r \<le> 8
         \<and> (case rf_containerNumber r of None \<Rightarrow> True | Some n \<Rightarrow> 1 \<le> n \<and> n \<le> 27))
       (db\<lparr>db_refills := db_refills db @ [r]\<rparr>)"

definition insert_return :: "appr_env \<Rightarrow> return_row \<Rightarrow> appr_db \<Rightarrow> appr_error + appr_db" where
  "insert_return E r db =
     sql_check (rt_id r \<notin> rt_id ` set (db_returns db) \<and> ae_isDate E (rt_returnedDate r)
         \<and> 1 \<le> rt_position r \<and> rt_position r \<le> 8 \<and> 1 \<le> rt_containerNumber r \<and> rt_containerNumber r \<le> 27
         \<and> 0 \<le> rt_weight r \<and> rt_weight r \<le> 10000)
       (db\<lparr>db_returns := db_returns db @ [r]\<rparr>)"

text \<open>\<open>on conflict (location_id, logged_date) do update\<close> of the three counts.\<close>

definition upsert_consumable :: "appr_env \<Rightarrow> consumable_row \<Rightarrow> appr_db \<Rightarrow> appr_error + appr_db" where
  "upsert_consumable E c db =
     (if \<not> ae_isDate E (cu_loggedDate c) then Inl SqlError
      else if list_ex (\<lambda>x. cu_locationId x = cu_locationId c \<and> cu_loggedDate x = cu_loggedDate c) (db_consumables db)
      then Inr (db\<lparr>db_consumables := map (\<lambda>x.
          if cu_locationId x = cu_locationId c \<and> cu_loggedDate x = cu_loggedDate c
          then x\<lparr>cu_water := cu_water c, cu_cups := cu_cups c, cu_lids := cu_lids c\<rparr> else x) (db_consumables db)\<rparr>)
      else sql_check (cu_id c \<notin> cu_id ` set (db_consumables db))
        (db\<lparr>db_consumables := db_consumables db @ [c]\<rparr>))"

definition insert_order :: "order_row \<Rightarrow> appr_db \<Rightarrow> appr_error + appr_db" where
  "insert_order r db =
     sql_check (or_id r \<notin> or_id ` set (db_orders db) \<and> or_approvalId r \<notin> or_approvalId ` set (db_orders db)
         \<and> int32 (or_totalBuy r) \<and> int32 (or_totalOrder r)
         \<and> \<bar>or_costExact r\<bar> < 10 ^ 12 \<and> \<bar>or_costRounded r\<bar> < 10 ^ 12)
       (db\<lparr>db_orders := db_orders db @ [r]\<rparr>)"

fun foldM_res :: "('a \<Rightarrow> 's \<Rightarrow> 'e + 's) \<Rightarrow> 'a list \<Rightarrow> 's \<Rightarrow> 'e + 's" where
  "foldM_res f [] s = Inr s"
| "foldM_res f (x # xs) s = rbind (f x s) (foldM_res f xs)"

end
