(* ===== verification/Approvals.thy ===== *)
theory Approvals
  imports ApprovalState LedgerPolicy GlobState
begin

text \<open>
  The queue of approvals, \<^verbatim>\<open>apps/core/src/approvals/approvals.service.ts\<close>: an agent requests,
  the owner decides once, and the decision is carried out in the same transaction.  \<open>H\<close> is SHA-256.
\<close>

section \<open>Reading an unknown payload\<close>

definition prop_str :: "json option \<Rightarrow> string option" where
  "prop_str v = (case v of Some (JStr s) \<Rightarrow> Some s | _ \<Rightarrow> None)"

definition prop_arr :: "json option \<Rightarrow> json list" where
  "prop_arr v = (case v of Some (JArr vs) \<Rightarrow> vs | _ \<Rightarrow> [])"

definition prop_num :: "json option \<Rightarrow> rat option" where
  "prop_num v = (case v of Some (JNum (Fin q)) \<Rightarrow> Some q | _ \<Rightarrow> None)"

definition prop_obj :: "json option \<Rightarrow> json option" where
  "prop_obj v = (case v of Some (JObj kvs) \<Rightarrow> Some (JObj kvs) | Some (JArr vs) \<Rightarrow> Some (JArr vs) | _ \<Rightarrow> None)"

definition truthy :: "json option \<Rightarrow> bool" where
  "truthy v = (case v of
     None \<Rightarrow> False | Some JNull \<Rightarrow> False | Some (JBool b) \<Rightarrow> b | Some (JStr s) \<Rightarrow> s \<noteq> []
   | Some (JNum n) \<Rightarrow> n \<noteq> NaN \<and> n \<noteq> Fin 0 | Some _ \<Rightarrow> True)"

definition js_trunc :: "rat \<Rightarrow> int" where
  "js_trunc q = (if 0 \<le> q then \<lfloor>q\<rfloor> else \<lceil>q\<rceil>)"

text \<open>\<open>typeof v === "number" ? Math.trunc(v) : NaN\<close>; NaN is \<open>None\<close> and no comparison holds of it.\<close>

definition trunc_num :: "json option \<Rightarrow> int option" where
  "trunc_num v = map_option js_trunc (prop_num v)"

definition outside :: "int \<Rightarrow> int \<Rightarrow> int option \<Rightarrow> bool" where
  "outside lo hi v = (case v of None \<Rightarrow> False | Some n \<Rightarrow> n < lo \<or> hi < n)"

text \<open>A property of a record; reading one of \<open>null\<close> throws.\<close>

definition not_null :: "json \<Rightarrow> appr_error + unit" where
  "not_null r = (if r = JNull then Inl NullRecord else Inr ())"

section \<open>Request\<close>

record approval_request =
  rq_agent :: string
  rq_action :: string
  rq_tier :: string
  rq_payload :: "json option"
  rq_clientKey :: "string option"

definition payload_of :: "approval_request \<Rightarrow> json" where
  "payload_of rq = (case rq_payload rq of None \<Rightarrow> JObj [] | Some p \<Rightarrow> p)"

definition approval_json :: "string \<Rightarrow> string \<Rightarrow> string \<Rightarrow> json \<Rightarrow> json" where
  "approval_json agent action tier payload =
     JObj [(''agent'', JStr agent), (''action'', JStr action), (''tier'', JStr tier), (''payload'', payload)]"

definition new_approval :: "appr_env \<Rightarrow> approval_request \<Rightarrow> appr_db \<Rightarrow> approval_row" where
  "new_approval E rq db =
     \<lparr>ap_id = ae_id E ''approval'' (length (db_approvals db)), ap_agent = rq_agent rq, ap_action = rq_action rq,
      ap_tier = rq_tier rq, ap_payload = payload_of rq, ap_decision = Pending, ap_clientKey = rq_clientKey rq\<rparr>"

definition requested_key :: "string option \<Rightarrow> string option" where
  "requested_key k = (case k of None \<Rightarrow> None | Some s \<Rightarrow> if s = [] then None else Some (s @ '':requested''))"

definition request_approval ::
  "appr_env \<Rightarrow> (json \<Rightarrow> string) \<Rightarrow> approval_request \<Rightarrow> appr_db \<Rightarrow> appr_error + appr_db \<times> approval_row" where
  "request_approval E H rq db =
     (let known = (case rq_clientKey rq of None \<Rightarrow> None
                   | Some k \<Rightarrow> find (\<lambda>a. ap_clientKey a = Some k) (db_approvals db)) in
      case known of
        Some a \<Rightarrow>
          if hashLedgerPayload H (approval_json (rq_agent rq) (rq_action rq) (rq_tier rq) (payload_of rq))
             \<noteq> hashLedgerPayload H (approval_json (ap_agent a) (ap_action a) (ap_tier a) (ap_payload a))
          then Inl KeyConflict else Inr (db, a)
      | None \<Rightarrow>
          (let a = new_approval E rq db in
           if ap_id a \<in> ap_id ` set (db_approvals db) then Inl SqlError
           else
             rbind (insert_event
               \<lparr>ev_source = ''agent:'' @ rq_agent rq, ev_type = ''approval.requested'',
                ev_payload = JObj [(''approvalId'', JStr (ap_id a)), (''action'', JStr (rq_action rq)), (''tier'', JStr (rq_tier rq))],
                ev_clientKey = requested_key (rq_clientKey rq)\<rparr>
               (db\<lparr>db_approvals := db_approvals db @ [a]\<rparr>)) (\<lambda>db1.
             Inr (log_audit (rq_agent rq) ''approval.request'' (ap_id a) db1, a))))"

section \<open>Rejection of a back-dated record\<close>

definition executeBackdatedReject :: "appr_env \<Rightarrow> approval_row \<Rightarrow> string \<Rightarrow> appr_db \<Rightarrow> appr_error + appr_db" where
  "executeBackdatedReject E row actor db =
     (case get_prop (ap_payload row) ''backdatedRecord'' of
        None \<Rightarrow> Inr db
      | Some rec \<Rightarrow>
          if get_prop rec ''kind'' \<noteq> Some (JStr ''coffee_refill'') then Inr db
          else (case prop_str (get_prop rec ''rowId'') of
            None \<Rightarrow> Inr db
          | Some i \<Rightarrow>
              if \<not> ae_isUuid E i then Inl SqlError
              else (case find (\<lambda>r. rf_id r = i) (db_refills db) of
                None \<Rightarrow> Inr db
              | Some refill \<Rightarrow>
                  (let db1 = db\<lparr>db_refills := filter (\<lambda>r. rf_id r \<noteq> i) (db_refills db)\<rparr>;
                       db2 = (case rf_stockMovementId refill of
                                Some m \<Rightarrow> if m = [] then db1 else db1\<lparr>db_movements := filter (\<lambda>x. x \<noteq> m) (db_movements db1)\<rparr>
                              | None \<Rightarrow> db1) in
                   Inr (log_audit actor ''coffee.refill.delete'' i db2)))))"

section \<open>Approval of a card\<close>

text \<open>The field that renames the card, a Cyrillic word.\<close>

definition NAME_FIELD :: string where
  "NAME_FIELD = map char_of [0xD0::nat, 0xBD, 0xD0, 0xB0, 0xD0, 0xB7, 0xD0, 0xB2, 0xD0, 0xB0, 0xD0, 0xBD, 0xD0, 0xB8, 0xD0, 0xB5]"

definition spread :: "json \<Rightarrow> (string \<times> json) list" where
  "spread j = (case j of
     JObj kvs \<Rightarrow> kvs
   | JArr vs \<Rightarrow> zip (map (num_str \<circ> int) [0..<length vs]) vs
   | JStr s \<Rightarrow> zip (map (num_str \<circ> int) [0..<length s]) (map (\<lambda>c. JStr [c]) s)
   | _ \<Rightarrow> [])"

definition apply_draft :: "draft_row \<Rightarrow> string \<times> (string \<times> json) list \<Rightarrow> string \<times> (string \<times> json) list" where
  "apply_draft d na = (if dr_field d = NAME_FIELD then (dr_value d, snd na)
     else (fst na, obj_put (dr_field d) (JStr (dr_value d)) (snd na)))"

definition executeEntityApprove :: "appr_env \<Rightarrow> approval_row \<Rightarrow> string \<Rightarrow> appr_db \<Rightarrow> appr_error + appr_db" where
  "executeEntityApprove E row actor db =
     (let v = (case get_prop (ap_payload row) ''entityApprove'' of None \<Rightarrow> None | Some e \<Rightarrow> get_prop e ''entityId'') in
      if \<not> truthy v then Inr db
      else (case prop_str v of
        None \<Rightarrow> Inl SqlError
      | Some i \<Rightarrow>
          if \<not> ae_isUuid E i then Inl SqlError
          else (case find (\<lambda>e. en_id e = i) (db_entities db) of
            None \<Rightarrow> Inr db
          | Some c \<Rightarrow>
              if en_approved c then Inr db
              else
                (let (name, attrs) = fold apply_draft (filter (\<lambda>d. dr_entityId d = i) (db_drafts db))
                       (en_name c, spread (en_attrs c)) in
                 Inr (log_audit actor ''entity.approve'' i
                   (db\<lparr>db_drafts := filter (\<lambda>d. dr_entityId d \<noteq> i) (db_drafts db),
                       db_entities := map (\<lambda>e. if en_id e = i
                         then e\<lparr>en_name := name, en_attrs := JObj attrs, en_approved := True, en_approvedBy := Some actor\<rparr> else e)
                         (db_entities db)\<rparr>))))))"

section \<open>Import of cards\<close>

definition DOMAINS :: "string list" where
  "DOMAINS = [''globerent'', ''vendhub'', ''personal'', ''mydon'']"

definition import_ref :: "json \<Rightarrow> string option" where
  "import_ref rec = (case prop_str (get_prop rec ''externalRef'') of
     Some s \<Rightarrow> if s = [] then None else Some (take 256 s) | None \<Rightarrow> None)"

definition same_card :: "string \<Rightarrow> string \<Rightarrow> string option \<Rightarrow> string \<Rightarrow> entity_row \<Rightarrow> bool" where
  "same_card org type ref name e \<longleftrightarrow> en_orgId e = Some org \<and> en_type e = type
     \<and> (if ref \<noteq> None then en_externalRef e = ref else en_name e = name)"

definition import_attrs :: "json \<Rightarrow> json" where
  "import_attrs rec = (case prop_obj (get_prop rec ''attrs'') of Some a \<Rightarrow> a | None \<Rightarrow> JObj [])"

definition import_name :: "json \<Rightarrow> string" where
  "import_name rec = (case prop_str (get_prop rec ''name'') of Some s \<Rightarrow> take 512 (js_trim s) | None \<Rightarrow> [])"

definition import_card :: "appr_env \<Rightarrow> approval_row \<Rightarrow> string \<Rightarrow> string \<Rightarrow> string \<Rightarrow> json \<Rightarrow> appr_db \<Rightarrow> entity_row" where
  "import_card E row actor org type rec db =
     \<lparr>en_id = ae_id E ''entity'' (length (db_entities db)), en_orgId = Some org, en_type = type, en_name = import_name rec,
      en_externalRef = import_ref rec, en_attrs = import_attrs rec, en_approved = True, en_approvedBy = Some actor,
      en_createdFrom = Some (''approval:'' @ ap_agent row)\<rparr>"

definition import_step ::
  "appr_env \<Rightarrow> approval_row \<Rightarrow> string \<Rightarrow> string \<Rightarrow> string \<Rightarrow> json \<Rightarrow> appr_db \<times> int \<times> int \<Rightarrow> appr_error + appr_db \<times> int \<times> int" where
  "import_step E row actor org type rec st =
     (case st of (db, created, skipped) \<Rightarrow>
      rbind (not_null rec) (\<lambda>_.
      if import_name rec = [] then Inr (db, created, skipped)
      else if list_ex (same_card org type (import_ref rec) (import_name rec)) (db_entities db)
      then Inr (db, created, skipped + 1)
      else
        (let e = import_card E row actor org type rec db in
         rbind (insert_entity e db) (\<lambda>db1. Inr (log_audit actor ''entity.create'' (en_id e) db1, created + 1, skipped)))))"

definition owner_event :: "string \<Rightarrow> (string \<times> json) list \<Rightarrow> appr_db \<Rightarrow> appr_error + appr_db" where
  "owner_event type payload =
     insert_event \<lparr>ev_source = ''owner'', ev_type = type, ev_payload = JObj payload, ev_clientKey = None\<rparr>"

definition executeImport :: "appr_env \<Rightarrow> approval_row \<Rightarrow> string \<Rightarrow> appr_db \<Rightarrow> appr_error + appr_db" where
  "executeImport E row actor db =
     (case prop_obj (get_prop (ap_payload row) ''import'') of
        None \<Rightarrow> Inr db
      | Some imp \<Rightarrow>
          (let dm = (case prop_str (get_prop imp ''domain'') of Some s \<Rightarrow> s | None \<Rightarrow> []);
               type = (case prop_str (get_prop imp ''type'') of Some s \<Rightarrow> take 64 s | None \<Rightarrow> []);
               records = take 500 (prop_arr (get_prop imp ''records'')) in
           if dm \<notin> set DOMAINS \<or> type = [] \<or> records = [] then Inr db
           else (case map_of (db_orgs db) dm of
             None \<Rightarrow> Inr db
           | Some org \<Rightarrow>
               rbind (foldM_res (import_step E row actor org type) records (db, 0, 0)) (\<lambda>(db1, created, skipped).
               owner_event ''import.executed'' [(''approvalId'', JStr (ap_id row)), (''domain'', JStr dm), (''type'', JStr type),
                 (''created'', JInt created), (''skipped'', JInt skipped)] db1))))"

section \<open>Purchase order\<close>

text \<open>\<open>toFixed(2)\<close> into a column of two digits, and a whole number.  The money text of the event is
  left out.\<close>

definition order_money :: "json option \<Rightarrow> rat" where
  "order_money v = (case prop_num v of
     Some q \<Rightarrow> (let r = of_int \<lfloor>\<bar>q\<bar> * 100 + 1 / 2\<rfloor> / 100 in if q < 0 then - r else r) | None \<Rightarrow> 0)"

definition order_int :: "json option \<Rightarrow> int" where
  "order_int v = (case trunc_num v of Some n \<Rightarrow> n | None \<Rightarrow> 0)"

definition executePurchaseOrder :: "appr_env \<Rightarrow> approval_row \<Rightarrow> string \<Rightarrow> appr_db \<Rightarrow> appr_error + appr_db" where
  "executePurchaseOrder E row actor db =
     (case prop_obj (get_prop (ap_payload row) ''purchaseOrder'') of
        None \<Rightarrow> Inr db
      | Some po \<Rightarrow>
          (let positions = prop_arr (get_prop po ''positions'') in
           if positions = [] then Inr db
           else
             (let r = \<lparr>or_id = ae_id E ''order'' (length (db_orders db)), or_approvalId = ap_id row, or_positions = positions,
                    or_totalBuy = order_int (get_prop po ''totalBuy''), or_totalOrder = order_int (get_prop po ''totalOrder''),
                    or_costExact = order_money (get_prop po ''costExact''), or_costRounded = order_money (get_prop po ''costRounded''),
                    or_createdBy = map_option (take 128) (prop_str (get_prop po ''createdBy''))\<rparr> in
              rbind (insert_order r db) (\<lambda>db1.
              rbind (owner_event ''vending.purchase_order.created'' [(''approvalId'', JStr (ap_id row)), (''orderId'', JStr (or_id r)),
                (''positions'', JInt (int (length positions)))] db1) (\<lambda>db2.
              Inr (log_audit actor ''vending.purchase_order.create'' (or_id r) db2))))))"

end
