(* ===== verification/CoffeeImport.thy ===== *)
theory CoffeeImport
  imports Approvals
begin

text \<open>
  The history of the coffee bunkers that an approval imports, \<open>executeCoffeeImport\<close> of
  \<^verbatim>\<open>approvals.service.ts\<close>, and the decision itself.  A chunked insert is the insert of its rows in
  order; a row number that the code leaves as NaN is \<open>None\<close> until the database refuses it.
\<close>

section \<open>Locations\<close>

text \<open>The known locations and the index by lower-case name, later entries first.\<close>

record places =
  pl_ids :: "string list"
  pl_names :: "(string \<times> string) list"

definition known_places :: "appr_db \<Rightarrow> places" where
  "known_places db =
     (let ls = filter (\<lambda>e. en_type e = ''location'') (db_entities db) in
      \<lparr>pl_ids = map en_id ls, pl_names = rev (map (\<lambda>e. (js_trim (js_lower (en_name e)), en_id e)) ls)\<rparr>)"

definition new_location ::
  "appr_env \<Rightarrow> string \<Rightarrow> string option \<Rightarrow> json \<Rightarrow> appr_db \<times> places \<times> int \<Rightarrow> appr_error + appr_db \<times> places \<times> int" where
  "new_location E actor org n st =
     (case st of (db, pl, created) \<Rightarrow>
      (let name = (case prop_str (Some n) of Some s \<Rightarrow> take 128 (js_trim s) | None \<Rightarrow> []) in
       if length name < 2 \<or> map_of (pl_names pl) (js_lower name) \<noteq> None then Inr st
       else
         (let e = \<lparr>en_id = ae_id E ''entity'' (length (db_entities db)), en_orgId = org, en_type = ''location'', en_name = name,
                en_externalRef = None, en_attrs = JObj [], en_approved = True, en_approvedBy = Some actor,
                en_createdFrom = Some ''coffee-import''\<rparr> in
          rbind (insert_entity e db) (\<lambda>db1.
          Inr (db1, \<lparr>pl_ids = en_id e # pl_ids pl, pl_names = (js_lower name, en_id e) # pl_names pl\<rparr>, created + 1)))))"

definition resolveLocation :: "places \<Rightarrow> json \<Rightarrow> string option" where
  "resolveLocation pl rec =
     (case prop_str (get_prop rec ''locationId'') of
        Some i \<Rightarrow> if i \<in> set (pl_ids pl) then Some i
          else (case prop_str (get_prop rec ''locationName'') of
                  Some s \<Rightarrow> map_of (pl_names pl) (js_trim (js_lower s)) | None \<Rightarrow> None)
      | None \<Rightarrow> (case prop_str (get_prop rec ''locationName'') of
                  Some s \<Rightarrow> map_of (pl_names pl) (js_trim (js_lower s)) | None \<Rightarrow> None))"

definition day_prop :: "json option \<Rightarrow> string" where
  "day_prop v = (case prop_str v of Some s \<Rightarrow> take 10 s | None \<Rightarrow> [])"

section \<open>Refills\<close>

record refill_cand =
  rc_locationId :: string
  rc_position :: "int option"
  rc_containerNumber :: "int option"
  rc_filledWeight :: int
  rc_measuredBefore :: "int option"
  rc_packageCount :: int
  rc_enteredDate :: string

definition num_in :: "(rat \<Rightarrow> bool) \<Rightarrow> json option \<Rightarrow> int option" where
  "num_in P v = (case prop_num v of Some q \<Rightarrow> if P q then Some (js_trunc q) else None | None \<Rightarrow> None)"

definition refill_cand_of :: "places \<Rightarrow> json \<Rightarrow> refill_cand option" where
  "refill_cand_of pl rec =
     (let location = (case resolveLocation pl rec of Some i \<Rightarrow> i | None \<Rightarrow> []);
          position = trunc_num (get_prop rec ''position'');
          filled = trunc_num (get_prop rec ''filledWeight'');
          day = day_prop (get_prop rec ''enteredDate'') in
      case filled of
        None \<Rightarrow> None
      | Some w \<Rightarrow>
          if location = [] \<or> outside 1 8 position \<or> \<not> w > 0 \<or> \<not> is_iso_day day then None
          else Some \<lparr>rc_locationId = location, rc_position = position,
             rc_containerNumber = num_in (\<lambda>q. 1 \<le> q \<and> q \<le> 27) (get_prop rec ''containerNumber''),
             rc_filledWeight = w, rc_measuredBefore = num_in (\<lambda>q. 0 \<le> q) (get_prop rec ''measuredBefore''),
             rc_packageCount = (case num_in (\<lambda>q. 1 \<le> q) (get_prop rec ''packageCount'') of Some n \<Rightarrow> n | None \<Rightarrow> 1),
             rc_enteredDate = day\<rparr>)"

text \<open>The valid rows of a list of records with the number of the others; \<open>null\<close> as a record throws.\<close>

fun candidates :: "(json \<Rightarrow> 'c option) \<Rightarrow> json list \<Rightarrow> appr_error + 'c list \<times> int" where
  "candidates f [] = Inr ([], 0)"
| "candidates f (r # rs) =
     rbind (not_null r) (\<lambda>_. rbind (candidates f rs) (\<lambda>(cs, skipped).
     case f r of Some c \<Rightarrow> Inr (c # cs, skipped) | None \<Rightarrow> Inr (cs, skipped + 1)))"

type_synonym refill_key = "string \<times> int option \<times> string \<times> int \<times> int option"

definition refill_key :: "refill_cand \<Rightarrow> refill_key" where
  "refill_key c = (rc_locationId c, rc_position c, rc_enteredDate c, rc_filledWeight c, Some (rc_packageCount c))"

definition stored_refill_key :: "refill_row \<Rightarrow> refill_key" where
  "stored_refill_key r = (rf_locationId r, Some (rf_position r), rf_enteredDate r, rf_filledWeight r, rf_packageCount r)"

text \<open>The loop over the valid rows with the set of keys already seen.\<close>

fun fresh_rows :: "('c \<Rightarrow> 'k) \<Rightarrow> 'k set \<Rightarrow> 'c list \<Rightarrow> 'c list \<times> int" where
  "fresh_rows key seen [] = ([], 0)"
| "fresh_rows key seen (c # cs) =
     (if key c \<in> seen then (let (fs, n) = fresh_rows key seen cs in (fs, n + 1))
      else (let (fs, n) = fresh_rows key (insert (key c) seen) cs in (c # fs, n)))"

text \<open>The stored rows between the first and the last day of the valid ones.\<close>

definition in_days :: "appr_env \<Rightarrow> ('r \<Rightarrow> string) \<Rightarrow> string list \<Rightarrow> 'r list \<Rightarrow> appr_error + 'r list" where
  "in_days E day days rows =
     (let ds = sort days in
      if \<not> ae_isDate E (hd ds) \<or> \<not> ae_isDate E (last ds) then Inl SqlError
      else Inr (filter (\<lambda>r. hd ds \<le> day r \<and> day r \<le> last ds) rows))"

definition add_refill :: "appr_env \<Rightarrow> refill_cand \<Rightarrow> appr_db \<Rightarrow> appr_error + appr_db" where
  "add_refill E c db =
     rbind (int_column (rc_position c)) (\<lambda>position.
     rbind (opt_int_column (rc_containerNumber c)) (\<lambda>container.
     rbind (int_column (Some (rc_filledWeight c))) (\<lambda>filled.
     rbind (opt_int_column (rc_measuredBefore c)) (\<lambda>before.
     rbind (int_column (Some (rc_packageCount c))) (\<lambda>packages.
     insert_refill E \<lparr>rf_id = ae_id E ''refill'' (length (db_refills db)), rf_locationId = rc_locationId c,
       rf_position = position, rf_containerNumber = container, rf_filledWeight = filled, rf_measuredBefore = before,
       rf_packageCount = Some packages, rf_enteredDate = rc_enteredDate c, rf_stockMovementId = None,
       rf_createdBy = Some ''import:telegram-history''\<rparr> db)))))"

definition import_refills :: "appr_env \<Rightarrow> places \<Rightarrow> json list \<Rightarrow> appr_db \<Rightarrow> appr_error + appr_db \<times> int \<times> int" where
  "import_refills E pl records db =
     rbind (candidates (refill_cand_of pl) records) (\<lambda>(valid, skipped).
     if valid = [] then Inr (db, 0, skipped)
     else
       rbind (in_days E rf_enteredDate (map rc_enteredDate valid) (db_refills db)) (\<lambda>existing.
       (let (fresh, repeated) = fresh_rows refill_key (stored_refill_key ` set existing) valid in
        rbind (foldM_res (add_refill E) fresh db) (\<lambda>db1. Inr (db1, int (length fresh), skipped + repeated)))))"

section \<open>Returns\<close>

record return_cand =
  tc_position :: "int option"
  tc_containerNumber :: "int option"
  tc_weight :: int
  tc_returnedDate :: string
  tc_locationNote :: "string option"

definition note_of :: "json option \<Rightarrow> string option" where
  "note_of v = (case prop_str v of Some s \<Rightarrow> if js_trim s = [] then None else Some (take 256 (js_trim s)) | None \<Rightarrow> None)"

definition return_cand_of :: "json \<Rightarrow> return_cand option" where
  "return_cand_of rec =
     (let position = trunc_num (get_prop rec ''position''); container = trunc_num (get_prop rec ''containerNumber'');
          day = day_prop (get_prop rec ''returnedDate'') in
      case trunc_num (get_prop rec ''weight'') of
        None \<Rightarrow> None
      | Some w \<Rightarrow>
          if outside 1 8 position \<or> outside 1 27 container \<or> \<not> w \<ge> 0 \<or> w > 10000 \<or> \<not> is_iso_day day then None
          else Some \<lparr>tc_position = position, tc_containerNumber = container, tc_weight = w, tc_returnedDate = day,
             tc_locationNote = note_of (get_prop rec ''locationNote'')\<rparr>)"

definition return_key :: "return_cand \<Rightarrow> int option \<times> int option \<times> string \<times> int" where
  "return_key c = (tc_position c, tc_containerNumber c, tc_returnedDate c, tc_weight c)"

definition stored_return_key :: "return_row \<Rightarrow> int option \<times> int option \<times> string \<times> int" where
  "stored_return_key r = (Some (rt_position r), Some (rt_containerNumber r), rt_returnedDate r, rt_weight r)"

definition add_return :: "appr_env \<Rightarrow> return_cand \<Rightarrow> appr_db \<Rightarrow> appr_error + appr_db" where
  "add_return E c db =
     rbind (int_column (tc_position c)) (\<lambda>position.
     rbind (int_column (tc_containerNumber c)) (\<lambda>container.
     insert_return E \<lparr>rt_id = ae_id E ''return'' (length (db_returns db)), rt_position = position,
       rt_containerNumber = container, rt_weight = tc_weight c, rt_returnedDate = tc_returnedDate c,
       rt_locationNote = tc_locationNote c, rt_createdBy = Some ''import:telegram-history''\<rparr> db))"

definition import_returns :: "appr_env \<Rightarrow> json list \<Rightarrow> appr_db \<Rightarrow> appr_error + appr_db \<times> int \<times> int" where
  "import_returns E returns db =
     rbind (candidates return_cand_of returns) (\<lambda>(valid, skipped).
     if valid = [] then Inr (db, 0, skipped)
     else
       rbind (in_days E rt_returnedDate (map tc_returnedDate valid) (db_returns db)) (\<lambda>existing.
       (let (fresh, repeated) = fresh_rows return_key (stored_return_key ` set existing) valid in
        rbind (foldM_res (add_return E) fresh db) (\<lambda>db1. Inr (db1, int (length fresh), skipped + repeated)))))"

section \<open>Consumables\<close>

record consumable_cand =
  uc_locationId :: string
  uc_loggedDate :: string
  uc_water :: int
  uc_cups :: int
  uc_lids :: int

definition count_of :: "json option \<Rightarrow> int" where
  "count_of v = (case num_in (\<lambda>q. 0 \<le> q) v of Some n \<Rightarrow> n | None \<Rightarrow> 0)"

definition consumable_cand_of :: "places \<Rightarrow> json \<Rightarrow> consumable_cand option" where
  "consumable_cand_of pl rec =
     (let location = (case resolveLocation pl rec of Some i \<Rightarrow> i | None \<Rightarrow> []);
          day = day_prop (get_prop rec ''loggedDate'') in
      if location = [] \<or> \<not> is_iso_day day then None
      else Some \<lparr>uc_locationId = location, uc_loggedDate = day, uc_water = count_of (get_prop rec ''water''),
         uc_cups = count_of (get_prop rec ''cups''), uc_lids = count_of (get_prop rec ''lids'')\<rparr>)"

text \<open>One row per location and day; a later one replaces the values of an earlier one.\<close>

definition by_day :: "consumable_cand list \<Rightarrow> ((string \<times> string) \<times> consumable_cand) list" where
  "by_day cs = fold (\<lambda>c. map_put (uc_locationId c, uc_loggedDate c) (\<lambda>_. c) c) cs []"

definition add_consumable :: "appr_env \<Rightarrow> consumable_cand \<Rightarrow> appr_db \<Rightarrow> appr_error + appr_db" where
  "add_consumable E c db =
     rbind (int_column (Some (uc_water c))) (\<lambda>water.
     rbind (int_column (Some (uc_cups c))) (\<lambda>cups.
     rbind (int_column (Some (uc_lids c))) (\<lambda>lids.
     upsert_consumable E \<lparr>cu_id = ae_id E ''consumable'' (length (db_consumables db)), cu_locationId = uc_locationId c,
       cu_loggedDate = uc_loggedDate c, cu_water = water, cu_cups = cups, cu_lids = lids,
       cu_createdBy = Some ''import:telegram-history''\<rparr> db)))"

definition import_consumables ::
  "appr_env \<Rightarrow> places \<Rightarrow> json list \<Rightarrow> appr_db \<Rightarrow> appr_error + appr_db \<times> int \<times> int" where
  "import_consumables E pl consumables db =
     rbind (candidates (consumable_cand_of pl) consumables) (\<lambda>(valid, skipped).
     rbind (foldM_res (add_consumable E) (map snd (by_day valid)) db) (\<lambda>db1.
     Inr (db1, int (length (by_day valid)), skipped)))"

section \<open>The whole import\<close>

definition executeCoffeeImport :: "appr_env \<Rightarrow> approval_row \<Rightarrow> string \<Rightarrow> appr_db \<Rightarrow> appr_error + appr_db" where
  "executeCoffeeImport E row actor db =
     (case prop_obj (get_prop (ap_payload row) ''coffeeImport'') of
        None \<Rightarrow> Inr db
      | Some imp \<Rightarrow>
          (let records = take 2000 (prop_arr (get_prop imp ''records'')); returns = take 2000 (prop_arr (get_prop imp ''returns''));
               consumables = take 2000 (prop_arr (get_prop imp ''consumables''));
               newLocations = take 50 (prop_arr (get_prop imp ''newLocations'')) in
           if records = [] \<and> returns = [] \<and> consumables = [] then Inr db
           else
             rbind (foldM_res (new_location E actor (map_of (db_orgs db) ''vendhub'')) newLocations (db, known_places db, 0)) (\<lambda>(db1, pl, places).
             rbind (import_refills E pl records db1) (\<lambda>(db2, created, skipped).
             rbind (import_returns E returns db2) (\<lambda>(db3, returned, returnsSkipped).
             rbind (import_consumables E pl consumables db3) (\<lambda>(db4, upserted, consumablesSkipped).
             owner_event ''coffee.import.executed'' [(''approvalId'', JStr (ap_id row)), (''created'', JInt created),
               (''skipped'', JInt skipped), (''returnsCreated'', JInt returned), (''returnsSkipped'', JInt returnsSkipped),
               (''consumablesUpserted'', JInt upserted), (''consumablesSkipped'', JInt consumablesSkipped),
               (''locationsCreated'', JInt places)] db4))))))"

section \<open>Decision\<close>

definition decision_text :: "decision \<Rightarrow> string" where
  "decision_text d = (case d of Pending \<Rightarrow> ''pending'' | Approved \<Rightarrow> ''approved'' | Rejected \<Rightarrow> ''rejected'' | Clarify \<Rightarrow> ''clarify'')"

definition execute :: "appr_env \<Rightarrow> decision \<Rightarrow> approval_row \<Rightarrow> string \<Rightarrow> appr_db \<Rightarrow> appr_error + appr_db" where
  "execute E d row actor db =
     (if d = Approved then
        rbind (executeImport E row actor db) (\<lambda>db1.
        rbind (executePurchaseOrder E row actor db1) (\<lambda>db2.
        rbind (executeCoffeeImport E row actor db2) (executeEntityApprove E row actor)))
      else if d = Rejected then executeBackdatedReject E row actor db
      else Inr db)"

definition decide :: "appr_env \<Rightarrow> string \<Rightarrow> decision \<Rightarrow> string \<Rightarrow> appr_db \<Rightarrow> appr_error + appr_db \<times> approval_row" where
  "decide E i d actor db =
     (case find (\<lambda>a. ap_id a = i \<and> ap_decision a = Pending) (db_approvals db) of
        None \<Rightarrow>
          (case find (\<lambda>a. ap_id a = i) (db_approvals db) of
             None \<Rightarrow> Inl ApprovalNotFound | Some a \<Rightarrow> Inl (AlreadyDecided (ap_decision a)))
      | Some a \<Rightarrow>
          (let row = a\<lparr>ap_decision := d\<rparr>;
               db1 = db\<lparr>db_approvals := map (\<lambda>x. if ap_id x = i \<and> ap_decision x = Pending then x\<lparr>ap_decision := d\<rparr> else x)
                 (db_approvals db)\<rparr> in
           rbind (owner_event ''approval.decided'' [(''approvalId'', JStr i), (''decision'', JStr (decision_text d))] db1) (\<lambda>db2.
           rbind (execute E d row actor (log_audit actor (''approval.'' @ decision_text d) i db2)) (\<lambda>db3.
           Inr (db3, row)))))"

text \<open>The lists of the queue, newest first; the rows stand in the order of their creation.\<close>

definition pending :: "appr_db \<Rightarrow> approval_row list" where
  "pending db = filter (\<lambda>a. ap_decision a = Pending) (rev (db_approvals db))"

definition list_approvals :: "decision option \<Rightarrow> appr_db \<Rightarrow> approval_row list" where
  "list_approvals d db = take 200 (filter (\<lambda>a. d = None \<or> d = Some (ap_decision a)) (rev (db_approvals db)))"

end
