(* ===== verification/ApprovalFacts.thy ===== *)
theory ApprovalFacts
  imports CoffeeImport RowHistory
begin

text \<open>
  What the operations of the queue do to its tables: the step relation, the frame of every executor,
  the invariant of the queue, and its history as an instance of \<open>RowHistory\<close>.
\<close>

section \<open>Steps\<close>

inductive appr_step :: "appr_db \<Rightarrow> appr_db \<Rightarrow> bool" where
  requested: "request_approval E H rq db = Inr (db', a) \<Longrightarrow> appr_step db db'"
| decided: "decide E i d actor db = Inr (db', a) \<Longrightarrow> d \<noteq> Pending \<Longrightarrow> appr_step db db'"

inductive_cases appr_stepE: "appr_step db db'"

section \<open>Loops\<close>

lemma sql_check_Inr [simp]: "sql_check b x = Inr y \<longleftrightarrow> b \<and> y = x"
  by (auto simp: sql_check_def)

lemma foldM_inv:
  assumes "foldM_res f xs s = Inr s'" "P s" "\<And>x s s'. x \<in> set xs \<Longrightarrow> f x s = Inr s' \<Longrightarrow> P s \<Longrightarrow> P s'"
  shows "P s'"
  using assms by (induction xs arbitrary: s) (auto simp: res_simps)

lemma foldM_append: "foldM_res f (xs @ ys) s = rbind (foldM_res f xs s) (foldM_res f ys)"
proof (induction xs arbitrary: s)
  case (Cons x xs)
  show ?case by (cases "f x s") (simp_all add: Cons)
qed simp

lemma foldM_error: "x \<in> set xs \<Longrightarrow> (\<And>s. \<exists>e. f x s = Inl e) \<Longrightarrow> \<exists>e. foldM_res f xs s = Inl e"
proof (induction xs arbitrary: s)
  case (Cons y ys)
  show ?case
  proof (cases "f y s")
    case (Inr s')
    with Cons.prems(2) [of s] Cons.prems(1) have "x \<in> set ys" by auto
    with Cons Inr show ?thesis by simp
  qed simp
qed simp

section \<open>Frames\<close>

text \<open>The tables an executor is allowed to change: never the queue, and never a row of the others away.\<close>

definition adds :: "appr_db \<Rightarrow> appr_db \<Rightarrow> bool" where
  "adds db db' \<longleftrightarrow> db_approvals db' = db_approvals db \<and> set (db_refills db) \<subseteq> set (db_refills db')
     \<and> set (db_returns db) \<subseteq> set (db_returns db') \<and> set (db_orders db) \<subseteq> set (db_orders db')
     \<and> db_orgs db' = db_orgs db \<and> set (db_audit db) \<subseteq> set (db_audit db')"

lemma adds_refl [simp]: "adds db db"
  by (simp add: adds_def)

lemma adds_trans: "adds a b \<Longrightarrow> adds b c \<Longrightarrow> adds a c"
  by (auto simp: adds_def)

lemma insert_event_Inr: "insert_event e db = Inr db' \<Longrightarrow> db' = db\<lparr>db_events := db_events db @ [e]\<rparr>"
  by (simp add: insert_event_def Let_def)

lemma owner_event_Inr: "owner_event t p db = Inr db' \<Longrightarrow> \<exists>e. db' = db\<lparr>db_events := db_events db @ [e]\<rparr>"
  unfolding owner_event_def by (blast dest: insert_event_Inr)

lemma insert_entity_Inr: "insert_entity e db = Inr db' \<Longrightarrow> db' = db\<lparr>db_entities := db_entities db @ [e]\<rparr>"
  by (simp add: insert_entity_def Let_def)

lemma adds_simps [simp]:
  "adds db (db\<lparr>db_events := es\<rparr>)" "adds db (log_audit x y z db)" "adds db (db\<lparr>db_entities := cs\<rparr>)"
  "adds db (db\<lparr>db_drafts := ds, db_entities := cs\<rparr>)" "adds db (db\<lparr>db_consumables := us\<rparr>)"
  "adds db (db\<lparr>db_refills := db_refills db @ rs\<rparr>)" "adds db (db\<lparr>db_returns := db_returns db @ ts\<rparr>)"
  "adds db (db\<lparr>db_orders := db_orders db @ os\<rparr>)"
  by (auto simp: adds_def log_audit_def)

lemma log_audit_simps [simp]:
  "db_approvals (log_audit x y z db) = db_approvals db" "db_events (log_audit x y z db) = db_events db"
  "db_orgs (log_audit x y z db) = db_orgs db" "db_entities (log_audit x y z db) = db_entities db"
  "db_drafts (log_audit x y z db) = db_drafts db" "db_refills (log_audit x y z db) = db_refills db"
  "db_movements (log_audit x y z db) = db_movements db" "db_returns (log_audit x y z db) = db_returns db"
  "db_consumables (log_audit x y z db) = db_consumables db" "db_orders (log_audit x y z db) = db_orders db"
  "db_audit (log_audit x y z db) = db_audit db @ [\<lparr>au_actor = x, au_action = y, au_target = z\<rparr>]"
  by (simp_all add: log_audit_def)

text \<open>The orders that the other executors leave alone.\<close>

definition keeps_orders :: "appr_db \<Rightarrow> appr_db \<Rightarrow> bool" where
  "keeps_orders db db' \<longleftrightarrow> adds db db' \<and> db_orders db' = db_orders db"

lemma keeps_orders_trans: "keeps_orders a b \<Longrightarrow> keeps_orders b c \<Longrightarrow> keeps_orders a c"
  by (auto simp: keeps_orders_def intro: adds_trans)

lemma keeps_orders_refl [simp]: "keeps_orders db db"
  by (simp add: keeps_orders_def)

lemma import_step_Inr:
  assumes "import_step E row actor org type rec (db, c, k) = Inr (db', c', k')"
  shows "(db' = db \<and> c' = c \<and> (import_name rec = [] \<or> list_ex (same_card org type (import_ref rec) (import_name rec)) (db_entities db)))
    \<or> (c' = c + 1 \<and> k' = k \<and> (\<exists>x. db' = log_audit actor ''entity.create'' x (db\<lparr>db_entities := db_entities db @ [import_card E row actor org type rec db]\<rparr>)))"
  using assms by (auto simp: import_step_def Let_def res_simps split: if_split_asm dest!: insert_entity_Inr)

lemma import_step_keeps:
  assumes "import_step E row actor org type rec st = Inr st'"
  shows "keeps_orders (fst st) (fst st')"
proof -
  obtain db c k db' c' k' where "st = (db, c, k)" "st' = (db', c', k')" by (metis prod_cases3)
  with assms import_step_Inr [of E row actor org type rec db c k db' c' k'] show ?thesis
    by (auto simp: keeps_orders_def adds_def)
qed

text \<open>An import that runs: its organisation, its type and its records.\<close>

definition import_runs :: "approval_row \<Rightarrow> appr_db \<Rightarrow> string \<Rightarrow> string \<Rightarrow> json list \<Rightarrow> bool" where
  "import_runs row db org type records \<longleftrightarrow> (\<exists>imp dm.
     prop_obj (get_prop (ap_payload row) ''import'') = Some imp \<and> prop_str (get_prop imp ''domain'') = Some dm
     \<and> dm \<in> set DOMAINS \<and> map_of (db_orgs db) dm = Some org
     \<and> map_option (take 64) (prop_str (get_prop imp ''type'')) = Some type \<and> type \<noteq> []
     \<and> take 500 (prop_arr (get_prop imp ''records'')) = records \<and> records \<noteq> [])"

lemma empty_domain: "[] \<notin> set DOMAINS"
  by (simp add: DOMAINS_def)

lemma executeImport_cases:
  "(executeImport E row actor db = Inr db \<and> \<not> (\<exists>org type records. import_runs row db org type records)) \<or> (\<exists>org type records dm. import_runs row db org type records
    \<and> executeImport E row actor db = rbind (foldM_res (import_step E row actor org type) records (db, 0, 0)) (\<lambda>(db1, created, skipped).
        owner_event ''import.executed'' [(''approvalId'', JStr (ap_id row)), (''domain'', JStr dm), (''type'', JStr type),
          (''created'', JInt created), (''skipped'', JInt skipped)] db1))"
proof (cases "prop_obj (get_prop (ap_payload row) ''import'')")
  case None
  then show ?thesis by (simp add: executeImport_def import_runs_def)
next
  case (Some imp)
  let ?dm = "case prop_str (get_prop imp ''domain'') of Some s \<Rightarrow> s | None \<Rightarrow> []"
  let ?type = "case prop_str (get_prop imp ''type'') of Some s \<Rightarrow> take 64 s | None \<Rightarrow> []"
  let ?records = "take 500 (prop_arr (get_prop imp ''records''))"
  show ?thesis
  proof (cases "?dm \<notin> set DOMAINS \<or> ?type = [] \<or> ?records = [] \<or> map_of (db_orgs db) ?dm = None")
    case True
    then have "executeImport E row actor db = Inr db" by (auto simp: executeImport_def Some Let_def)
    moreover have "\<not> import_runs row db org type records" for org type records
      using True by (auto simp: import_runs_def Some)
    ultimately show ?thesis by blast
  next
    case False
    then obtain org where org: "map_of (db_orgs db) ?dm = Some org" by blast
    obtain dm where dm: "prop_str (get_prop imp ''domain'') = Some dm"
      using False empty_domain by (cases "prop_str (get_prop imp ''domain'')") auto
    obtain type where type: "prop_str (get_prop imp ''type'') = Some type"
      using False by (cases "prop_str (get_prop imp ''type'')") auto
    have "import_runs row db org (take 64 type) ?records"
      unfolding import_runs_def using Some dm type False org by (intro exI [of _ imp] exI [of _ dm]) simp
    moreover have "executeImport E row actor db = rbind (foldM_res (import_step E row actor org (take 64 type)) ?records (db, 0, 0))
      (\<lambda>(db1, created, skipped).
        owner_event ''import.executed'' [(''approvalId'', JStr (ap_id row)), (''domain'', JStr dm), (''type'', JStr (take 64 type)),
          (''created'', JInt created), (''skipped'', JInt skipped)] db1)"
      using Some dm type False org by (simp add: executeImport_def Let_def del: take_eq_Nil take_eq_Nil2)
    ultimately show ?thesis by blast
  qed
qed

lemma import_fold_keeps:
  assumes "foldM_res (import_step E row actor org type) rs st = Inr st'"
  shows "keeps_orders (fst st) (fst st')"
  using assms
proof (rule foldM_inv [where P = "\<lambda>x. keeps_orders (fst st) (fst x)"])
  fix rec x y
  assume "import_step E row actor org type rec x = Inr y" "keeps_orders (fst st) (fst x)"
  then show "keeps_orders (fst st) (fst y)"
    using import_step_keeps keeps_orders_trans by blast
qed simp

lemma owner_event_keeps: "owner_event t p db = Inr db' \<Longrightarrow> keeps_orders db db'"
  by (auto simp: keeps_orders_def dest!: owner_event_Inr)

lemma executeImport_keeps:
  assumes "executeImport E row actor db = Inr db'"
  shows "keeps_orders db db'"
  using executeImport_cases [of E row actor db]
proof (elim disjE exE conjE)
  fix org type records dm
  assume "executeImport E row actor db = rbind (foldM_res (import_step E row actor org type) records (db, 0, 0)) (\<lambda>(db1, created, skipped).
        owner_event ''import.executed'' [(''approvalId'', JStr (ap_id row)), (''domain'', JStr dm), (''type'', JStr type),
          (''created'', JInt created), (''skipped'', JInt skipped)] db1)"
  with assms obtain db1 c s where "foldM_res (import_step E row actor org type) records (db, 0, 0) = Inr (db1, c, s)"
    and "keeps_orders db1 db'"
    by (auto simp: res_simps dest: owner_event_keeps)
  from import_fold_keeps [OF this(1)] this(2) show ?thesis using keeps_orders_trans by auto
qed (use assms in simp)

lemma executePurchaseOrder_Inr:
  assumes "executePurchaseOrder E row actor db = Inr db'"
  shows "keeps_orders db db' \<or>
    (adds db db' \<and> (\<exists>r. db_orders db' = db_orders db @ [r] \<and> or_approvalId r = ap_id row
       \<and> or_approvalId r \<notin> or_approvalId ` set (db_orders db)))"
  using assms
  by (auto simp: executePurchaseOrder_def keeps_orders_def adds_def insert_order_def Let_def res_simps
      split: option.splits if_splits dest!: owner_event_Inr)

lemma new_location_keeps:
  assumes "new_location E actor org n st = Inr st'"
  shows "keeps_orders (fst st) (fst st')"
proof -
  obtain db pl c where st: "st = (db, pl, c)" by (metis prod_cases3)
  have "fst st' = db \<or> (\<exists>e. fst st' = db\<lparr>db_entities := db_entities db @ [e]\<rparr>)"
    using assms unfolding st by (auto simp: new_location_def Let_def res_simps split: if_split_asm dest!: insert_entity_Inr)
  then show ?thesis by (auto simp: st keeps_orders_def)
qed

lemma add_refill_keeps:
  assumes "add_refill E c db = Inr db'"
  shows "keeps_orders db db'"
  using assms by (auto simp: add_refill_def insert_refill_def res_simps keeps_orders_def)

lemma add_return_keeps:
  assumes "add_return E c db = Inr db'"
  shows "keeps_orders db db'"
  using assms by (auto simp: add_return_def insert_return_def res_simps keeps_orders_def)

lemma add_consumable_keeps:
  assumes "add_consumable E c db = Inr db'"
  shows "keeps_orders db db'"
  using assms by (auto simp: add_consumable_def upsert_consumable_def res_simps keeps_orders_def split: if_split_asm)

lemma fold_keeps:
  assumes "foldM_res f xs db = Inr db'" "\<And>x s s'. f x s = Inr s' \<Longrightarrow> keeps_orders s s'"
  shows "keeps_orders db db'"
  using assms(1) by (rule foldM_inv [where P = "keeps_orders db"]) (auto intro: keeps_orders_trans assms(2))

lemma import_refills_Inr:
  assumes "import_refills E pl rs db = Inr (db', c, k)"
  shows "\<exists>valid s. candidates (refill_cand_of pl) rs = Inr (valid, s) \<and> (valid = [] \<and> db' = db \<and> c = 0
    \<or> (\<exists>existing fresh n. in_days E rf_enteredDate (map rc_enteredDate valid) (db_refills db) = Inr existing
        \<and> fresh_rows refill_key (stored_refill_key ` set existing) valid = (fresh, n) \<and> foldM_res (add_refill E) fresh db = Inr db'
        \<and> c = int (length fresh)))"
proof -
  from assms obtain valid s where v: "candidates (refill_cand_of pl) rs = Inr (valid, s)"
    and r: "(if valid = [] then Inr (db, 0, s)
     else rbind (in_days E rf_enteredDate (map rc_enteredDate valid) (db_refills db)) (\<lambda>existing.
       (let (fresh, repeated) = fresh_rows refill_key (stored_refill_key ` set existing) valid in
        rbind (foldM_res (add_refill E) fresh db) (\<lambda>db1. Inr (db1, int (length fresh), s + repeated))))) = Inr (db', c, k)"
    unfolding import_refills_def rbind_eq_Inr by auto
  show ?thesis
  proof (cases "valid = []")
    case True
    with v r show ?thesis by simp
  next
    case False
    with r obtain existing where e: "in_days E rf_enteredDate (map rc_enteredDate valid) (db_refills db) = Inr existing"
      by (auto simp: rbind_eq_Inr)
    obtain fresh n where f: "fresh_rows refill_key (stored_refill_key ` set existing) valid = (fresh, n)" by fastforce
    from r False e f v show ?thesis by (auto simp: rbind_eq_Inr)
  qed
qed

lemma import_returns_Inr:
  assumes "import_returns E rs db = Inr (db', c, k)"
  shows "\<exists>valid s. candidates return_cand_of rs = Inr (valid, s) \<and> (valid = [] \<and> db' = db \<and> c = 0
    \<or> (\<exists>existing fresh n. in_days E rt_returnedDate (map tc_returnedDate valid) (db_returns db) = Inr existing
        \<and> fresh_rows return_key (stored_return_key ` set existing) valid = (fresh, n) \<and> foldM_res (add_return E) fresh db = Inr db'
        \<and> c = int (length fresh)))"
proof -
  from assms obtain valid s where v: "candidates return_cand_of rs = Inr (valid, s)"
    and r: "(if valid = [] then Inr (db, 0, s)
     else rbind (in_days E rt_returnedDate (map tc_returnedDate valid) (db_returns db)) (\<lambda>existing.
       (let (fresh, repeated) = fresh_rows return_key (stored_return_key ` set existing) valid in
        rbind (foldM_res (add_return E) fresh db) (\<lambda>db1. Inr (db1, int (length fresh), s + repeated))))) = Inr (db', c, k)"
    unfolding import_returns_def rbind_eq_Inr by auto
  show ?thesis
  proof (cases "valid = []")
    case True
    with v r show ?thesis by simp
  next
    case False
    with r obtain existing where e: "in_days E rt_returnedDate (map tc_returnedDate valid) (db_returns db) = Inr existing"
      by (auto simp: rbind_eq_Inr)
    obtain fresh n where f: "fresh_rows return_key (stored_return_key ` set existing) valid = (fresh, n)" by fastforce
    from r False e f v show ?thesis by (auto simp: rbind_eq_Inr)
  qed
qed

lemma import_refills_keeps: "import_refills E pl rs db = Inr (db', c, k) \<Longrightarrow> keeps_orders db db'"
  by (auto dest!: import_refills_Inr dest: fold_keeps add_refill_keeps)

lemma import_returns_keeps: "import_returns E rs db = Inr (db', c, k) \<Longrightarrow> keeps_orders db db'"
  by (auto dest!: import_returns_Inr dest: fold_keeps add_return_keeps)

lemma import_consumables_keeps: "import_consumables E pl rs db = Inr (db', c, k) \<Longrightarrow> keeps_orders db db'"
  by (auto simp: import_consumables_def res_simps Let_def dest: fold_keeps add_consumable_keeps)

lemma executeCoffeeImport_keeps:
  assumes "executeCoffeeImport E row actor db = Inr db'"
  shows "keeps_orders db db'"
proof -
  have places: "keeps_orders db db1"
    if "foldM_res (new_location E actor org) ns (db, pl, 0) = Inr (db1, pl1, k)" for org ns pl db1 pl1 k
    using foldM_inv [OF that, of "\<lambda>x. keeps_orders db (fst x)"] new_location_keeps keeps_orders_trans by fastforce
  show ?thesis
    using assms unfolding executeCoffeeImport_def Let_def
    by (auto simp: res_simps split: option.split_asm if_split_asm
        dest!: places import_refills_keeps import_returns_keeps import_consumables_keeps owner_event_keeps)
      (meson keeps_orders_trans)+
qed

lemma executeEntityApprove_keeps:
  assumes "executeEntityApprove E row actor db = Inr db'"
  shows "keeps_orders db db'"
  using assms
  by (auto simp: executeEntityApprove_def Let_def keeps_orders_def adds_def split: option.split_asm if_split_asm prod.split_asm)

text \<open>A rejection: at most the named refill goes, with its movement.\<close>

definition names_refill :: "approval_row \<Rightarrow> string \<Rightarrow> bool" where
  "names_refill row i \<longleftrightarrow> (\<exists>rec. get_prop (ap_payload row) ''backdatedRecord'' = Some rec
     \<and> get_prop rec ''kind'' = Some (JStr ''coffee_refill'') \<and> prop_str (get_prop rec ''rowId'') = Some i)"

text \<open>The removal of a refill is in the audit log.\<close>

definition removal_recorded :: "string \<Rightarrow> appr_db \<Rightarrow> bool" where
  "removal_recorded i db \<longleftrightarrow> list_ex (\<lambda>e. au_action e = ''coffee.refill.delete'' \<and> au_target e = i) (db_audit db)"

lemma removal_recorded_mono: "removal_recorded i db \<Longrightarrow> set (db_audit db) \<subseteq> set (db_audit db') \<Longrightarrow> removal_recorded i db'"
  by (auto simp: removal_recorded_def list_ex_iff)

lemma executeBackdatedReject_Inr:
  assumes "executeBackdatedReject E row actor db = Inr db'"
  shows "db_approvals db' = db_approvals db \<and> db_orders db' = db_orders db \<and> db_returns db' = db_returns db
    \<and> db_entities db' = db_entities db \<and> set (db_audit db) \<subseteq> set (db_audit db')
    \<and> (\<forall>r \<in> set (db_refills db). r \<in> set (db_refills db') \<or> names_refill row (rf_id r) \<and> removal_recorded (rf_id r) db')"
  using assms
  by (auto simp: executeBackdatedReject_def names_refill_def removal_recorded_def Let_def split: option.split_asm if_split_asm)

section \<open>The invariant of the queue\<close>

definition order_approved :: "appr_db \<Rightarrow> order_row \<Rightarrow> bool" where
  "order_approved db r \<longleftrightarrow> (\<exists>a \<in> set (db_approvals db). ap_id a = or_approvalId r \<and> ap_decision a = Approved)"

definition queue_ok :: "appr_db \<Rightarrow> bool" where
  "queue_ok db \<longleftrightarrow> distinct (map ap_id (db_approvals db)) \<and> keys_unique ap_clientKey (db_approvals db)
     \<and> distinct (map or_approvalId (db_orders db)) \<and> (\<forall>r \<in> set (db_orders db). order_approved db r)"

definition approval_evolves :: "approval_row \<Rightarrow> approval_row \<Rightarrow> bool" where
  "approval_evolves a b \<longleftrightarrow> b = a \<or> (ap_decision a = Pending \<and> (\<exists>d. d \<noteq> Pending \<and> b = a\<lparr>ap_decision := d\<rparr>))"

lemma execute_approved:
  assumes "execute E Approved row actor db = Inr db'"
  shows "adds db db' \<and> (db_orders db' = db_orders db \<or> (\<exists>r. db_orders db' = db_orders db @ [r] \<and> or_approvalId r = ap_id row
       \<and> or_approvalId r \<notin> or_approvalId ` set (db_orders db)))"
proof -
  from assms obtain db1 db2 db3 where "keeps_orders db db1" "executePurchaseOrder E row actor db1 = Inr db2"
    "keeps_orders db2 db3" "keeps_orders db3 db'"
    by (auto simp: execute_def res_simps dest: executeImport_keeps executeCoffeeImport_keeps executeEntityApprove_keeps)
  with executePurchaseOrder_Inr [OF this(2)] show ?thesis
    unfolding keeps_orders_def by (auto intro: adds_trans)
qed

definition mark_decided :: "string \<Rightarrow> decision \<Rightarrow> approval_row list \<Rightarrow> approval_row list" where
  "mark_decided i d as = map (\<lambda>x. if ap_id x = i \<and> ap_decision x = Pending then x\<lparr>ap_decision := d\<rparr> else x) as"

text \<open>The tables as an executor finds them: the queue marked, the rest as before but for events and audit.\<close>

definition before_execute :: "string \<Rightarrow> decision \<Rightarrow> appr_db \<Rightarrow> appr_db \<Rightarrow> bool" where
  "before_execute i d db db2 \<longleftrightarrow> db_approvals db2 = mark_decided i d (db_approvals db) \<and> db_orders db2 = db_orders db
     \<and> db_refills db2 = db_refills db \<and> db_returns db2 = db_returns db \<and> db_entities db2 = db_entities db
     \<and> db_consumables db2 = db_consumables db \<and> db_orgs db2 = db_orgs db \<and> set (db_audit db) \<subseteq> set (db_audit db2)"

lemma decide_Inr:
  assumes "decide E i d actor db = Inr (db', row)"
  shows "\<exists>a db2. a \<in> set (db_approvals db) \<and> ap_id a = i \<and> ap_decision a = Pending \<and> row = a\<lparr>ap_decision := d\<rparr>
    \<and> before_execute i d db db2 \<and> execute E d row actor db2 = Inr db'"
proof -
  from assms obtain a where a: "find (\<lambda>a. ap_id a = i \<and> ap_decision a = Pending) (db_approvals db) = Some a"
    by (auto simp: decide_def split: option.split_asm)
  then have "a \<in> set (db_approvals db)" "ap_id a = i" "ap_decision a = Pending" by (auto simp: find_Some_iff)
  moreover from assms a obtain db1 where
    "owner_event ''approval.decided'' [(''approvalId'', JStr i), (''decision'', JStr (decision_text d))]
       (db\<lparr>db_approvals := mark_decided i d (db_approvals db)\<rparr>) = Inr db1"
    and "execute E d row actor (log_audit actor (''approval.'' @ decision_text d) i db1) = Inr db'" "row = a\<lparr>ap_decision := d\<rparr>"
    by (auto simp: decide_def Let_def res_simps mark_decided_def)
  moreover from this(1) have "before_execute i d db (log_audit actor (''approval.'' @ decision_text d) i db1)"
    by (auto simp: before_execute_def dest!: owner_event_Inr)
  ultimately show ?thesis by blast
qed

lemma mark_decided_ids [simp]: "map ap_id (mark_decided i d as) = map ap_id as"
  "map ap_clientKey (mark_decided i d as) = map ap_clientKey as"
  by (simp_all add: mark_decided_def)

lemma mark_decided_evolves: "a \<in> set as \<Longrightarrow> d \<noteq> Pending \<Longrightarrow> \<exists>b \<in> set (mark_decided i d as). approval_evolves a b"
  by (auto simp: mark_decided_def approval_evolves_def)

lemma mark_decided_mem: "a \<in> set as \<Longrightarrow> ap_decision a = Pending \<Longrightarrow> a\<lparr>ap_decision := d\<rparr> \<in> set (mark_decided (ap_id a) d as)"
  by (force simp: mark_decided_def)

text \<open>What an execution may do, whatever the decision.\<close>

lemma execute_effect:
  assumes "execute E d row actor db = Inr db'"
  shows "db_approvals db' = db_approvals db
    \<and> set (db_audit db) \<subseteq> set (db_audit db')
    \<and> (\<forall>r \<in> set (db_refills db). r \<in> set (db_refills db')
        \<or> d = Rejected \<and> names_refill row (rf_id r) \<and> removal_recorded (rf_id r) db')
    \<and> (db_orders db' = db_orders db \<or> d = Approved \<and> (\<exists>r. db_orders db' = db_orders db @ [r]
        \<and> or_approvalId r = ap_id row \<and> or_approvalId r \<notin> or_approvalId ` set (db_orders db)))"
proof (cases d)
  case Approved
  with execute_approved [of E row actor db db'] assms show ?thesis by (auto simp: adds_def)
next
  case Rejected
  with executeBackdatedReject_Inr [of E row actor db db'] assms show ?thesis by (simp add: execute_def)
next
  case Pending
  with assms show ?thesis by (simp add: execute_def)
next
  case Clarify
  with assms show ?thesis by (simp add: execute_def)
qed

lemma request_Inr:
  assumes "request_approval E H rq db = Inr (db', a)"
  shows "(db' = db \<and> a \<in> set (db_approvals db) \<and> rq_clientKey rq \<noteq> None \<and> ap_clientKey a = rq_clientKey rq)
    \<or> (a = new_approval E rq db \<and> db_approvals db' = db_approvals db @ [a] \<and> ap_id a \<notin> ap_id ` set (db_approvals db)
       \<and> (\<forall>k. rq_clientKey rq = Some k \<longrightarrow> (\<forall>x \<in> set (db_approvals db). ap_clientKey x \<noteq> Some k))
       \<and> db_orders db' = db_orders db \<and> db_refills db' = db_refills db \<and> db_returns db' = db_returns db
       \<and> db_entities db' = db_entities db \<and> db_consumables db' = db_consumables db
       \<and> set (db_audit db) \<subseteq> set (db_audit db'))"
proof (cases "case rq_clientKey rq of None \<Rightarrow> None | Some k \<Rightarrow> find (\<lambda>a. ap_clientKey a = Some k) (db_approvals db)")
  case None
  with assms show ?thesis
    by (auto simp: request_approval_def Let_def res_simps find_None_iff split: option.split_asm if_split_asm dest!: insert_event_Inr)
next
  case (Some x)
  with assms show ?thesis
    by (auto simp: request_approval_def Let_def find_Some_iff split: option.split_asm if_split_asm)
qed

lemma keys_unique_snoc:
  "keys_unique key xs \<Longrightarrow> (\<And>k. key x = Some k \<Longrightarrow> \<forall>y \<in> set xs. key y \<noteq> Some k) \<Longrightarrow> keys_unique key (xs @ [x])"
  by (cases "key x") (auto simp: keys_unique_def)

lemma order_approved_mono:
  assumes "order_approved db r" "\<And>a. a \<in> set (db_approvals db) \<Longrightarrow> ap_decision a = Approved \<Longrightarrow> a \<in> set (db_approvals db')"
  shows "order_approved db' r"
  using assms unfolding order_approved_def by blast

lemma request_ok:
  assumes "request_approval E H rq db = Inr (db', a)" "queue_ok db"
  shows "queue_ok db' \<and> (\<forall>x \<in> set (db_approvals db). \<exists>y \<in> set (db_approvals db'). approval_evolves x y)"
  using request_Inr [OF assms(1)]
proof (elim disjE conjE)
  assume n: "a = new_approval E rq db" "db_approvals db' = db_approvals db @ [a]" "ap_id a \<notin> ap_id ` set (db_approvals db)"
    "\<forall>k. rq_clientKey rq = Some k \<longrightarrow> (\<forall>x \<in> set (db_approvals db). ap_clientKey x \<noteq> Some k)" "db_orders db' = db_orders db"
  have "ap_clientKey a = rq_clientKey rq" by (simp add: n(1) new_approval_def)
  with n(4) have "\<forall>y \<in> set (db_approvals db). ap_clientKey y \<noteq> Some k" if "ap_clientKey a = Some k" for k
    using that by metis
  with assms(2) have "keys_unique ap_clientKey (db_approvals db @ [a])"
    by (intro keys_unique_snoc) (simp_all add: queue_ok_def)
  moreover have "order_approved db' r" if "order_approved db r" for r
    using that by (rule order_approved_mono) (simp add: n(2))
  ultimately show ?thesis using n(2,3,5) assms(2) by (auto simp: queue_ok_def approval_evolves_def)
qed (use assms(2) in \<open>auto simp: approval_evolves_def\<close>)

lemma decide_ok:
  assumes "decide E i d actor db = Inr (db', row)" "queue_ok db" "d \<noteq> Pending"
  shows "queue_ok db' \<and> (\<forall>x \<in> set (db_approvals db). \<exists>y \<in> set (db_approvals db'). approval_evolves x y)"
proof -
  from decide_Inr [OF assms(1)] obtain a db2 where a: "a \<in> set (db_approvals db)" "ap_id a = i" "ap_decision a = Pending"
    "row = a\<lparr>ap_decision := d\<rparr>" and b: "before_execute i d db db2" and e: "execute E d row actor db2 = Inr db'"
    by blast
  have q: "db_approvals db' = mark_decided i d (db_approvals db)"
    using b execute_effect [OF e] by (simp add: before_execute_def)
  have row: "row \<in> set (db_approvals db')" using mark_decided_mem [OF a(1,3)] by (simp add: q a)
  have kept: "x \<in> set (db_approvals db')" if "x \<in> set (db_approvals db)" "ap_decision x = Approved" for x
    using that by (force simp: q mark_decided_def)
  have old: "order_approved db' r" if "r \<in> set (db_orders db)" for r
    using assms(2) that kept by (auto simp: queue_ok_def intro: order_approved_mono)
  have orders: "distinct (map or_approvalId (db_orders db')) \<and> (\<forall>r \<in> set (db_orders db'). order_approved db' r)"
  proof (cases "db_orders db' = db_orders db")
    case True
    with assms(2) old show ?thesis by (simp add: queue_ok_def)
  next
    case False
    with execute_effect [OF e] b obtain r where r: "d = Approved" "db_orders db' = db_orders db @ [r]"
      "or_approvalId r = ap_id row" "or_approvalId r \<notin> or_approvalId ` set (db_orders db)"
      by (auto simp: before_execute_def)
    then have "order_approved db' r" using row a unfolding order_approved_def by (intro bexI [of _ row]) simp_all
    with r assms(2) old show ?thesis by (auto simp: queue_ok_def)
  qed
  have "keys_unique ap_clientKey (db_approvals db')" "distinct (map ap_id (db_approvals db'))"
    using assms(2) by (simp_all add: q queue_ok_def keys_unique_def)
  with orders show ?thesis
    unfolding queue_ok_def using mark_decided_evolves [OF _ assms(3), of _ "db_approvals db" i] by (simp add: q)
qed

lemma appr_step_ok: "appr_step db db' \<Longrightarrow> queue_ok db \<Longrightarrow> queue_ok db'"
  by (erule appr_stepE) (auto dest: request_ok decide_ok)

lemma appr_step_rows:
  "appr_step db db' \<Longrightarrow> queue_ok db \<Longrightarrow> a \<in> set (db_approvals db) \<Longrightarrow> \<exists>b \<in> set (db_approvals db'). approval_evolves a b"
  by (erule appr_stepE) (auto dest: request_ok decide_ok)

text \<open>The queue is a keyed table whose decided rows are final.\<close>

interpretation queue: keyed_history db_approvals approval_evolves queue_ok appr_step ap_id "\<lambda>a. ap_decision a \<noteq> Pending"
proof
  show "approval_evolves r r" for r by (simp add: approval_evolves_def)
  show "approval_evolves a b \<Longrightarrow> approval_evolves b c \<Longrightarrow> approval_evolves a c" for a b c
    by (auto simp: approval_evolves_def)
  show "appr_step s s' \<Longrightarrow> queue_ok s \<Longrightarrow> queue_ok s'" for s s' by (rule appr_step_ok)
  show "appr_step s s' \<Longrightarrow> queue_ok s \<Longrightarrow> r \<in> set (db_approvals s) \<Longrightarrow> \<exists>r' \<in> set (db_approvals s'). approval_evolves r r'" for s s' r
    by (rule appr_step_rows)
  show "queue_ok s \<Longrightarrow> distinct (map ap_id (db_approvals s))" for s by (simp add: queue_ok_def)
  show "approval_evolves r r' \<Longrightarrow> ap_id r' = ap_id r" for r r' by (auto simp: approval_evolves_def)
  show "approval_evolves r r' \<Longrightarrow> ap_decision r \<noteq> Pending \<Longrightarrow> r' = r" for r r' by (auto simp: approval_evolves_def)
qed

end
