(* ===== verification/CoffeeJournal.thy ===== *)
theory CoffeeJournal
  imports CoffeeImport
begin

text \<open>
  The deletions from the coffee journal, \<^verbatim>\<open>apps/core/src/coffee/coffee.service.ts\<close>: an erroneous refill, return or
  consumable entry is removed by its author or by the owner, and the removal is recorded.  These are the only
  operations beside the rejection of a back-dated request that remove a refill.

  The row and its audit entry are written by two statements outside a transaction; here they are one step.
\<close>

text \<open>\<open>do_actor\<close> is the actor with its default, \<open>do_onlyBy\<close> the author an employee is limited to.\<close>

record delete_opts =
  do_actor :: string
  do_onlyBy :: "string option"

datatype journal_error = EntryNotFound | NotYours | BadEntryId

definition may_delete :: "delete_opts \<Rightarrow> string option \<Rightarrow> bool" where
  "may_delete opts createdBy \<longleftrightarrow> do_onlyBy opts = None \<or> createdBy = do_onlyBy opts"

definition deleteRefill :: "appr_env \<Rightarrow> delete_opts \<Rightarrow> string \<Rightarrow> appr_db \<Rightarrow> journal_error + appr_db" where
  "deleteRefill E opts i db =
     (if \<not> ae_isUuid E i then Inl BadEntryId
      else case find (\<lambda>r. rf_id r = i) (db_refills db) of
        None \<Rightarrow> Inl EntryNotFound
      | Some row \<Rightarrow>
          if \<not> may_delete opts (rf_createdBy row) then Inl NotYours
          else Inr (log_audit (do_actor opts) ''coffee.refill.delete'' i
            (db\<lparr>db_refills := filter (\<lambda>r. rf_id r \<noteq> i) (db_refills db)\<rparr>)))"

definition deleteContainerReturn :: "appr_env \<Rightarrow> delete_opts \<Rightarrow> string \<Rightarrow> appr_db \<Rightarrow> journal_error + appr_db" where
  "deleteContainerReturn E opts i db =
     (if \<not> ae_isUuid E i then Inl BadEntryId
      else case find (\<lambda>r. rt_id r = i) (db_returns db) of
        None \<Rightarrow> Inl EntryNotFound
      | Some row \<Rightarrow>
          if \<not> may_delete opts (rt_createdBy row) then Inl NotYours
          else Inr (log_audit (do_actor opts) ''coffee.return.delete'' i
            (db\<lparr>db_returns := filter (\<lambda>r. rt_id r \<noteq> i) (db_returns db)\<rparr>)))"

definition deleteConsumable :: "appr_env \<Rightarrow> delete_opts \<Rightarrow> string \<Rightarrow> appr_db \<Rightarrow> journal_error + appr_db" where
  "deleteConsumable E opts i db =
     (if \<not> ae_isUuid E i then Inl BadEntryId
      else case find (\<lambda>r. cu_id r = i) (db_consumables db) of
        None \<Rightarrow> Inl EntryNotFound
      | Some row \<Rightarrow>
          if \<not> may_delete opts (cu_createdBy row) then Inl NotYours
          else Inr (log_audit (do_actor opts) ''coffee.consumable.delete'' i
            (db\<lparr>db_consumables := filter (\<lambda>r. cu_id r \<noteq> i) (db_consumables db)\<rparr>)))"

end
