(* ===== verification/ApprovalProps.thy ===== *)
theory ApprovalProps
  imports ApprovalFacts CoffeeJournal
begin

text \<open>
  The properties of the queue of approvals, with their witnesses on a small queue.
\<close>

section \<open>A sample queue\<close>

definition sample_appr_env :: "string \<Rightarrow> appr_env" where
  "sample_appr_env p = \<lparr>ae_isUuid = (\<lambda>_. True), ae_isDate = (\<lambda>_. True), ae_id = (\<lambda>t n. p @ t @ num_str (int n))\<rparr>"

definition card_record :: json where
  "card_record = JObj [(''name'', JStr ''Necta 1''), (''externalRef'', JStr ''SN-1'')]"

definition import_payload :: "json list \<Rightarrow> json" where
  "import_payload rs = JObj [(''import'', JObj [(''domain'', JStr ''vendhub''), (''type'', JStr ''machine''), (''records'', JArr rs)])]"

definition sample_appr :: "string \<Rightarrow> decision \<Rightarrow> json \<Rightarrow> approval_row" where
  "sample_appr i d p = \<lparr>ap_id = i, ap_agent = ''site'', ap_action = ''import'', ap_tier = ''T0'', ap_payload = p,
     ap_decision = d, ap_clientKey = None\<rparr>"

definition sample_queue :: "approval_row list \<Rightarrow> appr_db" where
  "sample_queue as = \<lparr>db_approvals = as, db_events = [], db_audit = [], db_orgs = [(''vendhub'', ''o1'')], db_entities = [],
     db_drafts = [], db_refills = [], db_movements = [], db_returns = [], db_consumables = [], db_orders = []\<rparr>"

lemma sample_queue_ok: "distinct (map ap_id as) \<Longrightarrow> (\<And>a. a \<in> set as \<Longrightarrow> ap_clientKey a = None) \<Longrightarrow> queue_ok (sample_queue as)"
  by (auto simp: queue_ok_def sample_queue_def keys_unique_def filter_empty_conv)

section \<open>One decision\<close>

lemma decided_refused:
  assumes "queue_ok db" "a \<in> set (db_approvals db)" "ap_decision a \<noteq> Pending"
  shows "decide E (ap_id a) d actor db = Inl (AlreadyDecided (ap_decision a))"
proof -
  have u: "x = a" if "x \<in> set (db_approvals db)" "ap_id x = ap_id a" for x
    using assms that by (auto simp: queue_ok_def distinct_map inj_on_def)
  have "find (\<lambda>x. ap_id x = ap_id a \<and> ap_decision x = Pending) (db_approvals db) = None"
    using u assms(3) by (auto simp: find_None_iff)
  moreover have "find (\<lambda>x. ap_id x = ap_id a) (db_approvals db) = Some a"
  proof (cases "find (\<lambda>x. ap_id x = ap_id a) (db_approvals db)")
    case None
    then show ?thesis using assms(2) by (auto simp: find_None_iff)
  next
    case (Some x)
    then have "x \<in> set (db_approvals db)" "ap_id x = ap_id a" by (auto simp: find_Some_iff)
    with u Some show ?thesis by simp
  qed
  ultimately show ?thesis by (simp add: decide_def)
qed

text \<open>C12. An approval is decided once: whatever happens later, the decided row is still there unchanged, and
  every other decision on it is refused with the decision it has.\<close>
theorem decided_once:
  assumes "appr_step\<^sup>*\<^sup>* db db'" "queue_ok db" "a \<in> set (db_approvals db)" "ap_decision a \<noteq> Pending"
  shows "a \<in> set (db_approvals db') \<and> decide E (ap_id a) d actor db' = Inl (AlreadyDecided (ap_decision a))"
proof -
  have "a \<in> set (db_approvals db')" using assms by (rule queue.final_row_stays)
  with decided_refused [OF queue.steps_ok [OF assms(1,2)] this assms(4)] show ?thesis by blast
qed

theorem decided_once_witness:
  "decide (sample_appr_env []) ''a1'' Approved ''owner'' (sample_queue [sample_appr ''a1'' Rejected JNull])
     = Inl (AlreadyDecided Rejected)"
proof -
  let ?a = "sample_appr ''a1'' Rejected JNull"
  have "queue_ok (sample_queue [?a])" by (rule sample_queue_ok) (simp_all add: sample_appr_def)
  moreover have "?a \<in> set (db_approvals (sample_queue [?a]))" "ap_decision ?a = Rejected" "ap_id ?a = ''a1''"
    by (simp_all add: sample_queue_def sample_appr_def)
  ultimately show ?thesis using decided_once [OF rtranclp.rtrancl_refl, of "sample_queue [?a]" ?a] by auto
qed

section \<open>One request\<close>

lemma find_by_key:
  assumes "keys_unique ap_clientKey as" "b \<in> set as" "ap_clientKey b = Some k"
  shows "find (\<lambda>a. ap_clientKey a = Some k) as = Some b"
  using assms
proof (induction as)
  case (Cons x xs)
  show ?case
  proof (cases "ap_clientKey x = Some k")
    case True
    with Cons.prems have "x = b" by (auto simp: keys_unique_def rev_image_eqI)
    with True show ?thesis by simp
  next
    case False
    then have "keys_unique ap_clientKey xs" using Cons.prems(1) by (auto simp: keys_unique_def split: if_split_asm)
    with Cons False show ?thesis by auto
  qed
qed simp

text \<open>C16. A request with a client key is made once: repeated after any other operations, also after its
  decision, it returns the same approval and changes nothing.\<close>
theorem request_made_once:
  assumes "request_approval E H rq db = Inr (db1, a)" "rq_clientKey rq = Some k" "queue_ok db" "appr_step\<^sup>*\<^sup>* db1 db'"
  shows "\<exists>b. request_approval E' H rq db' = Inr (db', b) \<and> ap_id b = ap_id a \<and> ap_payload b = ap_payload a"
proof -
  have ok1: "queue_ok db1" using request_ok [OF assms(1,3)] by blast
  have a: "a \<in> set (db_approvals db1) \<and> ap_clientKey a = Some k
      \<and> hashLedgerPayload H (approval_json (rq_agent rq) (rq_action rq) (rq_tier rq) (payload_of rq))
        = hashLedgerPayload H (approval_json (ap_agent a) (ap_action a) (ap_tier a) (ap_payload a))"
  proof (cases "find (\<lambda>a. ap_clientKey a = Some k) (db_approvals db)")
    case None
    with request_Inr [OF assms(1)] have "a = new_approval E rq db" "a \<in> set (db_approvals db1)"
      using assms(2) by (auto simp: find_None_iff)
    then show ?thesis using assms(2) by (simp add: new_approval_def)
  next
    case (Some x)
    with assms(1,2) have "x = a" "db1 = db"
      "hashLedgerPayload H (approval_json (rq_agent rq) (rq_action rq) (rq_tier rq) (payload_of rq))
        = hashLedgerPayload H (approval_json (ap_agent a) (ap_action a) (ap_tier a) (ap_payload a))"
      by (auto simp: request_approval_def Let_def split: if_split_asm)
    with Some show ?thesis by (auto simp: find_Some_iff)
  qed
  obtain b where b: "b \<in> set (db_approvals db')" "approval_evolves a b"
    using queue.row_followed [OF assms(4) ok1] a by blast
  have "keys_unique ap_clientKey (db_approvals db')"
    using queue.steps_ok [OF assms(4) ok1] by (simp add: queue_ok_def)
  moreover have same: "ap_clientKey b = Some k" "ap_agent b = ap_agent a" "ap_action b = ap_action a" "ap_tier b = ap_tier a"
    "ap_payload b = ap_payload a" "ap_id b = ap_id a"
    using b(2) a by (auto simp: approval_evolves_def)
  ultimately have "find (\<lambda>a. ap_clientKey a = Some k) (db_approvals db') = Some b"
    using b(1) by (intro find_by_key)
  then show ?thesis using a assms(2) same by (auto simp: request_approval_def)
qed

definition sample_request :: approval_request where
  "sample_request = \<lparr>rq_agent = ''site'', rq_action = ''import'', rq_tier = ''T0'', rq_payload = None, rq_clientKey = Some ''k''\<rparr>"

theorem request_made_once_witness:
  "\<exists>db1 a. request_approval (sample_appr_env []) (\<lambda>_. ''h'') sample_request (sample_queue []) = Inr (db1, a)
     \<and> (\<exists>b. request_approval (sample_appr_env ''x'') (\<lambda>_. ''h'') sample_request db1 = Inr (db1, b) \<and> ap_id b = ap_id a)"
proof -
  have "\<exists>r. request_approval (sample_appr_env []) (\<lambda>_. ''h'') sample_request (sample_queue []) = Inr r"
    by (simp add: request_approval_def sample_request_def sample_queue_def insert_event_def keys_unique_def sql_check_def Let_def)
  then obtain db1 a where r: "request_approval (sample_appr_env []) (\<lambda>_. ''h'') sample_request (sample_queue []) = Inr (db1, a)"
    by auto
  have "rq_clientKey sample_request = Some ''k''" by (simp add: sample_request_def)
  from request_made_once [OF r this sample_queue_ok rtranclp.rtrancl_refl] r show ?thesis by fastforce
qed

section \<open>Nothing without an approval\<close>

text \<open>C14. Every purchase order belongs to an approved approval, and an approval has at most one.\<close>
theorem orders_are_approved:
  assumes "appr_step\<^sup>*\<^sup>* db db'" "queue_ok db"
  shows "(\<forall>r \<in> set (db_orders db'). \<exists>a \<in> set (db_approvals db'). ap_id a = or_approvalId r \<and> ap_decision a = Approved)
    \<and> distinct (map or_approvalId (db_orders db'))"
  using queue.steps_ok [OF assms] by (auto simp: queue_ok_def order_approved_def)

definition order_payload :: json where
  "order_payload = JObj [(''purchaseOrder'', JObj [(''positions'', JArr [JNull]), (''totalBuy'', JInt 4)])]"

lemma sample_ordered:
  "\<exists>db'. appr_step (sample_queue [sample_appr ''a1'' Pending order_payload]) db' \<and> map or_approvalId (db_orders db') = [''a1'']"
proof -
  have "\<exists>db' row. decide (sample_appr_env []) ''a1'' Approved ''owner'' (sample_queue [sample_appr ''a1'' Pending order_payload]) = Inr (db', row)
      \<and> map or_approvalId (db_orders db') = [''a1'']"
    by (simp add: decide_def sample_queue_def sample_appr_def owner_event_def insert_event_def keys_unique_def execute_def
        executeImport_def order_payload_def get_prop_def obj_of_def prop_obj_def executePurchaseOrder_def prop_arr_def
        insert_order_def order_int_def trunc_num_def prop_num_def js_trunc_def order_money_def int32_def
        executeCoffeeImport_def executeEntityApprove_def truthy_def prop_str_def sql_check_def Let_def)
  then obtain db' row where
    d: "decide (sample_appr_env []) ''a1'' Approved ''owner'' (sample_queue [sample_appr ''a1'' Pending order_payload]) = Inr (db', row)"
    and o: "map or_approvalId (db_orders db') = [''a1'']"
    by (elim exE conjE) (rule that)
  have "appr_step (sample_queue [sample_appr ''a1'' Pending order_payload]) db'" using d by (rule appr_step.decided) simp
  then show ?thesis using o by (intro exI conjI)
qed

theorem orders_are_approved_witness:
  "\<exists>db' a. appr_step (sample_queue [sample_appr ''a1'' Pending order_payload]) db' \<and> a \<in> set (db_approvals db')
     \<and> ap_id a = ''a1'' \<and> ap_decision a = Approved"
proof -
  let ?q = "sample_queue [sample_appr ''a1'' Pending order_payload]"
  obtain db' where db': "appr_step ?q db'" "map or_approvalId (db_orders db') = [''a1'']"
    using sample_ordered by (elim exE conjE) (rule that)
  have ok: "queue_ok ?q" by (rule sample_queue_ok) (simp_all add: sample_appr_def)
  have "\<forall>r \<in> set (db_orders db'). \<exists>a \<in> set (db_approvals db'). ap_id a = or_approvalId r \<and> ap_decision a = Approved"
    by (rule conjunct1 [OF orders_are_approved [OF r_into_rtranclp [of appr_step, OF db'(1)] ok]])
  moreover obtain r where "r \<in> set (db_orders db')" "or_approvalId r = ''a1''"
    using db'(2) by (cases "db_orders db'") auto
  ultimately show ?thesis using db'(1) by metis
qed

section \<open>No refill vanishes unrecorded\<close>

text \<open>The operations that remove rows of the coffee journal, together with those of the queue.\<close>

inductive journal_step :: "appr_db \<Rightarrow> appr_db \<Rightarrow> bool" where
  queue: "appr_step db db' \<Longrightarrow> journal_step db db'"
| refill: "deleteRefill E opts i db = Inr db' \<Longrightarrow> journal_step db db'"
| container: "deleteContainerReturn E opts i db = Inr db' \<Longrightarrow> journal_step db db'"
| consumable: "deleteConsumable E opts i db = Inr db' \<Longrightarrow> journal_step db db'"

inductive_cases journal_stepE: "journal_step db db'"

lemma deleteRefill_Inr:
  "deleteRefill E opts i db = Inr db' \<Longrightarrow> db' = log_audit (do_actor opts) ''coffee.refill.delete'' i
     (db\<lparr>db_refills := filter (\<lambda>r. rf_id r \<noteq> i) (db_refills db)\<rparr>)"
  by (auto simp: deleteRefill_def split: option.split_asm if_split_asm)

lemma journal_frame:
  "journal_step db db' \<Longrightarrow> appr_step db db' \<or> (db_approvals db' = db_approvals db \<and> db_orders db' = db_orders db
     \<and> set (db_audit db) \<subseteq> set (db_audit db')
     \<and> (db_refills db' = db_refills db \<or> (\<exists>E opts i. deleteRefill E opts i db = Inr db')))"
  by (erule journal_stepE)
    (auto simp: deleteContainerReturn_def deleteConsumable_def split: option.split_asm if_split_asm dest: deleteRefill_Inr)

lemma queue_ok_frame: "db_approvals db' = db_approvals db \<Longrightarrow> db_orders db' = db_orders db \<Longrightarrow> queue_ok db' = queue_ok db"
  by (simp add: queue_ok_def order_approved_def)

lemma journal_step_ok: "journal_step db db' \<Longrightarrow> queue_ok db \<Longrightarrow> queue_ok db'"
  using journal_frame [of db db'] appr_step_ok [of db db'] queue_ok_frame [of db' db] by blast

lemma journal_step_rows:
  "journal_step db db' \<Longrightarrow> queue_ok db \<Longrightarrow> a \<in> set (db_approvals db) \<Longrightarrow> \<exists>b \<in> set (db_approvals db'). approval_evolves a b"
  using journal_frame [of db db'] appr_step_rows [of db db' a] queue.evolves_refl [of a] by auto

interpretation journal: row_history db_approvals approval_evolves queue_ok journal_step
proof
  show "approval_evolves r r" for r by (rule queue.evolves_refl)
  show "approval_evolves a b \<Longrightarrow> approval_evolves b c \<Longrightarrow> approval_evolves a c" for a b c by (rule queue.evolves_trans)
  show "journal_step s s' \<Longrightarrow> queue_ok s \<Longrightarrow> queue_ok s'" for s s' by (rule journal_step_ok)
  show "journal_step s s' \<Longrightarrow> queue_ok s \<Longrightarrow> r \<in> set (db_approvals s) \<Longrightarrow> \<exists>r' \<in> set (db_approvals s'). approval_evolves r r'" for s s' r
    by (rule journal_step_rows)
qed

lemma appr_step_audit: "appr_step db db' \<Longrightarrow> set (db_audit db) \<subseteq> set (db_audit db')"
proof (erule appr_stepE)
  fix E H rq a
  assume "request_approval E H rq db = Inr (db', a)"
  from request_Inr [OF this] show ?thesis by auto
next
  fix E i d actor row
  assume "decide E i d actor db = Inr (db', row)"
  from decide_Inr [OF this] obtain db2 where "before_execute i d db db2" "execute E d row actor db2 = Inr db'" by blast
  with execute_effect [OF this(2)] show ?thesis by (auto simp: before_execute_def)
qed

lemma journal_step_audit: "journal_step db db' \<Longrightarrow> set (db_audit db) \<subseteq> set (db_audit db')"
  using journal_frame [of db db'] appr_step_audit [of db db'] by blast

text \<open>One step that removes a refill.\<close>

definition rejected_refill :: "string \<Rightarrow> appr_db \<Rightarrow> bool" where
  "rejected_refill i db \<longleftrightarrow> (\<exists>a \<in> set (db_approvals db). ap_decision a = Rejected \<and> names_refill a i)"

lemma refill_step:
  assumes "appr_step db db'" "r \<in> set (db_refills db)" "r \<notin> set (db_refills db')"
  shows "rejected_refill (rf_id r) db' \<and> removal_recorded (rf_id r) db'"
  using assms(1)
proof (cases rule: appr_step.cases)
  case (requested E H rq a)
  from request_Inr [OF this] assms(2,3) show ?thesis by auto
next
  case (decided E i d actor row)
  from decide_Inr [OF this(1)] obtain a db2 where a: "a \<in> set (db_approvals db)" "ap_id a = i" "ap_decision a = Pending"
    "row = a\<lparr>ap_decision := d\<rparr>" and b: "before_execute i d db db2" and e: "execute E d row actor db2 = Inr db'"
    by blast
  have "d = Rejected" "names_refill row (rf_id r)" "removal_recorded (rf_id r) db'"
    "db_approvals db' = mark_decided i d (db_approvals db)"
    using execute_effect [OF e] b assms(2,3) by (auto simp: before_execute_def)
  then show ?thesis using mark_decided_mem [OF a(1,3), of d] a
    unfolding rejected_refill_def by (intro conjI bexI [of _ row]) simp_all
qed

lemma journal_refill_step:
  assumes "journal_step db db'" "r \<in> set (db_refills db)" "r \<notin> set (db_refills db')"
  shows "removal_recorded (rf_id r) db'
    \<and> (rejected_refill (rf_id r) db' \<or> (\<exists>E opts. deleteRefill E opts (rf_id r) db = Inr db'))"
proof (cases "appr_step db db'")
  case True
  with refill_step assms(2,3) show ?thesis by blast
next
  case False
  then obtain E opts i where d: "deleteRefill E opts i db = Inr db'" using journal_frame [OF assms(1)] assms(2,3) by auto
  note e = deleteRefill_Inr [OF d]
  then have "rf_id r = i" using assms(2,3) by auto
  with d have "\<exists>E opts. deleteRefill E opts (rf_id r) db = Inr db'" by blast
  moreover have "removal_recorded (rf_id r) db'" unfolding e using \<open>rf_id r = i\<close> by (simp add: removal_recorded_def)
  ultimately show ?thesis by blast
qed

text \<open>C15. No refill vanishes unrecorded: whatever the queue does and whatever is deleted from the coffee journal,
  a refill that is gone has an entry in the audit log, and it was removed either by the rejection of a
  request that names it or by a deletion of this very entry.\<close>
theorem refill_removal_is_recorded:
  assumes "journal_step\<^sup>*\<^sup>* db db'" "queue_ok db" "r \<in> set (db_refills db)" "r \<notin> set (db_refills db')"
  shows "removal_recorded (rf_id r) db' \<and> (rejected_refill (rf_id r) db'
    \<or> (\<exists>E opts db1 db2. journal_step\<^sup>*\<^sup>* db db1 \<and> deleteRefill E opts (rf_id r) db1 = Inr db2 \<and> journal_step\<^sup>*\<^sup>* db2 db'))"
  using assms(1,4)
proof (induction rule: rtranclp_induct)
  case base
  with assms(3) show ?case by blast
next
  case (step y z)
  show ?case
  proof (cases "r \<in> set (db_refills y)")
    case True
    from journal_refill_step [OF step.hyps(2) True step.prems] step.hyps(1) show ?thesis by blast
  next
    case False
    have "queue_ok y" using step.hyps(1) assms(2) by (rule journal.steps_ok)
    then have "rejected_refill (rf_id r) z" if "rejected_refill (rf_id r) y"
      using that journal_step_rows [OF step.hyps(2)] unfolding rejected_refill_def by (fastforce simp: approval_evolves_def)
    moreover have "removal_recorded (rf_id r) z"
      using step.IH [OF False] journal_step_audit [OF step.hyps(2)] removal_recorded_mono by blast
    ultimately show ?thesis using step.IH [OF False] step.hyps(2) by (meson rtranclp.rtrancl_into_rtrancl)
  qed
qed

definition sample_refill :: refill_row where
  "sample_refill = \<lparr>rf_id = ''r1'', rf_locationId = ''l1'', rf_position = 7, rf_containerNumber = None, rf_filledWeight = 500,
     rf_measuredBefore = None, rf_packageCount = Some 1, rf_enteredDate = ''2026-07-01'', rf_stockMovementId = Some ''m1'',
     rf_createdBy = None\<rparr>"

definition backdated_queue :: appr_db where
  "backdated_queue = (sample_queue [sample_appr ''a1'' Pending
     (JObj [(''backdatedRecord'', JObj [(''kind'', JStr ''coffee_refill''), (''rowId'', JStr ''r1'')])])])
     \<lparr>db_refills := [sample_refill], db_movements := [''m1'']\<rparr>"

lemma sample_rejected: "\<exists>db'. appr_step backdated_queue db' \<and> db_refills db' = [] \<and> db_movements db' = []"
proof -
  have "\<exists>db' row. decide (sample_appr_env []) ''a1'' Rejected ''owner'' backdated_queue = Inr (db', row)
      \<and> db_refills db' = [] \<and> db_movements db' = []"
    by (simp add: decide_def backdated_queue_def sample_queue_def sample_appr_def owner_event_def insert_event_def keys_unique_def
        execute_def executeBackdatedReject_def get_prop_def obj_of_def prop_str_def sample_refill_def sample_appr_env_def
        sql_check_def Let_def)
  then obtain db' row where d: "decide (sample_appr_env []) ''a1'' Rejected ''owner'' backdated_queue = Inr (db', row)"
    and o: "db_refills db' = []" "db_movements db' = []"
    by (elim exE conjE) (rule that)
  have "appr_step backdated_queue db'" using d by (rule appr_step.decided) simp
  then show ?thesis using o by (intro exI conjI)
qed

theorem refill_removal_is_recorded_witness:
  "\<exists>db'. appr_step backdated_queue db' \<and> db_refills db' = [] \<and> removal_recorded ''r1'' db'"
proof -
  obtain db' where db': "appr_step backdated_queue db'" "db_refills db' = []"
    using sample_rejected by (elim exE conjE) (rule that)
  have ok: "queue_ok backdated_queue"
    by (simp add: queue_ok_def backdated_queue_def sample_queue_def keys_unique_def sample_appr_def)
  have m: "sample_refill \<in> set (db_refills backdated_queue)" "sample_refill \<notin> set (db_refills db')"
    using db'(2) by (simp_all add: backdated_queue_def)
  have "removal_recorded (rf_id sample_refill) db'"
    by (rule conjunct1 [OF refill_removal_is_recorded
      [OF r_into_rtranclp [of journal_step, OF journal_step.queue [OF db'(1)]] ok m]])
  moreover have "rf_id sample_refill = ''r1''" by (simp add: sample_refill_def)
  ultimately show ?thesis using db' by (intro exI conjI) simp_all
qed

text \<open>A deletion by hand leaves the stock movement of the refill, which a rejection removes with it.\<close>

lemma deleted_refill_keeps_movement:
  "deleteRefill E opts i db = Inr db' \<Longrightarrow> db_movements db' = db_movements db"
  by (drule deleteRefill_Inr) simp

section \<open>Imports\<close>

lemma imported_card: "same_card org type (import_ref rec) (import_name rec) (import_card E row actor org type rec db)"
  by (simp add: same_card_def import_card_def)

definition imported :: "string \<Rightarrow> string \<Rightarrow> entity_row list \<Rightarrow> json \<Rightarrow> bool" where
  "imported org type es rec \<longleftrightarrow> rec \<noteq> JNull
     \<and> (import_name rec = [] \<or> list_ex (same_card org type (import_ref rec) (import_name rec)) es)"

lemma imported_append: "imported org type es rec \<Longrightarrow> imported org type (es @ es') rec"
  by (auto simp: imported_def)

lemma import_step_imports:
  assumes "import_step E row actor org type rec (db, c, k) = Inr (db', c', k')"
  shows "imported org type (db_entities db') rec \<and> (\<exists>es. db_entities db' = db_entities db @ es)"
proof -
  have "rec \<noteq> JNull" using assms by (auto simp: import_step_def not_null_def split: if_split_asm)
  with import_step_Inr [OF assms] show ?thesis by (auto simp: imported_def imported_card)
qed

lemma import_fold_imports:
  assumes "foldM_res (import_step E row actor org type) rs (db, c, k) = Inr (db', c', k')"
  shows "(\<forall>rec \<in> set rs. imported org type (db_entities db') rec) \<and> (\<exists>es. db_entities db' = db_entities db @ es)"
  using assms
proof (induction rs arbitrary: db c k)
  case (Cons r rs)
  then obtain db1 c1 k1 where s: "import_step E row actor org type r (db, c, k) = Inr (db1, c1, k1)"
    "foldM_res (import_step E row actor org type) rs (db1, c1, k1) = Inr (db', c', k')"
    by (auto simp: res_simps)
  from Cons.IH [OF s(2)] import_step_imports [OF s(1)] show ?case by (auto dest: imported_append)
qed simp

lemma import_fold_again:
  "\<forall>rec \<in> set rs. imported org type (db_entities db) rec \<Longrightarrow>
    \<exists>k'. foldM_res (import_step E row actor org type) rs (db, c, k) = Inr (db, c, k')"
proof (induction rs arbitrary: k)
  case (Cons r rs)
  then have "\<exists>k1. import_step E row actor org type r (db, c, k) = Inr (db, c, k1)"
    by (auto simp: import_step_def imported_def not_null_def)
  with Cons show ?case by fastforce
qed simp

text \<open>C13. Approving the same list of cards again creates no card: every record of the first run is found by
  its external number, or by its name when it has none.\<close>
theorem import_twice_creates_nothing:
  assumes "executeImport E row actor db = Inr db1" "ap_payload row' = ap_payload row" "executeImport E' row' actor' db1 = Inr db2"
  shows "db_entities db2 = db_entities db1"
  using executeImport_cases [of E' row' actor' db1]
proof (elim disjE exE conjE)
  assume "executeImport E' row' actor' db1 = Inr db1"
  with assms(3) show ?thesis by simp
next
  fix org type records dm
  assume runs: "import_runs row' db1 org type records"
    and second: "executeImport E' row' actor' db1 = rbind (foldM_res (import_step E' row' actor' org type) records (db1, 0, 0))
      (\<lambda>(db1, created, skipped). owner_event ''import.executed'' [(''approvalId'', JStr (ap_id row')), (''domain'', JStr dm),
        (''type'', JStr type), (''created'', JInt created), (''skipped'', JInt skipped)] db1)"
  have orgs: "db_orgs db1 = db_orgs db" using executeImport_keeps [OF assms(1)] by (simp add: keeps_orders_def adds_def)
  have "\<forall>rec \<in> set records. imported org type (db_entities db1) rec"
    using executeImport_cases [of E row actor db]
  proof (elim disjE exE conjE)
    assume "\<not> (\<exists>org type records. import_runs row db org type records)"
    moreover have "import_runs row db org type records" using runs assms(2) orgs by (simp add: import_runs_def)
    ultimately show ?thesis by blast
  next
    fix org1 type1 records1 dm1
    assume runs1: "import_runs row db org1 type1 records1"
      and first: "executeImport E row actor db = rbind (foldM_res (import_step E row actor org1 type1) records1 (db, 0, 0))
        (\<lambda>(db1, created, skipped). owner_event ''import.executed'' [(''approvalId'', JStr (ap_id row)), (''domain'', JStr dm1),
          (''type'', JStr type1), (''created'', JInt created), (''skipped'', JInt skipped)] db1)"
    have "org1 = org" "type1 = type" "records1 = records"
      using runs runs1 assms(2) orgs by (auto simp: import_runs_def)
    moreover obtain dbx c k where "foldM_res (import_step E row actor org1 type1) records1 (db, 0, 0) = Inr (dbx, c, k)"
      "db_entities db1 = db_entities dbx"
      using assms(1) unfolding first by (auto simp: rbind_eq_Inr dest!: owner_event_Inr)
    ultimately show ?thesis using import_fold_imports by simp
  qed
  from import_fold_again [OF this, of E' row' actor' 0 0] obtain k where
    "foldM_res (import_step E' row' actor' org type) records (db1, 0, 0) = Inr (db1, 0, k)" by blast
  with assms(3) show ?thesis unfolding second by (auto dest!: owner_event_Inr)
qed

lemma card_imported: "import_name card_record = ''Necta 1''" "card_record \<noteq> JNull" "import_ref card_record = Some ''SN-1''"
  "import_attrs card_record = JObj []"
proof -
  have "js_trim ''Necta 1'' = ''Necta 1''" by code_simp
  then show "import_name card_record = ''Necta 1''" by (simp add: import_name_def card_record_def prop_str_def get_prop_def obj_of_def)
qed (simp_all add: card_record_def import_ref_def import_attrs_def prop_str_def prop_obj_def get_prop_def obj_of_def)

lemma num_01: "num_str 1 \<noteq> num_str 0"
  by code_simp

lemma sample_import:
  assumes "contractor_unique (db_entities db)" "distinct (map en_id (db_entities db))" "keys_unique ev_clientKey (db_events db)"
    "db_orgs db = [(''vendhub'', ''o1'')]" "ae_id E ''entity'' (length (db_entities db)) \<notin> en_id ` set (db_entities db)"
  shows "\<exists>db'. executeImport E (sample_appr i d (import_payload [card_record])) actor db = Inr db'"
proof -
  have "\<exists>db' c k. import_step E (sample_appr i d (import_payload [card_record])) actor ''o1'' ''machine'' card_record (db, 0, 0) = Inr (db', c, k)
      \<and> db_events db' = db_events db"
  proof (cases "list_ex (same_card ''o1'' ''machine'' (Some ''SN-1'') ''Necta 1'') (db_entities db)")
    case True
    then show ?thesis by (simp add: import_step_def not_null_def card_imported)
  next
    case False
    have "contractor_unique (db_entities db @ [import_card E (sample_appr i d (import_payload [card_record])) actor ''o1'' ''machine'' card_record db])"
      using assms(1) by (simp add: contractor_unique_def import_card_def)
    with False assms(2,5) show ?thesis
      by (simp add: import_step_def not_null_def card_imported insert_entity_def import_card_def sql_check_def Let_def)
  qed
  then obtain db' c k where s: "import_step E (sample_appr i d (import_payload [card_record])) actor ''o1'' ''machine'' card_record (db, 0, 0) = Inr (db', c, k)"
    and e: "db_events db' = db_events db" by (elim exE conjE) (rule that)
  have "\<exists>db''. owner_event t p db' = Inr db''" for t p
    using assms(3) by (simp add: owner_event_def insert_event_def e keys_unique_def sql_check_def Let_def)
  then show ?thesis
    by (simp add: executeImport_def sample_appr_def import_payload_def get_prop_def obj_of_def prop_obj_def prop_str_def
        prop_arr_def DOMAINS_def assms(4) s [unfolded sample_appr_def import_payload_def])
qed

theorem import_twice_creates_nothing_witness:
  "\<exists>db1 db2. executeImport (sample_appr_env []) (sample_appr ''a1'' Approved (import_payload [card_record])) ''owner'' (sample_queue []) = Inr db1
    \<and> executeImport (sample_appr_env []) (sample_appr ''a2'' Approved (import_payload [card_record])) ''owner'' db1 = Inr db2
    \<and> db_entities db2 = db_entities db1"
proof -
  let ?row = "sample_appr ''a1'' Approved (import_payload [card_record])" let ?row2 = "sample_appr ''a2'' Approved (import_payload [card_record])"
  have first: "\<exists>db1. executeImport (sample_appr_env []) ?row ''owner'' (sample_queue []) = Inr db1
      \<and> contractor_unique (db_entities db1) \<and> distinct (map en_id (db_entities db1)) \<and> keys_unique ev_clientKey (db_events db1)
      \<and> db_orgs db1 = [(''vendhub'', ''o1'')]
      \<and> ae_id (sample_appr_env []) ''entity'' (length (db_entities db1)) \<notin> en_id ` set (db_entities db1)"
    by (simp add: executeImport_def sample_appr_def import_payload_def get_prop_def obj_of_def prop_obj_def prop_str_def
        prop_arr_def DOMAINS_def sample_queue_def import_step_def not_null_def card_imported insert_entity_def import_card_def
        contractor_unique_def owner_event_def insert_event_def keys_unique_def sql_check_def sample_appr_env_def num_01 Let_def)
  then obtain db1 where db1: "executeImport (sample_appr_env []) ?row ''owner'' (sample_queue []) = Inr db1"
    "contractor_unique (db_entities db1)" "distinct (map en_id (db_entities db1))" "keys_unique ev_clientKey (db_events db1)"
    "db_orgs db1 = [(''vendhub'', ''o1'')]"
    "ae_id (sample_appr_env []) ''entity'' (length (db_entities db1)) \<notin> en_id ` set (db_entities db1)"
    by (elim exE conjE) (rule that)
  obtain db2 where db2: "executeImport (sample_appr_env []) ?row2 ''owner'' db1 = Inr db2"
    using sample_import [OF db1(2-6), of "''a2''" Approved "''owner''"] by (elim exE) (rule that)
  have "ap_payload ?row2 = ap_payload ?row" by (simp add: sample_appr_def)
  from import_twice_creates_nothing [OF db1(1) this db2] db1(1) db2 show ?thesis by (intro exI conjI)
qed

section \<open>One crooked record\<close>

lemma import_null: "JNull \<in> set records \<Longrightarrow> \<exists>e. foldM_res (import_step E row actor org type) records st = Inl e"
  by (rule foldM_error) (auto simp: import_step_def not_null_def split: prod.split)

text \<open>C17. One \<open>null\<close> among the records of an import makes its approval fail as a whole: the decision is
  rolled back, the request stays pending, and every later attempt fails the same way.\<close>
theorem null_record_blocks_approval:
  assumes "find (\<lambda>a. ap_id a = i \<and> ap_decision a = Pending) (db_approvals db) = Some a"
    "import_runs a db org type records" "JNull \<in> set records"
  shows "\<exists>e. decide E i Approved actor db = Inl e"
proof (rule ccontr)
  assume "\<not> ?thesis"
  then obtain db' row where d: "decide E i Approved actor db = Inr (db', row)"
    by (cases "decide E i Approved actor db") auto
  obtain a' db2 where a': "row = a'\<lparr>ap_decision := Approved\<rparr>" "before_execute i Approved db db2"
    "execute E Approved row actor db2 = Inr db'" "decide E i Approved actor db = Inr (db', row)"
    using decide_Inr [OF d] d by blast
  have row: "row = a\<lparr>ap_decision := Approved\<rparr>" using d assms(1) by (auto simp: decide_def Let_def res_simps)
  have runs: "import_runs row db2 org type records"
    using assms(2) a'(2) unfolding row by (simp add: import_runs_def before_execute_def)
  obtain db3 where "executeImport E row actor db2 = Inr db3" using a'(3) by (auto simp: execute_def res_simps)
  with executeImport_cases [of E row actor db2] runs obtain org1 type1 records1 dm where
    "import_runs row db2 org1 type1 records1"
    "rbind (foldM_res (import_step E row actor org1 type1) records1 (db2, 0, 0)) (\<lambda>(db1, created, skipped).
       owner_event ''import.executed'' [(''approvalId'', JStr (ap_id row)), (''domain'', JStr dm), (''type'', JStr type1),
         (''created'', JInt created), (''skipped'', JInt skipped)] db1) = Inr db3"
    by (elim disjE exE conjE) (blast, metis)
  moreover have "records1 = records" using runs calculation(1) by (auto simp: import_runs_def)
  ultimately show False
    using import_null [OF assms(3), of E row actor org1 type1 "(db2, 0, 0)"] by auto
qed

theorem null_record_blocks_approval_witness:
  "\<exists>e. decide (sample_appr_env []) ''a1'' Approved ''owner'' (sample_queue [sample_appr ''a1'' Pending (import_payload [card_record, JNull])]) = Inl e"
proof (rule null_record_blocks_approval)
  let ?a = "sample_appr ''a1'' Pending (import_payload [card_record, JNull])"
  show "find (\<lambda>a. ap_id a = ''a1'' \<and> ap_decision a = Pending) (db_approvals (sample_queue [?a])) = Some ?a"
    by (simp add: sample_queue_def sample_appr_def)
  show "import_runs ?a (sample_queue [?a]) ''o1'' ''machine'' [card_record, JNull]"
    by (simp add: import_runs_def sample_appr_def import_payload_def get_prop_def obj_of_def prop_obj_def prop_str_def prop_arr_def
        DOMAINS_def sample_queue_def)
qed simp

definition coffee_payload :: "json list \<Rightarrow> json" where
  "coffee_payload rs = JObj [(''coffeeImport'', JObj [(''records'', JArr rs)])]"

definition bunker_record :: "(string \<times> json) list \<Rightarrow> json" where
  "bunker_record ps = JObj (ps @ [(''locationId'', JStr ''l1''), (''filledWeight'', JInt 500), (''enteredDate'', JStr ''2026-07-01'')])"

definition coffee_queue :: "json \<Rightarrow> appr_db" where
  "coffee_queue rec = (sample_queue [sample_appr ''a1'' Pending (coffee_payload [rec])])
     \<lparr>db_entities := [\<lparr>en_id = ''l1'', en_orgId = Some ''o1'', en_type = ''location'', en_name = ''kpp'', en_externalRef = None,
        en_attrs = JObj [], en_approved = True, en_approvedBy = None, en_createdFrom = None\<rparr>]\<rparr>"

lemmas coffee_run_defs = decide_def coffee_queue_def sample_queue_def sample_appr_def coffee_payload_def bunker_record_def
  owner_event_def insert_event_def keys_unique_def sql_check_def execute_def executeImport_def executePurchaseOrder_def
  executeCoffeeImport_def executeEntityApprove_def known_places_def import_refills_def import_returns_def import_consumables_def
  refill_cand_of_def resolveLocation_def trunc_num_def prop_num_def prop_str_def prop_arr_def prop_obj_def js_trunc_def
  day_prop_def outside_def num_in_def not_null_def get_prop_def obj_of_def truthy_def in_days_def refill_key_def
  add_refill_def int_column_def opt_int_column_def insert_refill_def int32_def by_day_def

text \<open>A refill record without a position passes the range check of the import, since no comparison holds of
  NaN, and then fails the insert, so the approval can never be carried out; the same record with a
  position out of range is skipped and the approval goes through.\<close>
theorem missing_position_blocks_approval:
  "decide (sample_appr_env []) ''a1'' Approved ''owner'' (coffee_queue (bunker_record [])) = Inl SqlError
    \<and> (\<exists>db' row. decide (sample_appr_env []) ''a1'' Approved ''owner'' (coffee_queue (bunker_record [(''position'', JInt 9)])) = Inr (db', row)
        \<and> db_refills db' = [])"
proof -
  have day: "is_iso_day ''2026-07-01''" by code_simp
  show ?thesis
    by (rule conjI) (simp_all add: coffee_run_defs day sample_appr_env_def image_iff Let_def)
qed

end
