(* ===== verification/VendingCalc.thy ===== *)
theory VendingCalc
  imports JsCollections JsArith
begin

text \<open>
  The computation core of the vending operations, \<^verbatim>\<open>packages/shared/src/vending-calc.ts\<close>: validity of
  a slot, deficits, the need of every product, the purchase with its distribution, the run-out forecast
  and the cash of a purchase trip.

  Quantities are whole numbers, from integer columns of 32 bits, so sums and the ceiling of a
  quotient are exact in JavaScript; prices and percentages are JavaScript numbers.  The product-name
  folding, which works on Cyrillic letters, is left out.
\<close>

section \<open>Slots\<close>

definition MAX_CAPACITY :: int where "MAX_CAPACITY = 100"

definition PACK_DRINK :: int where "PACK_DRINK = 12"

definition PACK_SNACK :: int where "PACK_SNACK = 10"

datatype category = Drink | Snack | Other

datatype planogram_status = PlanOk | NoSlots | Uncalibrated

definition packForCategory :: "category \<Rightarrow> int" where
  "packForCategory c = (if c = Drink then PACK_DRINK else PACK_SNACK)"

record slot =
  sl_coilId :: string
  sl_product :: "string option"
  sl_capacity :: int
  sl_quantity :: int

definition slotValid :: "int \<Rightarrow> slot \<Rightarrow> bool" where
  "slotValid maxCapacity s \<longleftrightarrow> sl_capacity s > 0 \<and> sl_capacity s \<le> maxCapacity"

definition hasProduct :: "slot \<Rightarrow> bool" where
  "hasProduct s \<longleftrightarrow> (case sl_product s of None \<Rightarrow> False | Some p \<Rightarrow> js_trim p \<noteq> [])"

text \<open>The ratio is a rational; its default is one half.\<close>

definition planogramStatus :: "int \<Rightarrow> rat \<Rightarrow> slot list \<Rightarrow> planogram_status" where
  "planogramStatus maxCapacity ratio slots =
     (let withProduct = filter hasProduct slots in
      if withProduct = [] then NoSlots
      else if of_nat (length (filter (slotValid maxCapacity) withProduct)) < of_nat (length withProduct) * ratio then Uncalibrated
      else PlanOk)"

section \<open>Deficits\<close>

definition slotDeficit :: "slot \<Rightarrow> int" where
  "slotDeficit s = max 0 (sl_capacity s - min (sl_quantity s) (sl_capacity s))"

record machine_deficit =
  md_deficit :: int
  md_capacity :: int
  md_filled :: int
  md_fillRate :: jsnum

definition machine_step :: "slot \<Rightarrow> int \<times> int \<times> int \<Rightarrow> int \<times> int \<times> int" where
  "machine_step s t = (case t of (deficit, capacity, filled) \<Rightarrow>
     (let q = min (sl_quantity s) (sl_capacity s) in
      (deficit + (sl_capacity s - q), capacity + sl_capacity s, filled + q)))"

definition machineDeficit :: "int \<Rightarrow> slot list \<Rightarrow> machine_deficit" where
  "machineDeficit maxCapacity slots =
     (case fold machine_step (filter (slotValid maxCapacity) slots) (0, 0, 0) of (deficit, capacity, filled) \<Rightarrow>
      \<lparr>md_deficit = deficit, md_capacity = capacity, md_filled = filled,
       md_fillRate = (if capacity = 0 then Fin 0
         else js_round (js_mul (js_div (Fin (of_int filled)) (Fin (of_int capacity))) (Fin 100)))\<rparr>)"

datatype color = Red | Yellow | Green

definition deficitColor :: "int \<Rightarrow> int \<Rightarrow> int \<Rightarrow> color" where
  "deficitColor deficit red yellow = (if deficit \<ge> red then Red else if deficit \<ge> yellow then Yellow else Green)"

section \<open>Need by product\<close>

record machine_slots =
  ms_machineId :: string
  ms_slots :: "slot list"

record product_need =
  pn_product :: string
  pn_perMachine :: "(string \<times> int) list"
  pn_total :: int

definition empty_need :: "string \<Rightarrow> product_need" where
  "empty_need p = \<lparr>pn_product = p, pn_perMachine = [], pn_total = 0\<rparr>"

definition add_need :: "string \<Rightarrow> int \<Rightarrow> product_need \<Rightarrow> product_need" where
  "add_need machine d e = e\<lparr>pn_perMachine := map_put machine (\<lambda>n. n + d) 0 (pn_perMachine e), pn_total := pn_total e + d\<rparr>"

definition need_step :: "int \<Rightarrow> string \<Rightarrow> slot \<Rightarrow> (string \<times> product_need) list \<Rightarrow> (string \<times> product_need) list" where
  "need_step maxCapacity machine s m =
     (if \<not> hasProduct s \<or> \<not> slotValid maxCapacity s then m
      else if slotDeficit s \<le> 0 then m
      else (let name = js_trim (the (sl_product s)) in map_put name (add_need machine (slotDeficit s)) (empty_need name) m))"

definition needByProduct :: "int \<Rightarrow> machine_slots list \<Rightarrow> product_need list" where
  "needByProduct maxCapacity machines =
     map snd (fold (\<lambda>m. fold (need_step maxCapacity (ms_machineId m)) (ms_slots m)) machines [])"

section \<open>Purchase\<close>

record price_entry =
  pe_price :: jsnum
  pe_pack :: int

definition PRICE_SPIKE_PCT :: int where "PRICE_SPIKE_PCT = 20"

definition js_abs :: "jsnum \<Rightarrow> jsnum" where
  "js_abs v = (if js_less v (Fin 0) then js_neg v else v)"

definition priceDeviationPct :: "jsnum \<Rightarrow> jsnum option \<Rightarrow> jsnum option" where
  "priceDeviationPct nxt lst = (case lst of
     None \<Rightarrow> None
   | Some l \<Rightarrow>
       if \<not> js_finite l \<or> js_leq l (Fin 0) then None
       else if \<not> js_finite nxt then None
       else Some (js_abs (js_mul (js_div (js_sub nxt l) l) (Fin 100))))"

record purchase_row =
  pr_product :: string
  pr_perMachine :: "(string \<times> int) list"
  pr_need :: "int option"
  pr_stock :: int
  pr_sold7 :: int

datatype allocation = PurchaseFirst | WarehouseFirst

record product_rule =
  ru_excluded :: bool
  ru_fixedQty :: "int option"
  ru_pack :: "int option"

record purchase_item =
  pi_product :: string
  pi_perMachine :: "(string \<times> int) list"
  pi_need :: int
  pi_stock :: int
  pi_covered :: int
  pi_buy :: int
  pi_surplus :: int
  pi_pack :: int
  pi_order :: int
  pi_extra :: int
  pi_price :: jsnum
  pi_costExact :: jsnum
  pi_costRounded :: jsnum
  pi_noPrice :: bool
  pi_noSales :: bool
  pi_fromPurchase :: int
  pi_fromStock :: int
  pi_unfilled :: int
  pi_toStock :: int
  pi_stockAfter :: int
  pi_excluded :: bool
  pi_fixedQty :: "int option"

record purchase_options =
  po_round :: bool
  po_includeNoSales :: bool
  po_allocation :: allocation
  po_rules :: "string \<Rightarrow> product_rule option"

text \<open>\<open>Math.ceil(buy / pack) * pack\<close> on whole numbers.\<close>

definition ceil_pack :: "int \<Rightarrow> int \<Rightarrow> int" where
  "ceil_pack buy pack = - ((- buy) div pack) * pack"

definition row_need :: "purchase_row \<Rightarrow> int" where
  "row_need row = (case pr_need row of Some n \<Rightarrow> n | None \<Rightarrow> sum_list (map snd (pr_perMachine row)))"

definition row_pack :: "price_entry option \<Rightarrow> product_rule option \<Rightarrow> int" where
  "row_pack price rule = max 1 (case price of Some p \<Rightarrow> pe_pack p
     | None \<Rightarrow> (case rule of None \<Rightarrow> 1 | Some r \<Rightarrow> (case ru_pack r of None \<Rightarrow> 1 | Some n \<Rightarrow> n)))"

definition rule_fixed :: "product_rule option \<Rightarrow> int option" where
  "rule_fixed rule = (case rule of None \<Rightarrow> None
     | Some r \<Rightarrow> (case ru_fixedQty r of None \<Rightarrow> None | Some n \<Rightarrow> if n > 0 then Some n else None))"

definition row_order :: "bool \<Rightarrow> bool \<Rightarrow> int option \<Rightarrow> int \<Rightarrow> int \<Rightarrow> int" where
  "row_order rnd excluded fixedQty buy pack =
     (if excluded \<or> buy = 0 then 0
      else case fixedQty of Some n \<Rightarrow> n | None \<Rightarrow> if \<not> rnd then buy else ceil_pack buy pack)"

text \<open>What goes into the machines from the purchase and from the stock.\<close>

definition distribute :: "allocation \<Rightarrow> int \<Rightarrow> int \<Rightarrow> int \<Rightarrow> int \<times> int" where
  "distribute alloc need stock orderForLoad = (case alloc of
     PurchaseFirst \<Rightarrow> (let fp = min need orderForLoad in (fp, min stock (need - fp)))
   | WarehouseFirst \<Rightarrow> (let fs = min stock need in (min orderForLoad (need - fs), fs)))"

definition purchase_item_of :: "(string \<Rightarrow> price_entry option) \<Rightarrow> purchase_options \<Rightarrow> purchase_row \<Rightarrow> purchase_item" where
  "purchase_item_of prices opts row =
     (let need = row_need row; price = prices (pr_product row); rule = po_rules opts (pr_product row);
          excluded = (case rule of None \<Rightarrow> False | Some r \<Rightarrow> ru_excluded r); fixedQty = rule_fixed rule;
          stock = pr_stock row; pack = row_pack price rule;
          unitPrice = (case price of Some p \<Rightarrow> pe_price p | None \<Rightarrow> Fin 0); noSales = (pr_sold7 row \<le> 0);
          shortage = max 0 (need - stock); buy = (if excluded then 0 else shortage);
          order = row_order (po_round opts) excluded fixedQty buy pack;
          purchasable = (\<not> excluded \<and> (po_includeNoSales opts \<or> \<not> noSales));
          orderForLoad = (if purchasable then order else 0);
          (fromPurchase, fromStock) = distribute (po_allocation opts) need stock orderForLoad;
          toStock = orderForLoad - fromPurchase in
      \<lparr>pi_product = pr_product row, pi_perMachine = pr_perMachine row, pi_need = need, pi_stock = stock,
       pi_covered = min stock need, pi_buy = buy, pi_surplus = max 0 (stock - need), pi_pack = pack, pi_order = order,
       pi_extra = max 0 (order - buy), pi_price = unitPrice, pi_costExact = js_mul (Fin (of_int buy)) unitPrice,
       pi_costRounded = js_mul (Fin (of_int order)) unitPrice, pi_noPrice = (price = None), pi_noSales = noSales,
       pi_fromPurchase = fromPurchase, pi_fromStock = fromStock, pi_unfilled = need - fromPurchase - fromStock,
       pi_toStock = toStock, pi_stockAfter = stock - fromStock + toStock, pi_excluded = excluded, pi_fixedQty = fixedQty\<rparr>)"

record purchase_summary =
  ps_items :: "purchase_item list"
  ps_excludedNoSales :: "purchase_item list"
  ps_excludedByRule :: "purchase_item list"
  ps_noPrice :: "string list"
  ps_totalNeed :: int
  ps_totalCovered :: int
  ps_totalBuy :: int
  ps_totalOrder :: int
  ps_costExact :: jsnum
  ps_costRounded :: jsnum
  ps_overpay :: jsnum
  ps_shortfallCost :: jsnum
  ps_costByPriceFull :: jsnum
  ps_totalFromPurchase :: int
  ps_totalFromStock :: int
  ps_totalUnfilled :: int
  ps_totalToStock :: int

definition empty_purchase :: purchase_summary where
  "empty_purchase = \<lparr>ps_items = [], ps_excludedNoSales = [], ps_excludedByRule = [], ps_noPrice = [], ps_totalNeed = 0,
     ps_totalCovered = 0, ps_totalBuy = 0, ps_totalOrder = 0, ps_costExact = Fin 0, ps_costRounded = Fin 0, ps_overpay = Fin 0,
     ps_shortfallCost = Fin 0, ps_costByPriceFull = Fin 0, ps_totalFromPurchase = 0, ps_totalFromStock = 0, ps_totalUnfilled = 0,
     ps_totalToStock = 0\<rparr>"

text \<open>One turn of the loop: the pieces of every item, then the list it belongs to and the money.\<close>

definition count_pieces :: "purchase_item \<Rightarrow> purchase_summary \<Rightarrow> purchase_summary" where
  "count_pieces i p = p\<lparr>ps_totalFromPurchase := ps_totalFromPurchase p + pi_fromPurchase i,
     ps_totalFromStock := ps_totalFromStock p + pi_fromStock i, ps_totalUnfilled := ps_totalUnfilled p + pi_unfilled i,
     ps_totalToStock := ps_totalToStock p + pi_toStock i\<rparr>"

definition count_price :: "purchase_item \<Rightarrow> purchase_summary \<Rightarrow> purchase_summary" where
  "count_price i p =
     (if pi_noPrice i then p\<lparr>ps_noPrice := ps_noPrice p @ [pi_product i]\<rparr>
      else p\<lparr>ps_costByPriceFull := js_add (ps_costByPriceFull p) (js_mul (Fin (of_int (pi_need i))) (pi_price i))\<rparr>)"

definition count_item :: "purchase_item \<Rightarrow> purchase_summary \<Rightarrow> purchase_summary" where
  "count_item i p = p\<lparr>ps_totalNeed := ps_totalNeed p + pi_need i, ps_totalCovered := ps_totalCovered p + pi_covered i,
     ps_totalBuy := ps_totalBuy p + pi_buy i, ps_totalOrder := ps_totalOrder p + pi_order i,
     ps_costExact := (if pi_noPrice i then ps_costExact p else js_add (ps_costExact p) (pi_costExact i)),
     ps_costRounded := (if pi_noPrice i then ps_costRounded p else js_add (ps_costRounded p) (pi_costRounded i)),
     ps_items := ps_items p @ [i]\<rparr>"

definition purchase_step ::
  "(string \<Rightarrow> price_entry option) \<Rightarrow> purchase_options \<Rightarrow> purchase_row \<Rightarrow> purchase_summary \<Rightarrow> purchase_summary" where
  "purchase_step prices opts row p =
     (if row_need row \<le> 0 then p
      else
        (let i = purchase_item_of prices opts row; p1 = count_pieces i p in
         if pi_excluded i then p1\<lparr>ps_excludedByRule := ps_excludedByRule p1 @ [i]\<rparr>
         else
           (let p2 = count_price i p1 in
            if pi_noSales i \<and> \<not> po_includeNoSales opts then p2\<lparr>ps_excludedNoSales := ps_excludedNoSales p2 @ [i]\<rparr>
            else count_item i p2)))"

definition computePurchase :: "purchase_row list \<Rightarrow> (string \<Rightarrow> price_entry option) \<Rightarrow> purchase_options \<Rightarrow> purchase_summary" where
  "computePurchase input prices opts =
     (let p = fold (purchase_step prices opts) input empty_purchase in
      p\<lparr>ps_overpay := js_max (Fin 0) (js_sub (ps_costRounded p) (ps_costExact p)),
        ps_shortfallCost := js_max (Fin 0) (js_sub (ps_costExact p) (ps_costRounded p))\<rparr>)"

section \<open>Run-out forecast\<close>

record runout_input =
  ri_product :: string
  ri_sold7 :: int
  ri_inMachines :: int

record runout =
  ro_product :: string
  ro_inMachines :: int
  ro_daily :: jsnum
  ro_daysLeft :: jsnum

definition runout_of :: "runout_input \<Rightarrow> runout" where
  "runout_of r =
     (let daily = js_div (Fin (of_int (ri_sold7 r))) (Fin 7) in
      \<lparr>ro_product = ri_product r, ro_inMachines = ri_inMachines r, ro_daily = daily,
       ro_daysLeft = (if js_less (Fin 0) daily then js_div (Fin (of_int (ri_inMachines r))) daily else Infty True)\<rparr>)"

definition runoutForecast :: "runout_input list \<Rightarrow> jsnum \<Rightarrow> runout list \<times> runout list" where
  "runoutForecast input criticalDays =
     (let rs = map runout_of input in
      (rs, js_sort (\<lambda>a b. js_less (js_sub (ro_daysLeft a) (ro_daysLeft b)) (Fin 0))
        (filter (\<lambda>r. js_leq (ro_daysLeft r) criticalDays) rs)))"

section \<open>Cash of a purchase trip\<close>

record cash_line =
  cl_label :: string
  cl_amount :: jsnum

record cash_category =
  cc_name :: string
  cc_lines :: "cash_line list"

record cash_session =
  cs_receivedAmount :: jsnum
  cs_categories :: "(cash_category \<times> jsnum) list"
  cs_totalSpent :: jsnum
  cs_remainder :: jsnum

definition js_total :: "jsnum list \<Rightarrow> jsnum" where
  "js_total xs = fold (\<lambda>x a. js_add a x) xs (Fin 0)"

definition computePurchaseCash :: "jsnum \<Rightarrow> cash_category list \<Rightarrow> cash_session" where
  "computePurchaseCash received categories =
     (let summarized = map (\<lambda>c. (c, js_total (map cl_amount (cc_lines c)))) categories; spent = js_total (map snd summarized) in
      \<lparr>cs_receivedAmount = received, cs_categories = summarized, cs_totalSpent = spent, cs_remainder = js_sub received spent\<rparr>)"

end
