(* ===== verification/VendingFacts.thy ===== *)
theory VendingFacts
  imports VendingCalc
begin

text \<open>
  Properties of the vending core: the distribution of a purchase, its two policies, its summary as sums
  over its lists, and the need of the products as the deficits of the slots.
\<close>

section \<open>Distribution\<close>

lemma ceil_pack_bounds:
  assumes "0 < pack"
  shows "buy \<le> ceil_pack buy pack" "ceil_pack buy pack < buy + pack" "pack dvd ceil_pack buy pack"
proof -
  have "ceil_pack buy pack = buy + (- buy) mod pack"
    using minus_div_mult_eq_mod [of "- buy" pack] by (simp add: ceil_pack_def)
  then show "buy \<le> ceil_pack buy pack" "ceil_pack buy pack < buy + pack"
    using assms pos_mod_bound [of pack "- buy"] pos_mod_sign [of pack "- buy"] by linarith+
  show "pack dvd ceil_pack buy pack" by (simp add: ceil_pack_def)
qed

lemma rule_fixed_pos: "rule_fixed rule = Some n \<Longrightarrow> 0 < n"
  by (auto simp: rule_fixed_def split: option.split_asm if_split_asm)

lemma row_order_nonneg: "0 \<le> buy \<Longrightarrow> fixedQty = rule_fixed rule \<Longrightarrow> 0 < pack \<Longrightarrow> 0 \<le> row_order rnd excl fixedQty buy pack"
  using ceil_pack_bounds(1) [of pack buy] rule_fixed_pos [of rule]
  by (auto simp: row_order_def split: option.split)

lemma distribute_loads:
  assumes "distribute alloc need stock ord = (fp, fs)" "0 \<le> need" "0 \<le> stock" "0 \<le> ord"
  shows "0 \<le> fp" "0 \<le> fs" "fp \<le> ord" "fs \<le> stock" "fp + fs = min need (stock + ord)"
  using assms by (auto simp: distribute_def Let_def min_def split: allocation.split_asm if_split_asm)

definition item_loads :: "purchase_item \<Rightarrow> bool" where
  "item_loads i \<longleftrightarrow> 0 \<le> pi_fromPurchase i \<and> 0 \<le> pi_fromStock i \<and> pi_fromStock i \<le> pi_stock i \<and> 0 \<le> pi_unfilled i
     \<and> 0 \<le> pi_toStock i \<and> 0 \<le> pi_stockAfter i \<and> pi_fromPurchase i + pi_fromStock i + pi_unfilled i = pi_need i
     \<and> (pi_unfilled i = 0 \<or> pi_stockAfter i = 0)
     \<and> pi_stockAfter i + pi_fromPurchase i + pi_fromStock i = pi_stock i + (pi_fromPurchase i + pi_toStock i)"

lemma purchase_item_loads:
  assumes "0 < row_need row" "0 \<le> pr_stock row"
  shows "item_loads (purchase_item_of prices opts row)"
proof -
  let ?rule = "po_rules opts (pr_product row)" and ?price = "prices (pr_product row)"
  let ?excluded = "case ?rule of None \<Rightarrow> False | Some r \<Rightarrow> ru_excluded r"
  let ?buy = "if ?excluded then 0 else max 0 (row_need row - pr_stock row)"
  let ?order = "row_order (po_round opts) ?excluded (rule_fixed ?rule) ?buy (row_pack ?price ?rule)"
  let ?load = "if \<not> ?excluded \<and> (po_includeNoSales opts \<or> \<not> pr_sold7 row \<le> 0) then ?order else 0"
  obtain fp fs where d: "distribute (po_allocation opts) (row_need row) (pr_stock row) ?load = (fp, fs)" by fastforce
  have "0 < row_pack ?price ?rule" by (simp add: row_pack_def)
  then have "0 \<le> ?load" using row_order_nonneg [OF _ refl] by simp
  note l = distribute_loads [OF d _ assms(2) this]
  have "pi_need (purchase_item_of prices opts row) = row_need row" "pi_stock (purchase_item_of prices opts row) = pr_stock row"
    "pi_fromPurchase (purchase_item_of prices opts row) = fp" "pi_fromStock (purchase_item_of prices opts row) = fs"
    "pi_unfilled (purchase_item_of prices opts row) = row_need row - fp - fs"
    "pi_toStock (purchase_item_of prices opts row) = ?load - fp"
    "pi_stockAfter (purchase_item_of prices opts row) = pr_stock row - fs + (?load - fp)"
    by (simp_all add: purchase_item_of_def Let_def d)
  then show ?thesis using l assms by (auto simp: item_loads_def min_def split: if_split_asm)
qed

section \<open>The summary is the sum of its lists\<close>

definition all_items :: "purchase_summary \<Rightarrow> purchase_item list" where
  "all_items p = ps_items p @ ps_excludedNoSales p @ ps_excludedByRule p"

definition summed :: "purchase_summary \<Rightarrow> bool" where
  "summed p \<longleftrightarrow> ps_totalNeed p = sum_list (map pi_need (ps_items p)) \<and> ps_totalCovered p = sum_list (map pi_covered (ps_items p))
     \<and> ps_totalBuy p = sum_list (map pi_buy (ps_items p)) \<and> ps_totalOrder p = sum_list (map pi_order (ps_items p))
     \<and> ps_totalFromPurchase p = sum_list (map pi_fromPurchase (all_items p))
     \<and> ps_totalFromStock p = sum_list (map pi_fromStock (all_items p))
     \<and> ps_totalUnfilled p = sum_list (map pi_unfilled (all_items p))
     \<and> ps_totalToStock p = sum_list (map pi_toStock (all_items p))
     \<and> ps_costExact p = js_total (map pi_costExact (filter (\<lambda>i. \<not> pi_noPrice i) (ps_items p)))
     \<and> ps_costRounded p = js_total (map pi_costRounded (filter (\<lambda>i. \<not> pi_noPrice i) (ps_items p)))"

lemma purchase_step_summed: "summed p \<Longrightarrow> summed (purchase_step prices opts row p)"
  by (simp add: summed_def all_items_def purchase_step_def count_pieces_def count_price_def count_item_def js_total_def Let_def)

lemma fold_inv: "P s \<Longrightarrow> (\<And>x s. x \<in> set xs \<Longrightarrow> P s \<Longrightarrow> P (f x s)) \<Longrightarrow> P (fold f xs s)"
  by (induction xs arbitrary: s) auto

lemma purchase_fold_summed: "summed (fold (purchase_step prices opts) input empty_purchase)"
  by (rule fold_inv) (simp_all add: purchase_step_summed, simp add: summed_def empty_purchase_def all_items_def js_total_def)

text \<open>Every row with a need is in exactly one list, as the item of that row.\<close>

lemma purchase_step_items:
  "mset (all_items (purchase_step prices opts row p))
    = mset (all_items p) + (if row_need row \<le> 0 then {#} else {#purchase_item_of prices opts row#})"
  by (simp add: all_items_def purchase_step_def count_pieces_def count_price_def count_item_def Let_def)

lemma purchase_fold_items:
  "mset (all_items (fold (purchase_step prices opts) input p))
    = mset (all_items p) + mset (map (purchase_item_of prices opts) (filter (\<lambda>r. 0 < row_need r) input))"
  by (induction input arbitrary: p) (auto simp: purchase_step_items)

lemma computePurchase_items:
  "mset (all_items (computePurchase input prices opts))
    = mset (map (purchase_item_of prices opts) (filter (\<lambda>r. 0 < row_need r) input))"
  using purchase_fold_items [of prices opts input empty_purchase]
  by (simp add: computePurchase_def Let_def all_items_def empty_purchase_def)

text \<open>The purchase accounts for every row: each row with a need is in exactly one of the three lists, the
  totals of need, purchase, order and money are the sums over the bought items, and the pieces are the
  sums over all three lists.\<close>
theorem purchase_sums_its_lists:
  "mset (all_items (computePurchase input prices opts))
      = mset (map (purchase_item_of prices opts) (filter (\<lambda>r. 0 < row_need r) input))
    \<and> summed (computePurchase input prices opts)"
  using purchase_fold_summed [of prices opts input]
  by (simp add: computePurchase_items) (simp add: computePurchase_def Let_def summed_def all_items_def)

text \<open>The distribution neither loses nor invents a piece: for every item the machines get what they need
  but the unfilled rest, something stays unfilled only when the stock is empty afterwards, and stock
  and purchase are spent exactly.\<close>
theorem distribution_conserves:
  assumes "i \<in> set (all_items (computePurchase input prices opts))" "\<And>r. r \<in> set input \<Longrightarrow> 0 \<le> pr_stock r"
  shows "item_loads i"
proof -
  have "i \<in># mset (map (purchase_item_of prices opts) (filter (\<lambda>r. 0 < row_need r) input))"
    using assms(1) unfolding computePurchase_items [symmetric] by simp
  then show ?thesis using assms(2) purchase_item_loads by auto
qed

definition sample_purchase_row :: purchase_row where
  "sample_purchase_row = \<lparr>pr_product = ''Cola'', pr_perMachine = [(''m1'', 7), (''m2'', 6)], pr_need = None, pr_stock = 4, pr_sold7 = 20\<rparr>"

definition sample_options :: "allocation \<Rightarrow> purchase_options" where
  "sample_options a = \<lparr>po_round = True, po_includeNoSales = False, po_allocation = a, po_rules = (\<lambda>_. None)\<rparr>"

definition sample_prices :: "string \<Rightarrow> price_entry option" where
  "sample_prices p = Some \<lparr>pe_price = Fin 100, pe_pack = 12\<rparr>"

theorem distribution_conserves_witness:
  "item_loads (purchase_item_of sample_prices (sample_options PurchaseFirst) sample_purchase_row)"
proof (rule distribution_conserves)
  show "purchase_item_of sample_prices (sample_options PurchaseFirst) sample_purchase_row
      \<in> set (all_items (computePurchase [sample_purchase_row] sample_prices (sample_options PurchaseFirst)))"
    unfolding set_mset_mset [symmetric] computePurchase_items by (simp add: row_need_def sample_purchase_row_def)
  show "r \<in> set [sample_purchase_row] \<Longrightarrow> 0 \<le> pr_stock r" for r by (simp add: sample_purchase_row_def)
qed

section \<open>The two policies\<close>

text \<open>Two summaries that differ only in the split between purchase and stock.\<close>

definition same_plan :: "purchase_item \<Rightarrow> purchase_item \<Rightarrow> bool" where
  "same_plan i j \<longleftrightarrow> (\<exists>fp fs ts. j = i\<lparr>pi_fromPurchase := fp, pi_fromStock := fs, pi_toStock := ts\<rparr>
     \<and> fp + fs = pi_fromPurchase i + pi_fromStock i \<and> pi_fromStock i \<le> fs)"

definition same_purchase :: "purchase_summary \<Rightarrow> purchase_summary \<Rightarrow> bool" where
  "same_purchase p q \<longleftrightarrow> list_all2 same_plan (ps_items p) (ps_items q)
     \<and> list_all2 same_plan (ps_excludedNoSales p) (ps_excludedNoSales q)
     \<and> list_all2 same_plan (ps_excludedByRule p) (ps_excludedByRule q) \<and> ps_noPrice q = ps_noPrice p
     \<and> ps_totalNeed q = ps_totalNeed p \<and> ps_totalCovered q = ps_totalCovered p \<and> ps_totalBuy q = ps_totalBuy p
     \<and> ps_totalOrder q = ps_totalOrder p \<and> ps_costExact q = ps_costExact p \<and> ps_costRounded q = ps_costRounded p
     \<and> ps_costByPriceFull q = ps_costByPriceFull p \<and> ps_totalUnfilled q = ps_totalUnfilled p
     \<and> ps_totalFromPurchase q + ps_totalFromStock q = ps_totalFromPurchase p + ps_totalFromStock p
     \<and> ps_totalFromStock p \<le> ps_totalFromStock q"

definition with_policy :: "allocation \<Rightarrow> purchase_options \<Rightarrow> purchase_options" where
  "with_policy a opts = opts\<lparr>po_allocation := a\<rparr>"

lemma distribute_policies:
  assumes "distribute PurchaseFirst need stock ord = (fp, fs)" "distribute WarehouseFirst need stock ord = (fp', fs')"
    "0 \<le> need" "0 \<le> stock" "0 \<le> ord"
  shows "fp' + fs' = fp + fs" "fs \<le> fs'"
  using assms by (auto simp: distribute_def Let_def min_def split: if_split_asm)

lemma item_policies:
  assumes "0 < row_need row" "0 \<le> pr_stock row"
  shows "same_plan (purchase_item_of prices (with_policy PurchaseFirst opts) row)
    (purchase_item_of prices (with_policy WarehouseFirst opts) row)"
proof -
  let ?rule = "po_rules opts (pr_product row)" and ?price = "prices (pr_product row)"
  let ?excluded = "case ?rule of None \<Rightarrow> False | Some r \<Rightarrow> ru_excluded r"
  let ?buy = "if ?excluded then 0 else max 0 (row_need row - pr_stock row)"
  let ?order = "row_order (po_round opts) ?excluded (rule_fixed ?rule) ?buy (row_pack ?price ?rule)"
  let ?load = "if \<not> ?excluded \<and> (po_includeNoSales opts \<or> \<not> pr_sold7 row \<le> 0) then ?order else 0"
  obtain fp fs where d: "distribute PurchaseFirst (row_need row) (pr_stock row) ?load = (fp, fs)" by fastforce
  obtain fp' fs' where d': "distribute WarehouseFirst (row_need row) (pr_stock row) ?load = (fp', fs')" by fastforce
  have "0 < row_pack ?price ?rule" by (simp add: row_pack_def)
  then have "0 \<le> ?load" using row_order_nonneg [OF _ refl] by simp
  note p = distribute_policies [OF d d' _ assms(2) this]
  have "purchase_item_of prices (with_policy WarehouseFirst opts) row
      = (purchase_item_of prices (with_policy PurchaseFirst opts) row)
        \<lparr>pi_fromPurchase := fp', pi_fromStock := fs', pi_toStock := ?load - fp'\<rparr>"
    using p assms(1) by (simp add: purchase_item_of_def Let_def d d' with_policy_def)
  moreover have "pi_fromPurchase (purchase_item_of prices (with_policy PurchaseFirst opts) row) = fp"
    "pi_fromStock (purchase_item_of prices (with_policy PurchaseFirst opts) row) = fs"
    by (simp_all add: purchase_item_of_def Let_def d with_policy_def)
  ultimately show ?thesis unfolding same_plan_def using p assms(1) by (intro exI conjI) simp_all
qed

lemma same_plan_fields:
  assumes "same_plan i j"
  shows "pi_excluded j = pi_excluded i" "pi_noPrice j = pi_noPrice i" "pi_noSales j = pi_noSales i" "pi_need j = pi_need i"
    "pi_product j = pi_product i" "pi_price j = pi_price i" "pi_covered j = pi_covered i" "pi_buy j = pi_buy i"
    "pi_order j = pi_order i" "pi_costExact j = pi_costExact i" "pi_costRounded j = pi_costRounded i"
    "pi_unfilled j = pi_unfilled i" "pi_fromPurchase j + pi_fromStock j = pi_fromPurchase i + pi_fromStock i"
    "pi_fromStock i \<le> pi_fromStock j"
  using assms by (auto simp: same_plan_def)

lemma step_policies:
  assumes "same_purchase p q" "0 \<le> pr_stock row"
  shows "same_purchase (purchase_step prices (with_policy PurchaseFirst opts) row p)
    (purchase_step prices (with_policy WarehouseFirst opts) row q)"
proof (cases "row_need row \<le> 0")
  case True
  with assms show ?thesis by (simp add: purchase_step_def)
next
  case False
  then have s: "same_plan (purchase_item_of prices (with_policy PurchaseFirst opts) row)
      (purchase_item_of prices (with_policy WarehouseFirst opts) row)"
    using item_policies assms(2) by simp
  have o: "po_includeNoSales (with_policy a opts) = po_includeNoSales opts" for a by (simp add: with_policy_def)
  show ?thesis
    using False assms(1) s same_plan_fields [OF s]
    by (simp add: purchase_step_def same_purchase_def count_pieces_def count_price_def count_item_def o Let_def list_all2_appendI)
qed

text \<open>C23. The allocation policy changes only the split between purchase and stock: need, order, money and the
  unfilled rest of the two policies are the same, the machines get the same pieces, and
  purchase-first never takes more from the stock.\<close>
theorem policy_changes_only_the_split:
  assumes "\<And>r. r \<in> set input \<Longrightarrow> 0 \<le> pr_stock r"
  shows "same_purchase (computePurchase input prices (with_policy PurchaseFirst opts))
    (computePurchase input prices (with_policy WarehouseFirst opts))"
proof -
  have "same_purchase (fold (purchase_step prices (with_policy PurchaseFirst opts)) input p)
      (fold (purchase_step prices (with_policy WarehouseFirst opts)) input q)" if "same_purchase p q" for p q
    using that assms by (induction input arbitrary: p q) (simp_all add: step_policies)
  moreover have "same_purchase empty_purchase empty_purchase" by (simp add: same_purchase_def empty_purchase_def)
  ultimately show ?thesis by (simp add: computePurchase_def Let_def same_purchase_def)
qed

theorem policy_changes_only_the_split_witness:
  "same_purchase (computePurchase [sample_purchase_row] sample_prices (with_policy PurchaseFirst (sample_options PurchaseFirst)))
    (computePurchase [sample_purchase_row] sample_prices (with_policy WarehouseFirst (sample_options PurchaseFirst)))"
  by (rule policy_changes_only_the_split) (simp add: sample_purchase_row_def)

text \<open>The full purchase by the price list counts products that are not bought: a product without sales goes to
  the list of the excluded ones, is neither bought nor paid for, and is still in \<open>costByPriceFull\<close>.\<close>
theorem price_list_cost_counts_unsold:
  "let p = computePurchase [sample_purchase_row\<lparr>pr_sold7 := 0\<rparr>] sample_prices (sample_options PurchaseFirst) in
    ps_items p = [] \<and> ps_costRounded p = Fin 0 \<and> ps_costByPriceFull p = Fin 1300"
proof -
  have n: "row_need (sample_purchase_row\<lparr>pr_sold7 := 0\<rparr>) = 13" by (simp add: row_need_def sample_purchase_row_def)
  let ?i = "purchase_item_of sample_prices (sample_options PurchaseFirst) (sample_purchase_row\<lparr>pr_sold7 := 0\<rparr>)"
  have i: "pi_excluded ?i = False" "pi_noSales ?i = True" "pi_noPrice ?i = False" "pi_need ?i = 13" "pi_price ?i = Fin 100"
    by (simp_all add: purchase_item_of_def Let_def n case_prod_beta) (simp_all add: sample_options_def sample_prices_def sample_purchase_row_def)
  have "\<not> po_includeNoSales (sample_options PurchaseFirst)" by (simp add: sample_options_def)
  then show ?thesis
    using to_double_numeral [of "num.Bit0 (num.Bit0 (num.Bit1 (num.Bit0 (num.Bit1 (num.Bit0 (num.Bit0 (num.Bit0 (num.Bit1 (num.Bit0 num.One)))))))))"]
    by (simp add: computePurchase_def purchase_step_def n i count_pieces_def count_price_def empty_purchase_def Let_def)
qed

section \<open>The need is the deficit\<close>

definition slot_need :: "int \<Rightarrow> slot \<Rightarrow> int" where
  "slot_need maxCapacity s = (if hasProduct s \<and> slotValid maxCapacity s then slotDeficit s else 0)"

definition need_entry :: "string \<times> product_need \<Rightarrow> bool" where
  "need_entry p \<longleftrightarrow> pn_product (snd p) = fst p \<and> 0 < pn_total (snd p) \<and> distinct (map fst (pn_perMachine (snd p)))
     \<and> pn_total (snd p) = sum_list (map snd (pn_perMachine (snd p)))"

lemma add_need_total [simp]: "pn_total (add_need machine d e) = pn_total e + d" "pn_product (add_need machine d e) = pn_product e"
  by (simp_all add: add_need_def)

lemma add_need_entry:
  assumes "pn_product e = k" "0 \<le> pn_total e" "distinct (map fst (pn_perMachine e))" "pn_total e = sum_list (map snd (pn_perMachine e))" "0 < d"
  shows "need_entry (k, add_need machine d e)"
proof -
  have "sum_list (map snd (map_put machine (\<lambda>n. n + d) 0 (pn_perMachine e))) = sum_list (map snd (pn_perMachine e)) + d"
    using sum_put [OF assms(3), of "\<lambda>x. x" 0 machine "\<lambda>n. n + d"] by simp
  with assms show ?thesis by (simp add: need_entry_def distinct_put) (simp add: add_need_def distinct_put)
qed

lemma need_step_inv:
  assumes "distinct (map fst m)" "\<forall>p \<in> set m. need_entry p"
  shows "distinct (map fst (need_step mc machine s m)) \<and> (\<forall>p \<in> set (need_step mc machine s m). need_entry p)
    \<and> sum_list (map (\<lambda>p. pn_total (snd p)) (need_step mc machine s m)) = sum_list (map (\<lambda>p. pn_total (snd p)) m) + slot_need mc s"
proof (cases "hasProduct s \<and> slotValid mc s \<and> 0 < slotDeficit s")
  case False
  have "0 \<le> slotDeficit s" by (simp add: slotDeficit_def)
  with False assms show ?thesis by (auto simp: need_step_def slot_need_def)
next
  case True
  let ?k = "js_trim (the (sl_product s))" let ?m = "map_put ?k (add_need machine (slotDeficit s)) (empty_need ?k) m"
  have step: "need_step mc machine s m = ?m" using True by (simp add: need_step_def Let_def)
  have "need_entry p" if "p \<in> set ?m" for p
  proof -
    have "need_entry (?k, add_need machine (slotDeficit s) (empty_need ?k))"
      using True by (intro add_need_entry) (simp_all add: empty_need_def)
    moreover have "need_entry (?k, add_need machine (slotDeficit s) e)" if "(?k, e) \<in> set m" for e
      using assms(2) that True by (intro add_need_entry) (auto simp: need_entry_def)
    ultimately show ?thesis using set_put [OF that] assms(2) by (cases p) auto
  qed
  moreover have "sum_list (map (\<lambda>p. pn_total (snd p)) ?m) = sum_list (map (\<lambda>p. pn_total (snd p)) m) + slotDeficit s"
    using sum_put [OF assms(1), of pn_total "empty_need ?k" ?k "add_need machine (slotDeficit s)"] by (simp add: empty_need_def)
  ultimately show ?thesis using True assms(1) by (simp add: step distinct_put slot_need_def)
qed

definition needs_ok :: "(string \<times> product_need) list \<Rightarrow> int \<Rightarrow> bool" where
  "needs_ok m t \<longleftrightarrow> distinct (map fst m) \<and> (\<forall>p \<in> set m. need_entry p) \<and> sum_list (map (\<lambda>p. pn_total (snd p)) m) = t"

lemma need_slots_inv: "needs_ok m t \<Longrightarrow> needs_ok (fold (need_step mc machine) ss m) (t + sum_list (map (slot_need mc) ss))"
proof (induction ss arbitrary: m t)
  case (Cons s ss)
  then have "needs_ok (need_step mc machine s m) (t + slot_need mc s)"
    using need_step_inv [of m mc machine s] by (simp add: needs_ok_def)
  from Cons.IH [OF this] show ?case by (simp add: add.assoc)
qed simp

lemma need_machines_inv:
  "needs_ok m t \<Longrightarrow> needs_ok (fold (\<lambda>x. fold (need_step mc (ms_machineId x)) (ms_slots x)) ms m)
    (t + sum_list (map (\<lambda>x. sum_list (map (slot_need mc) (ms_slots x))) ms))"
proof (induction ms arbitrary: m t)
  case (Cons x ms)
  from Cons.IH [OF need_slots_inv [OF Cons.prems]] show ?case by (simp add: add.assoc)
qed simp

lemma machine_fold_deficit:
  "fst (fold machine_step ss (d, c, f)) = d + sum_list (map (\<lambda>s. sl_capacity s - min (sl_quantity s) (sl_capacity s)) ss)"
  by (induction ss arbitrary: d c f) (simp_all add: machine_step_def Let_def)

lemma machine_need: "sum_list (map (slot_need mc) ss) = md_deficit (machineDeficit mc (filter hasProduct ss))"
proof -
  have "md_deficit (machineDeficit mc (filter hasProduct ss))
      = fst (fold machine_step (filter (slotValid mc) (filter hasProduct ss)) (0, 0, 0))"
    by (simp add: machineDeficit_def split: prod.split)
  also have "\<dots> = sum_list (map (slot_need mc) ss)"
    unfolding machine_fold_deficit by (induction ss) (auto simp: slot_need_def slotDeficit_def)
  finally show ?thesis by simp
qed

text \<open>The need of a product in a machine, read from the result; and its specification, the deficit of the slots
  of the machine that are assigned to the product.\<close>

definition need_at :: "product_need list \<Rightarrow> string \<Rightarrow> string \<Rightarrow> int" where
  "need_at needs p m = (case find (\<lambda>e. pn_product e = p) needs of
     None \<Rightarrow> 0 | Some e \<Rightarrow> map_get m 0 (pn_perMachine e))"

definition assigned_to :: "string \<Rightarrow> slot \<Rightarrow> bool" where
  "assigned_to p s \<longleftrightarrow> hasProduct s \<and> js_trim (the (sl_product s)) = p"

definition product_deficit :: "int \<Rightarrow> string \<Rightarrow> machine_slots \<Rightarrow> int" where
  "product_deficit mc p x = md_deficit (machineDeficit mc (filter (assigned_to p) (ms_slots x)))"

lemma product_need: "product_deficit mc p x = sum_list (map (\<lambda>s. if assigned_to p s then slot_need mc s else 0) (ms_slots x))"
proof -
  have "filter hasProduct (filter (assigned_to p) ss) = filter (assigned_to p) ss" for ss
    by (induction ss) (auto simp: assigned_to_def)
  then have "product_deficit mc p x = sum_list (map (slot_need mc) (filter (assigned_to p) (ms_slots x)))"
    using machine_need [of mc "filter (assigned_to p) (ms_slots x)"] by (simp add: product_deficit_def)
  then show ?thesis by (simp add: sum_list_map_filter')
qed

definition stored_need :: "(string \<times> product_need) list \<Rightarrow> string \<Rightarrow> string \<Rightarrow> int" where
  "stored_need ps p m = map_get m 0 (pn_perMachine (map_get p (empty_need p) ps))"

lemma stored_need_step:
  "stored_need (need_step mc machine s ps) p m
     = stored_need ps p m + (if assigned_to p s \<and> machine = m then slot_need mc s else 0)"
proof (cases "hasProduct s \<and> slotValid mc s \<and> 0 < slotDeficit s")
  case False
  have "0 \<le> slotDeficit s" by (simp add: slotDeficit_def)
  with False show ?thesis by (auto simp: need_step_def slot_need_def)
next
  case True
  let ?k = "js_trim (the (sl_product s))"
  have step: "need_step mc machine s ps = map_put ?k (add_need machine (slotDeficit s)) (empty_need ?k) ps"
    using True by (simp add: need_step_def Let_def)
  show ?thesis
  proof (cases "?k = p")
    case same: True
    with True show ?thesis
      by (auto simp: step stored_need_def assigned_to_def slot_need_def add_need_def)
  next
    case False
    then show ?thesis by (simp add: step stored_need_def assigned_to_def)
  qed
qed

lemma stored_need_slots:
  "stored_need (fold (need_step mc machine) ss ps) p m
     = stored_need ps p m + (if machine = m then sum_list (map (\<lambda>s. if assigned_to p s then slot_need mc s else 0) ss) else 0)"
  by (induction ss arbitrary: ps) (auto simp: stored_need_step)

lemma stored_need_machines:
  "stored_need (fold (\<lambda>x. fold (need_step mc (ms_machineId x)) (ms_slots x)) ms ps) p m
     = stored_need ps p m + sum_list (map (product_deficit mc p) (filter (\<lambda>x. ms_machineId x = m) ms))"
  by (induction ms arbitrary: ps) (simp_all add: stored_need_slots product_need)

lemma need_at_stored:
  assumes "\<forall>e \<in> set ps. need_entry e"
  shows "need_at (map snd ps) p m = stored_need ps p m"
proof -
  have "\<forall>e \<in> set ps. pn_product (snd e) = fst e" using assms by (simp add: need_entry_def)
  then have "find (\<lambda>e. pn_product e = p) (map snd ps) = map_of ps p"
    by (induction ps) auto
  then show ?thesis by (simp add: need_at_def stored_need_def map_get_def empty_need_def split: option.split)
qed

text \<open>C24. The need of the products is the deficit of the machines, product by product and machine by machine:
  in every machine a product is needed as often as the slots assigned to it lack pieces, a machine with
  several entries counting all of them.  Every product occurs once, with a positive total that is the
  sum over its machines, and all totals together are the deficits of the assigned slots.\<close>
theorem need_is_deficit:
  "need_at (needByProduct mc ms) p m = sum_list (map (product_deficit mc p) (filter (\<lambda>x. ms_machineId x = m) ms))
    \<and> distinct (map pn_product (needByProduct mc ms))
    \<and> list_all (\<lambda>e. 0 < pn_total e \<and> distinct (map fst (pn_perMachine e))
        \<and> pn_total e = sum_list (map snd (pn_perMachine e))) (needByProduct mc ms)
    \<and> sum_list (map pn_total (needByProduct mc ms))
      = sum_list (map (\<lambda>x. md_deficit (machineDeficit mc (filter hasProduct (ms_slots x)))) ms)"
proof -
  let ?m = "fold (\<lambda>x. fold (need_step mc (ms_machineId x)) (ms_slots x)) ms []"
  have ok: "needs_ok ?m (sum_list (map (\<lambda>x. sum_list (map (slot_need mc) (ms_slots x))) ms))"
    using need_machines_inv [of "[]" 0] by (simp add: needs_ok_def)
  then have entries: "\<forall>e \<in> set ?m. need_entry e" by (simp add: needs_ok_def)
  have "need_at (needByProduct mc ms) p m = sum_list (map (product_deficit mc p) (filter (\<lambda>x. ms_machineId x = m) ms))"
    unfolding needByProduct_def need_at_stored [OF entries] stored_need_machines
    by (simp add: stored_need_def map_get_def empty_need_def)
  moreover have "map pn_product (needByProduct mc ms) = map fst ?m"
    using entries by (auto simp: needByProduct_def need_entry_def)
  then have "distinct (map pn_product (needByProduct mc ms))" using ok by (simp only: needs_ok_def)
  ultimately show ?thesis using ok
    by (auto simp: needs_ok_def needByProduct_def need_entry_def comp_def machine_need [symmetric] list_all_iff)
qed

end
