(* ===== verification/FinanceMath.thy ===== *)
theory FinanceMath
  imports JsCollections Finance TashkentTime
begin

text \<open>
  The money mathematics of the finance contour, \<^verbatim>\<open>apps/core/src/finance/finance.math.ts\<close>: pure functions
  over rows of money flows.

  A numeric column arrives as decimal text; here it is its value, and \<open>Number(text)\<close> is the nearest
  double.  An instant is in milliseconds, the time zone is the constant offset of Tashkent.  On the
  upper-case currency codes and ISO days \<open>localeCompare\<close> is the order of the code units.  The texts of
  notes and reasons are left out or stand as constructors.
\<close>

section \<open>Days\<close>

text \<open>\<open>Date.parse\<close> of an ISO day at midnight UTC, as a day number: months are 1 to 12 and days 1 to 31, and a
  day beyond the end of its month runs into the next one.\<close>

definition days_of_civil :: "int \<Rightarrow> int \<Rightarrow> int \<Rightarrow> int" where
  "days_of_civil y m d =
     (let y1 = (if m \<le> 2 then y - 1 else y); era = y1 div 400; yoe = y1 mod 400; mp = (m + 9) mod 12;
          doy = (153 * mp + 2) div 5 + d - 1; doe = yoe * 365 + yoe div 4 - yoe div 100 + doy in
      era * 146097 + doe - 719468)"

definition iso_year :: "string \<Rightarrow> int" where "iso_year s = digits_val (take 4 s)"

definition iso_month :: "string \<Rightarrow> int" where "iso_month s = digits_val (take 2 (drop 5 s))"

definition utcOf :: "string \<Rightarrow> int option" where
  "utcOf day =
     (if \<not> is_iso_day day then None
      else (let m = iso_month day; d = digits_val (drop 8 day) in
        if 1 \<le> m \<and> m \<le> 12 \<and> 1 \<le> d \<and> d \<le> 31 then Some (days_of_civil (iso_year day) m d) else None))"

definition daysBetween :: "string \<Rightarrow> string \<Rightarrow> int option" where
  "daysBetween a b = (case (utcOf a, utcOf b) of (Some x, Some y) \<Rightarrow> Some (y - x) | _ \<Rightarrow> None)"

definition dayKey :: "int \<Rightarrow> string" where
  "dayKey t = day_text (tashkentDay t)"

section \<open>Equivalents and buckets\<close>

record flow_math =
  fm_id :: string
  fm_direction :: string
  fm_status :: string
  fm_amount :: rat
  fm_currency :: string
  fm_rate :: "rat option"
  fm_amountUzs :: "rat option"
  fm_dueDate :: "string option"
  fm_date :: int
  fm_counterpartyKey :: "string option"
  fm_counterpartyName :: "string option"

definition uzsEquivalent :: "flow_math \<Rightarrow> jsnum option" where
  "uzsEquivalent row =
     (let amount = to_double (fm_amount row) in
      if \<not> js_finite amount then None
      else if fm_currency row = ''UZS'' then Some amount
      else
        let stored = map_option to_double (fm_amountUzs row) in
        if (case stored of None \<Rightarrow> False | Some s \<Rightarrow> js_finite s) then stored
        else (case fm_rate row of
                None \<Rightarrow> None
              | Some q \<Rightarrow> let r = to_double q in
                  if js_finite r \<and> js_less (Fin 0) r then Some (js_mul amount r) else None))"

record currency_amount =
  ca_currency :: string
  ca_amount :: jsnum
  ca_count :: nat

record bucket =
  bk_count :: nat
  bk_byCurrency :: "currency_amount list"
  bk_uzs :: jsnum
  bk_unconverted :: nat

definition emptyBucket :: bucket where
  "emptyBucket = \<lparr>bk_count = 0, bk_byCurrency = [], bk_uzs = Fin 0, bk_unconverted = 0\<rparr>"

fun add_currency :: "string \<Rightarrow> jsnum \<Rightarrow> currency_amount list \<Rightarrow> currency_amount list" where
  "add_currency cur amount [] = [\<lparr>ca_currency = cur, ca_amount = amount, ca_count = 1\<rparr>]"
| "add_currency cur amount (c # cs) =
     (if ca_currency c = cur then c\<lparr>ca_amount := js_add (ca_amount c) amount, ca_count := ca_count c + 1\<rparr> # cs
      else c # add_currency cur amount cs)"

definition addToBucket :: "flow_math \<Rightarrow> bucket \<Rightarrow> bucket" where
  "addToBucket row b =
     (let amount = to_double (fm_amount row) in
      if \<not> js_finite amount then b
      else
        (let b1 = b\<lparr>bk_count := bk_count b + 1, bk_byCurrency := add_currency (fm_currency row) amount (bk_byCurrency b)\<rparr> in
         case uzsEquivalent row of
           None \<Rightarrow> b1\<lparr>bk_unconverted := bk_unconverted b1 + 1\<rparr>
         | Some u \<Rightarrow> b1\<lparr>bk_uzs := js_add (bk_uzs b1) u\<rparr>))"

definition currency_before :: "currency_amount \<Rightarrow> currency_amount \<Rightarrow> bool" where
  "currency_before a c \<longleftrightarrow> ca_currency a = ''UZS'' \<or> (ca_currency c \<noteq> ''UZS'' \<and> ca_currency a < ca_currency c)"

definition sortCurrencies :: "bucket \<Rightarrow> bucket" where
  "sortCurrencies b = b\<lparr>bk_byCurrency := js_sort currency_before (bk_byCurrency b)\<rparr>"

definition isOpen :: "flow_math \<Rightarrow> bool" where
  "isOpen r \<longleftrightarrow> fm_status r = ''planned''"

section \<open>Aging\<close>

record aging_report =
  ag_notDue :: bucket
  ag_d0_30 :: bucket
  ag_d31_60 :: bucket
  ag_d61_90 :: bucket
  ag_d90plus :: bucket
  ag_noDue :: bucket
  ag_total :: bucket

definition emptyAging :: aging_report where
  "emptyAging = \<lparr>ag_notDue = emptyBucket, ag_d0_30 = emptyBucket, ag_d31_60 = emptyBucket, ag_d61_90 = emptyBucket,
     ag_d90plus = emptyBucket, ag_noDue = emptyBucket, ag_total = emptyBucket\<rparr>"

definition aging_step :: "string \<Rightarrow> string \<Rightarrow> flow_math \<Rightarrow> aging_report \<Rightarrow> aging_report" where
  "aging_step direction today row rep =
     (if \<not> isOpen row \<or> fm_direction row \<noteq> direction then rep
      else
        (let r = rep\<lparr>ag_total := addToBucket row (ag_total rep)\<rparr> in
         case fm_dueDate row of
           None \<Rightarrow> r\<lparr>ag_noDue := addToBucket row (ag_noDue r)\<rparr>
         | Some due \<Rightarrow>
             if \<not> is_iso_day due then r\<lparr>ag_noDue := addToBucket row (ag_noDue r)\<rparr>
             else if due \<ge> today then r\<lparr>ag_notDue := addToBucket row (ag_notDue r)\<rparr>
             else (case daysBetween due today of
               None \<Rightarrow> r\<lparr>ag_noDue := addToBucket row (ag_noDue r)\<rparr>
             | Some n \<Rightarrow>
                 if n \<le> 30 then r\<lparr>ag_d0_30 := addToBucket row (ag_d0_30 r)\<rparr>
                 else if n \<le> 60 then r\<lparr>ag_d31_60 := addToBucket row (ag_d31_60 r)\<rparr>
                 else if n \<le> 90 then r\<lparr>ag_d61_90 := addToBucket row (ag_d61_90 r)\<rparr>
                 else r\<lparr>ag_d90plus := addToBucket row (ag_d90plus r)\<rparr>)))"

definition sort_aging :: "aging_report \<Rightarrow> aging_report" where
  "sort_aging r = \<lparr>ag_notDue = sortCurrencies (ag_notDue r), ag_d0_30 = sortCurrencies (ag_d0_30 r),
     ag_d31_60 = sortCurrencies (ag_d31_60 r), ag_d61_90 = sortCurrencies (ag_d61_90 r),
     ag_d90plus = sortCurrencies (ag_d90plus r), ag_noDue = sortCurrencies (ag_noDue r), ag_total = sortCurrencies (ag_total r)\<rparr>"

definition aging :: "flow_math list \<Rightarrow> string \<Rightarrow> string \<Rightarrow> aging_report" where
  "aging rows direction today = sort_aging (fold (aging_step direction today) rows emptyAging)"

definition due_by :: "string \<Rightarrow> string \<Rightarrow> flow_math \<Rightarrow> bool" where
  "due_by direction horizon r \<longleftrightarrow> isOpen r \<and> fm_direction r = direction
     \<and> (case fm_dueDate r of None \<Rightarrow> False | Some d \<Rightarrow> is_iso_day d \<and> d \<le> horizon)"

definition dueSoon :: "flow_math list \<Rightarrow> string \<Rightarrow> string \<Rightarrow> int \<Rightarrow> flow_math list" where
  "dueSoon rows direction today horizonDays =
     (case utcOf today of
        None \<Rightarrow> []
      | Some n \<Rightarrow>
          js_sort (\<lambda>a b. given (fm_dueDate a) < given (fm_dueDate b))
            (filter (due_by direction (take 10 (day_text (n + horizonDays)))) rows))"

section \<open>Concentration of debt\<close>

definition CONCENTRATION_ALARM :: jsnum where
  "CONCENTRATION_ALARM = to_double (6 / 10)"

record concentration_row =
  cn_key :: string
  cn_name :: string
  cn_uzs :: jsnum
  cn_byCurrency :: "currency_amount list"
  cn_share :: "jsnum option"

record concentration_report =
  cr_rows :: "concentration_row list"
  cr_topShare :: "jsnum option"
  cr_alarm :: bool
  cr_totalUzs :: jsnum
  cr_unconverted :: nat

text \<open>The dash of a missing key and the word for a missing name, as UTF-8.\<close>

definition NO_KEY :: string where
  "NO_KEY = map char_of [0xE2::nat, 0x80, 0x94]"

definition NO_NAME :: string where
  "NO_NAME = map char_of [0xD0::nat, 0xBD, 0xD0, 0xB5, 0x20, 0xD1, 0x83, 0xD0, 0xBA, 0xD0, 0xB0, 0xD0, 0xB7, 0xD0, 0xB0, 0xD0, 0xBD]"

definition debtor_key :: "flow_math \<Rightarrow> string" where
  "debtor_key r = (case fm_counterpartyKey r of Some k \<Rightarrow> k
     | None \<Rightarrow> (case fm_counterpartyName r of Some n \<Rightarrow> n | None \<Rightarrow> NO_KEY))"

definition debtor_name :: "flow_math \<Rightarrow> string" where
  "debtor_name r = (case fm_counterpartyName r of Some n \<Rightarrow> n
     | None \<Rightarrow> (case fm_counterpartyKey r of Some k \<Rightarrow> k | None \<Rightarrow> NO_NAME))"

definition by_debtor :: "flow_math list \<Rightarrow> (string \<times> string \<times> bucket) list" where
  "by_debtor rows =
     fold (\<lambda>r. map_put (debtor_key r) (\<lambda>(n, b). (n, addToBucket r b)) (debtor_name r, emptyBucket)) rows []"

definition debtor_row :: "jsnum \<Rightarrow> string \<times> string \<times> bucket \<Rightarrow> concentration_row" where
  "debtor_row totalUzs e = (case e of (key, name, b) \<Rightarrow>
     \<lparr>cn_key = key, cn_name = name, cn_uzs = bk_uzs b, cn_byCurrency = bk_byCurrency (sortCurrencies b),
      cn_share = (if js_less (Fin 0) totalUzs then Some (js_div (bk_uzs b) totalUzs) else None)\<rparr>)"

definition concentration :: "flow_math list \<Rightarrow> concentration_report" where
  "concentration rows =
     (let byKey = by_debtor (filter (\<lambda>r. isOpen r \<and> fm_direction r = ''in'') rows);
          totalUzs = fold (\<lambda>e a. js_add a (bk_uzs (snd (snd e)))) byKey (Fin 0);
          unconverted = sum_list (map (\<lambda>e. bk_unconverted (snd (snd e))) byKey);
          out = js_sort (\<lambda>a b. js_less (js_sub (cn_uzs b) (cn_uzs a)) (Fin 0)) (map (debtor_row totalUzs) byKey);
          topShare = (if out = [] then None else cn_share (hd out)) in
      \<lparr>cr_rows = out, cr_topShare = topShare,
       cr_alarm = (case topShare of None \<Rightarrow> False | Some s \<Rightarrow> js_leq CONCENTRATION_ALARM s),
       cr_totalUzs = totalUzs, cr_unconverted = unconverted\<rparr>)"

section \<open>Cash flow by month\<close>

record month_cash =
  mc_month :: string
  mc_inflow :: "currency_amount list"
  mc_outflow :: "currency_amount list"
  mc_inflowUzs :: jsnum
  mc_outflowUzs :: jsnum

definition month_of :: "int \<Rightarrow> string" where
  "month_of t = take 7 (dayKey t)"

definition add_month :: "flow_math \<Rightarrow> month_cash \<Rightarrow> month_cash" where
  "add_month row e =
     (let amount = to_double (fm_amount row); uzs = uzsEquivalent row in
      if fm_direction row = ''in''
      then e\<lparr>mc_inflow := add_currency (fm_currency row) amount (mc_inflow e),
             mc_inflowUzs := (case uzs of None \<Rightarrow> mc_inflowUzs e | Some u \<Rightarrow> js_add (mc_inflowUzs e) u)\<rparr>
      else e\<lparr>mc_outflow := add_currency (fm_currency row) amount (mc_outflow e),
             mc_outflowUzs := (case uzs of None \<Rightarrow> mc_outflowUzs e | Some u \<Rightarrow> js_add (mc_outflowUzs e) u)\<rparr>)"

definition month_step :: "flow_math \<Rightarrow> (string \<times> month_cash) list \<Rightarrow> (string \<times> month_cash) list" where
  "month_step row m =
     (if fm_status row \<noteq> ''actual'' then m
      else if \<not> js_finite (to_double (fm_amount row)) then m
      else map_put (month_of (fm_date row)) (add_month row)
        \<lparr>mc_month = month_of (fm_date row), mc_inflow = [], mc_outflow = [], mc_inflowUzs = Fin 0, mc_outflowUzs = Fin 0\<rparr> m)"

definition byMonth :: "flow_math list \<Rightarrow> nat \<Rightarrow> month_cash list" where
  "byMonth rows months =
     slice_last months (js_sort (\<lambda>a b. mc_month a < mc_month b) (map snd (fold month_step rows [])))"

section \<open>Rates of the central bank\<close>

definition FX_AUTO_CURRENCIES :: "string list" where
  "FX_AUTO_CURRENCIES = [''USD'', ''CNY'', ''EUR'', ''RUB'']"

record cbu_rate =
  cb_ccy :: string
  cb_rate :: string

record fx_latest =
  fl_currency :: string
  fl_rate :: rat
  fl_source :: string
  fl_createdAt :: int

datatype fx_skip = NoCbuRate | ManualToday | Unchanged

record fx_plan =
  fp_inserts :: "(string \<times> rat) list"
  fp_skipped :: "(string \<times> fx_skip) list"

definition fx_target ::
  "cbu_rate list \<Rightarrow> fx_latest list \<Rightarrow> string \<Rightarrow> string \<Rightarrow> fx_skip + rat" where
  "fx_target cbu latest todayKey currency =
     (case find (\<lambda>r. cb_ccy r = currency) cbu of
        None \<Rightarrow> Inl NoCbuRate
      | Some row \<Rightarrow>
          (case js_number (cb_rate row) of
             Fin rate \<Rightarrow>
               if rate \<le> 0 then Inl NoCbuRate
               else (case find (\<lambda>r. fl_currency r = currency) latest of
                 None \<Rightarrow> Inr rate
               | Some current \<Rightarrow>
                   if fl_source current = ''manual'' \<and> dayKey (fl_createdAt current) = todayKey then Inl ManualToday
                   else if to_double (fl_rate current) = Fin rate then Inl Unchanged
                   else Inr rate)
           | _ \<Rightarrow> Inl NoCbuRate))"

definition fxRefreshPlan :: "cbu_rate list \<Rightarrow> fx_latest list \<Rightarrow> string \<Rightarrow> string list \<Rightarrow> fx_plan" where
  "fxRefreshPlan cbu latest todayKey targets =
     fold (\<lambda>currency p. case fx_target cbu latest todayKey currency of
         Inl why \<Rightarrow> p\<lparr>fp_skipped := fp_skipped p @ [(currency, why)]\<rparr>
       | Inr rate \<Rightarrow> p\<lparr>fp_inserts := fp_inserts p @ [(currency, rate)]\<rparr>)
       targets \<lparr>fp_inserts = [], fp_skipped = []\<rparr>"

text \<open>\<open>refreshFxFromCbu\<close> on the history of rates, newest last; the answer of the bank is a parameter.\<close>

definition fx_current :: "fx_latest list \<Rightarrow> fx_latest list" where
  "fx_current history =
     foldl (\<lambda>latest r. if list_ex (\<lambda>x. fl_currency x = fl_currency r) latest then latest else latest @ [r]) []
       (take 200 (rev history))"

datatype fx_error = BankSilent | RateOverflow

definition rate_row :: "int \<Rightarrow> string \<times> rat \<Rightarrow> fx_error + fx_latest" where
  "rate_row now ins = (case numeric_18_4 (printed (snd ins)) of
     None \<Rightarrow> Inl RateOverflow
   | Some c \<Rightarrow> Inr \<lparr>fl_currency = fst ins, fl_rate = c, fl_source = ''cbu'', fl_createdAt = now\<rparr>)"

definition refreshFxFromCbu ::
  "cbu_rate list option \<Rightarrow> int \<Rightarrow> fx_latest list \<Rightarrow> fx_error + fx_latest list \<times> string list \<times> (string \<times> fx_skip) list" where
  "refreshFxFromCbu answer now history =
     (case answer of
        None \<Rightarrow> Inl BankSilent
      | Some cbu \<Rightarrow>
          (let plan = fxRefreshPlan cbu (fx_current history) (dayKey now) FX_AUTO_CURRENCIES in
           rbind (mapM_res (rate_row now) (fp_inserts plan)) (\<lambda>rows.
           Inr (history @ rows, map fst (fp_inserts plan), fp_skipped plan))))"

end
