(* ===== verification/FinanceFacts.thy ===== *)
theory FinanceFacts
  imports FinanceMath
begin

text \<open>
  Properties of the money mathematics: aging against its specification by filters, the months, what is
  due soon, and the refresh of the rates.
\<close>

section \<open>Aging is seven filters\<close>

datatype age = NotDue | Days30 | Days60 | Days90 | Older | NoDue

definition age_of :: "string \<Rightarrow> flow_math \<Rightarrow> age" where
  "age_of today row = (case fm_dueDate row of
     None \<Rightarrow> NoDue
   | Some due \<Rightarrow>
       if \<not> is_iso_day due then NoDue
       else if today \<le> due then NotDue
       else (case daysBetween due today of None \<Rightarrow> NoDue
         | Some n \<Rightarrow> if n \<le> 30 then Days30 else if n \<le> 60 then Days60 else if n \<le> 90 then Days90 else Older))"

fun bucket_at :: "age \<Rightarrow> aging_report \<Rightarrow> bucket" where
  "bucket_at NotDue r = ag_notDue r"
| "bucket_at Days30 r = ag_d0_30 r"
| "bucket_at Days60 r = ag_d31_60 r"
| "bucket_at Days90 r = ag_d61_90 r"
| "bucket_at Older r = ag_d90plus r"
| "bucket_at NoDue r = ag_noDue r"

definition open_in :: "string \<Rightarrow> flow_math \<Rightarrow> bool" where
  "open_in direction r \<longleftrightarrow> isOpen r \<and> fm_direction r = direction"

definition bucket_of :: "flow_math list \<Rightarrow> bucket" where
  "bucket_of rows = fold addToBucket rows emptyBucket"

lemma aging_step_bucket:
  "bucket_at a (aging_step direction today row r)
    = (if open_in direction row \<and> age_of today row = a then addToBucket row (bucket_at a r) else bucket_at a r)"
  by (cases a) (auto simp: aging_step_def age_of_def open_in_def Let_def split: option.split)

lemma aging_step_total:
  "ag_total (aging_step direction today row r) = (if open_in direction row then addToBucket row (ag_total r) else ag_total r)"
  by (auto simp: aging_step_def open_in_def Let_def split: option.split)

lemma aging_fold:
  "bucket_at a (fold (aging_step direction today) rows r)
      = fold addToBucket (filter (\<lambda>x. open_in direction x \<and> age_of today x = a) rows) (bucket_at a r)"
  "ag_total (fold (aging_step direction today) rows r) = fold addToBucket (filter (open_in direction) rows) (ag_total r)"
  by (induction rows arbitrary: r) (simp_all add: aging_step_bucket aging_step_total)

lemma bucket_at_sort: "bucket_at a (sort_aging r) = sortCurrencies (bucket_at a r)" "ag_total (sort_aging r) = sortCurrencies (ag_total r)"
  by (cases a; simp add: sort_aging_def)+

lemma bucket_at_empty: "bucket_at a emptyAging = emptyBucket" "ag_total emptyAging = emptyBucket"
  by (cases a; simp add: emptyAging_def)+

definition readable :: "flow_math \<Rightarrow> bool" where
  "readable r \<longleftrightarrow> js_finite (to_double (fm_amount r))"

lemma addToBucket_count: "bk_count (addToBucket row b) = bk_count b + (if readable row then 1 else 0)"
  by (simp add: addToBucket_def readable_def Let_def split: option.split)

lemma fold_count: "bk_count (fold addToBucket rows b) = bk_count b + length (filter readable rows)"
  by (induction rows arbitrary: b) (simp_all add: addToBucket_count)

lemma bucket_count: "bk_count (sortCurrencies (bucket_of rows)) = length (filter readable rows)"
  by (simp add: bucket_of_def sortCurrencies_def fold_count emptyBucket_def)

lemma count_ages:
  "length (filter P xs) = (\<Sum>a \<leftarrow> [NotDue, Days30, Days60, Days90, Older, NoDue]. length (filter (\<lambda>x. P x \<and> f x = a) xs))"
proof (induction xs)
  case (Cons x xs)
  then show ?case by (cases "f x") auto
qed simp

text \<open>C25. The aging report implements its specification: each bucket collects, in order, exactly the open
  flows of the direction of its age, and the buckets together count every flow of the total once.\<close>
theorem aging_implements_filters:
  "bucket_at a (aging rows direction today)
      = sortCurrencies (bucket_of (filter (\<lambda>x. open_in direction x \<and> age_of today x = a) rows))
    \<and> ag_total (aging rows direction today) = sortCurrencies (bucket_of (filter (open_in direction) rows))
    \<and> bk_count (ag_total (aging rows direction today))
      = (\<Sum>b \<leftarrow> [NotDue, Days30, Days60, Days90, Older, NoDue]. bk_count (bucket_at b (aging rows direction today)))"
proof -
  have b: "bucket_at a (aging rows direction today)
      = sortCurrencies (bucket_of (filter (\<lambda>x. open_in direction x \<and> age_of today x = a) rows))" for a
    by (simp add: aging_def bucket_at_sort aging_fold bucket_at_empty bucket_of_def)
  have t: "ag_total (aging rows direction today) = sortCurrencies (bucket_of (filter (open_in direction) rows))"
    by (simp add: aging_def bucket_at_sort aging_fold bucket_at_empty bucket_of_def)
  have "bk_count (ag_total (aging rows direction today)) = length (filter (\<lambda>x. open_in direction x \<and> readable x) rows)"
    by (simp add: t bucket_count)
  also have "\<dots> = (\<Sum>b \<leftarrow> [NotDue, Days30, Days60, Days90, Older, NoDue].
      length (filter (\<lambda>x. (open_in direction x \<and> readable x) \<and> age_of today x = b) rows))"
    by (rule count_ages)
  finally show ?thesis using b t by (simp add: bucket_count conj_ac)
qed

section \<open>Due soon\<close>

text \<open>What is due soon is exactly the open flows of the direction with a due day up to the horizon, the
  overdue ones included, each as often as it was given, in the order of their due days.\<close>
theorem due_soon_sorted:
  assumes "utcOf today = Some n"
  shows "mset (dueSoon rows direction today k) = mset (filter (due_by direction (take 10 (day_text (n + k)))) rows)
    \<and> sorted (map (\<lambda>r. given (fm_dueDate r)) (dueSoon rows direction today k))"
  using assms by (simp add: dueSoon_def sorted_js_sort_key)

section \<open>Months\<close>

lemma month_fold_keys:
  assumes "distinct (map fst m)" "\<forall>p \<in> set m. mc_month (snd p) = fst p"
  shows "distinct (map fst (fold month_step rows m)) \<and> (\<forall>p \<in> set (fold month_step rows m). mc_month (snd p) = fst p)"
  using assms
proof (induction rows arbitrary: m)
  case (Cons r rows)
  have "mc_month (add_month r e) = mc_month e" for e by (simp add: add_month_def Let_def)
  then have "\<forall>p \<in> set (month_step r m). mc_month (snd p) = fst p"
    using Cons.prems(2) by (auto simp: month_step_def dest!: set_put)
  moreover have "distinct (map fst (month_step r m))" using Cons.prems(1) by (simp add: month_step_def distinct_put)
  ultimately show ?case using Cons.IH by simp
qed simp

lemma sorted_slice_last: "sorted xs \<Longrightarrow> sorted (slice_last n xs)" "distinct xs \<Longrightarrow> distinct (slice_last n xs)"
  by (simp_all add: slice_last_def sorted_wrt_drop)

lemma map_slice_last: "map f (slice_last n xs) = slice_last n (map f xs)"
  by (simp add: slice_last_def drop_map)

text \<open>The cash flow lists each month once, in ascending order, and at most the requested number of them.\<close>
theorem months_sorted_once:
  "sorted (map mc_month (byMonth rows months)) \<and> distinct (map mc_month (byMonth rows months))
    \<and> (months \<noteq> 0 \<longrightarrow> length (byMonth rows months) \<le> months)"
proof -
  let ?m = "fold month_step rows []"
  have k: "distinct (map fst ?m)" "\<forall>p \<in> set ?m. mc_month (snd p) = fst p" using month_fold_keys [of "[]"] by simp_all
  then have "map mc_month (map snd ?m) = map fst ?m" by auto
  with k(1) have "distinct (map mc_month (map snd ?m))" by (simp only:)
  then have "distinct (map mc_month (js_sort (\<lambda>a b. mc_month a < mc_month b) (map snd ?m)))"
    by (metis mset_eq_imp_distinct_iff mset_js_sort mset_map)
  then show ?thesis
    unfolding byMonth_def map_slice_last by (auto intro: sorted_slice_last sorted_js_sort_key length_slice_last)
qed

section \<open>Refreshing the rates\<close>

lemma fx_plan_lists:
  "fp_inserts (fxRefreshPlan cbu latest today targets) = [(c, q). c \<leftarrow> targets, q \<leftarrow> (case fx_target cbu latest today c of Inl w \<Rightarrow> [] | Inr q \<Rightarrow> [q])]
    \<and> fp_skipped (fxRefreshPlan cbu latest today targets) = [(c, w). c \<leftarrow> targets, w \<leftarrow> (case fx_target cbu latest today c of Inl w \<Rightarrow> [w] | Inr q \<Rightarrow> [])]"
proof -
  have "fp_inserts (fold (\<lambda>currency p. case fx_target cbu latest today currency of
         Inl why \<Rightarrow> p\<lparr>fp_skipped := fp_skipped p @ [(currency, why)]\<rparr>
       | Inr rate \<Rightarrow> p\<lparr>fp_inserts := fp_inserts p @ [(currency, rate)]\<rparr>) targets p)
      = fp_inserts p @ [(c, q). c \<leftarrow> targets, q \<leftarrow> (case fx_target cbu latest today c of Inl w \<Rightarrow> [] | Inr q \<Rightarrow> [q])]
    \<and> fp_skipped (fold (\<lambda>currency p. case fx_target cbu latest today currency of
         Inl why \<Rightarrow> p\<lparr>fp_skipped := fp_skipped p @ [(currency, why)]\<rparr>
       | Inr rate \<Rightarrow> p\<lparr>fp_inserts := fp_inserts p @ [(currency, rate)]\<rparr>) targets p)
      = fp_skipped p @ [(c, w). c \<leftarrow> targets, w \<leftarrow> (case fx_target cbu latest today c of Inl w \<Rightarrow> [w] | Inr q \<Rightarrow> [])]" for p
    by (induction targets arbitrary: p) (auto split: sum.split)
  from this [of "\<lparr>fp_inserts = [], fp_skipped = []\<rparr>"] show ?thesis by (simp add: fxRefreshPlan_def)
qed

lemma mem_inserts: "(c, q) \<in> set (fp_inserts (fxRefreshPlan cbu latest today targets))
    \<longleftrightarrow> c \<in> set targets \<and> fx_target cbu latest today c = Inr q"
  by (force simp: fx_plan_lists image_iff split: sum.split_asm)

lemma insert_keys: "map fst (fp_inserts (fxRefreshPlan cbu latest today targets))
    = filter (\<lambda>c. \<not> isl (fx_target cbu latest today c)) targets"
  by (simp add: fx_plan_lists) (induction targets; auto split: sum.split)

text \<open>The current rate of a currency is the newest of the history.\<close>

lemma fx_dedup_find:
  "find (\<lambda>r. fl_currency r = c) (foldl (\<lambda>latest r. if list_ex (\<lambda>x. fl_currency x = fl_currency r) latest then latest else latest @ [r]) acc rs)
    = (case find (\<lambda>r. fl_currency r = c) acc of Some r \<Rightarrow> Some r | None \<Rightarrow> find (\<lambda>r. fl_currency r = c) rs)"
proof (induction rs arbitrary: acc)
  case Nil
  then show ?case by (simp split: option.split)
next
  case (Cons r rs)
  have snoc: "find (\<lambda>r. fl_currency r = c) (acc @ [r])
      = (case find (\<lambda>r. fl_currency r = c) acc of Some x \<Rightarrow> Some x | None \<Rightarrow> if fl_currency r = c then Some r else None)"
    by (induction acc) auto
  have known: "find (\<lambda>x. fl_currency x = c) acc \<noteq> None" if "list_ex (\<lambda>x. fl_currency x = fl_currency r) acc" "fl_currency r = c"
    using that by (auto simp: find_None_iff list_ex_iff)
  show ?case using known by (auto simp: Cons.IH snoc split: option.split)
qed

lemma find_append: "find P (xs @ ys) = (case find P xs of Some x \<Rightarrow> Some x | None \<Rightarrow> find P ys)"
  by (induction xs) auto

lemma fx_current_find:
  "length history \<le> 200 \<Longrightarrow> find (\<lambda>r. fl_currency r = c) (fx_current history) = find (\<lambda>r. fl_currency r = c) (rev history)"
  by (simp add: fx_current_def fx_dedup_find)

lemma rate_rows:
  assumes "mapM_res (rate_row now) ins = Inr rows" "distinct (map fst ins)"
  shows "find (\<lambda>r. fl_currency r = c) (rev rows) = (case map_of ins c of None \<Rightarrow> None
    | Some q \<Rightarrow> Some \<lparr>fl_currency = c, fl_rate = the (numeric_18_4 (printed q)), fl_source = ''cbu'', fl_createdAt = now\<rparr>)"
  using assms
proof (induction ins arbitrary: rows)
  case (Cons i ins)
  then obtain r rs where r: "rate_row now i = Inr r" "mapM_res (rate_row now) ins = Inr rs" "rows = r # rs"
    by (auto simp: res_simps)
  then have "r = \<lparr>fl_currency = fst i, fl_rate = the (numeric_18_4 (printed (snd i))), fl_source = ''cbu'', fl_createdAt = now\<rparr>"
    by (auto simp: rate_row_def split: option.split_asm)
  moreover have "map_of ins (fst i) = None" using Cons.prems(2) by (auto simp: map_of_eq_None_iff)
  ultimately show ?case using Cons r by (cases i) (auto simp: find_append split: option.split)
qed simp

definition exact_rates :: "cbu_rate list \<Rightarrow> bool" where
  "exact_rates cbu \<longleftrightarrow> (\<forall>r \<in> set cbu. \<forall>q. js_number (cb_rate r) = Fin q \<longrightarrow> 0 < q
     \<longrightarrow> to_double (the (numeric_18_4 (printed q))) = Fin q)"

text \<open>Refreshing the rates twice on one day with the same answer of the bank writes nothing the second time:
  what was inserted is unchanged, what was skipped stays skipped, a manual rate of the day stays current.\<close>
theorem refresh_twice_writes_once:
  assumes "refreshFxFromCbu (Some cbu) now history = Inr (history', updated, skipped)" "exact_rates cbu"
    "length history' \<le> 200" "dayKey now' = dayKey now"
  shows "\<exists>skipped'. refreshFxFromCbu (Some cbu) now' history' = Inr (history', [], skipped')"
proof -
  let ?plan = "fxRefreshPlan cbu (fx_current history) (dayKey now) FX_AUTO_CURRENCIES"
  from assms(1) obtain rows where rows: "mapM_res (rate_row now) (fp_inserts ?plan) = Inr rows" "history' = history @ rows"
    by (auto simp: refreshFxFromCbu_def Let_def res_simps)
  have "distinct (map fst (fp_inserts ?plan))" by (simp add: insert_keys FX_AUTO_CURRENCIES_def)
  note found = rate_rows [OF rows(1) this]
  have again: "isl (fx_target cbu (fx_current history') (dayKey now') c)" if c: "c \<in> set FX_AUTO_CURRENCIES" for c
  proof (cases "fx_target cbu (fx_current history) (dayKey now) c")
    case (Inr q)
    then have ins: "map_of (fp_inserts ?plan) c = Some q"
      using \<open>distinct (map fst (fp_inserts ?plan))\<close> c by (simp add: mem_inserts)
    obtain row where row: "find (\<lambda>r. cb_ccy r = c) cbu = Some row" "js_number (cb_rate row) = Fin q" "0 < q"
      using Inr by (auto simp: fx_target_def split: option.split_asm jsnum.split_asm if_split_asm)
    then have "to_double (the (numeric_18_4 (printed q))) = Fin q"
      using assms(2) by (auto simp: exact_rates_def find_Some_iff)
    moreover have "find (\<lambda>r. fl_currency r = c) (fx_current history')
        = Some \<lparr>fl_currency = c, fl_rate = the (numeric_18_4 (printed q)), fl_source = ''cbu'', fl_createdAt = now\<rparr>"
      using assms(3) by (simp add: fx_current_find rows(2) find_append found ins)
    ultimately show ?thesis using row by (simp add: fx_target_def)
  next
    case (Inl w)
    then have "map_of (fp_inserts ?plan) c = None"
      by (auto simp: map_of_eq_None_iff mem_inserts)
    then have "find (\<lambda>r. fl_currency r = c) (fx_current history') = find (\<lambda>r. fl_currency r = c) (fx_current history)"
      using assms(3) by (simp add: fx_current_find rows(2) find_append found)
    then have "fx_target cbu (fx_current history') (dayKey now') c = fx_target cbu (fx_current history) (dayKey now) c"
      unfolding fx_target_def assms(4) by (simp only:)
    with Inl show ?thesis by simp
  qed
  then have "fp_inserts (fxRefreshPlan cbu (fx_current history') (dayKey now') FX_AUTO_CURRENCIES) = []"
    using insert_keys [of cbu "fx_current history'" "dayKey now'" FX_AUTO_CURRENCIES] by (simp add: filter_empty_conv)
  then show ?thesis by (simp add: refreshFxFromCbu_def Let_def)
qed

lemma sample_numeric: "numeric_18_4 12700 = Some 12700" "printed 12700 = 12700" "to_double 12700 = Fin 12700"
proof -
  have "\<lfloor>254000001 / 2 :: rat\<rfloor> = 127000000" by (simp add: floor_eq_iff)
  then show "numeric_18_4 12700 = Some 12700" by (simp add: numeric_18_4_def Let_def)
qed (use printed_whole [of 12700] to_double_whole [of 12700] in simp_all)

definition sample_cbu :: "cbu_rate list" where
  "sample_cbu = [\<lparr>cb_ccy = ''USD'', cb_rate = ''12700''\<rparr>]"

theorem refresh_twice_writes_once_witness:
  "\<exists>history' skipped'. length history' = 1 \<and> refreshFxFromCbu (Some sample_cbu) 0 [] = Inr (history', [''USD''], [(''CNY'', NoCbuRate), (''EUR'', NoCbuRate), (''RUB'', NoCbuRate)])
    \<and> refreshFxFromCbu (Some sample_cbu) 0 history' = Inr (history', [], skipped')"
proof -
  have n: "js_number ''12700'' = Fin 12700" by code_simp
  let ?h = "[\<lparr>fl_currency = ''USD'', fl_rate = 12700, fl_source = ''cbu'', fl_createdAt = 0\<rparr>]"
  have first: "refreshFxFromCbu (Some sample_cbu) 0 [] = Inr (?h, [''USD''], [(''CNY'', NoCbuRate), (''EUR'', NoCbuRate), (''RUB'', NoCbuRate)])"
    by (simp add: refreshFxFromCbu_def fxRefreshPlan_def fx_target_def FX_AUTO_CURRENCIES_def sample_cbu_def n fx_current_def
        rate_row_def sample_numeric Let_def)
  have "exact_rates sample_cbu" by (simp add: exact_rates_def sample_cbu_def n sample_numeric)
  from refresh_twice_writes_once [OF first this, of 0] obtain k where "refreshFxFromCbu (Some sample_cbu) 0 ?h = Inr (?h, [], k)"
    by auto
  with first show ?thesis by (intro exI [of _ ?h] exI [of _ k]) simp
qed

end
