(* ===== verification/CashReconcile.thy ===== *)
theory CashReconcile
  imports FinanceMath
begin

text \<open>
  The reconciliation of the cash, \<open>cashReconcile\<close> of \<^verbatim>\<open>finance.math.ts\<close> and of
  \<^verbatim>\<open>finance.service.ts\<close>: money taken out of the machines against money brought to the bank, month
  by month.  An amount that is not known yet is \<open>None\<close>.
\<close>

record cash_movement =
  cm_date :: int
  cm_amount :: "jsnum option"

datatype cash_status = CashOk | CashEmpty | NoWithdrawn | NoDeposit | PendingReceipt

record cash_period =
  cp_period :: string
  cp_withdrawn :: jsnum
  cp_withdrawnCount :: nat
  cp_withdrawnPending :: nat
  cp_deposited :: jsnum
  cp_depositedCount :: nat
  cp_diff :: jsnum
  cp_status :: cash_status

record cash_report =
  ch_from :: string
  ch_to :: string
  ch_withdrawn :: jsnum
  ch_withdrawnCount :: nat
  ch_withdrawnPendingCount :: nat
  ch_hasWithdrawn :: bool
  ch_deposited :: jsnum
  ch_depositedCount :: nat
  ch_hasDeposited :: bool
  ch_diff :: jsnum
  ch_periods :: "cash_period list"
  ch_gaps :: "cash_period list"

section \<open>The months of a range\<close>

definition month_text :: "int \<Rightarrow> int \<Rightarrow> string" where
  "month_text y m = num_str y @ ''-'' @ pad_start 2 CHR ''0'' (num_str m)"

text \<open>The loop with its guard of 1200 turns.\<close>

fun months_from :: "nat \<Rightarrow> int \<Rightarrow> int \<Rightarrow> int \<Rightarrow> int \<Rightarrow> string list" where
  "months_from 0 y m yTo mTo = []"
| "months_from (Suc guard) y m yTo mTo =
     (if y < yTo \<or> (y = yTo \<and> m \<le> mTo)
      then month_text y m # (if m + 1 > 12 then months_from guard (y + 1) 1 yTo mTo else months_from guard y (m + 1) yTo mTo)
      else [])"

definition monthRange :: "string \<Rightarrow> string \<Rightarrow> string list" where
  "monthRange from to = months_from 1200 (iso_year from) (iso_month from) (iso_year to) (iso_month to)"

section \<open>Sums by month\<close>

record month_sum =
  su_sum :: jsnum
  su_count :: nat
  su_pendingCount :: nat

definition zero_sum :: month_sum where
  "zero_sum = \<lparr>su_sum = Fin 0, su_count = 0, su_pendingCount = 0\<rparr>"

definition add_movement :: "cash_movement \<Rightarrow> month_sum \<Rightarrow> month_sum" where
  "add_movement x e = (case cm_amount x of
     None \<Rightarrow> e\<lparr>su_pendingCount := su_pendingCount e + 1\<rparr>
   | Some a \<Rightarrow> e\<lparr>su_sum := js_add (su_sum e) a, su_count := su_count e + 1\<rparr>)"

definition sums_by_month :: "cash_movement list \<Rightarrow> (string \<times> month_sum) list" where
  "sums_by_month rows = fold (\<lambda>x. map_put (month_of (cm_date x)) (add_movement x) zero_sum) rows []"

definition period_status :: "month_sum \<Rightarrow> month_sum \<Rightarrow> cash_status" where
  "period_status wm dm =
     (if su_count wm = 0 \<and> su_pendingCount wm > 0 then PendingReceipt
      else if su_count wm = 0 \<and> su_count dm = 0 then CashEmpty
      else if su_count wm = 0 then NoWithdrawn
      else if su_count dm = 0 then NoDeposit
      else CashOk)"

definition period_of :: "(string \<times> month_sum) list \<Rightarrow> (string \<times> month_sum) list \<Rightarrow> string \<Rightarrow> cash_period" where
  "period_of w d month =
     (let wm = map_get month zero_sum w; dm = map_get month zero_sum d in
      \<lparr>cp_period = month, cp_withdrawn = js_round (su_sum wm), cp_withdrawnCount = su_count wm,
       cp_withdrawnPending = su_pendingCount wm, cp_deposited = js_round (su_sum dm), cp_depositedCount = su_count dm,
       cp_diff = js_round (js_sub (su_sum dm) (su_sum wm)), cp_status = period_status wm dm\<rparr>)"

definition in_range :: "string \<Rightarrow> string \<Rightarrow> cash_movement \<Rightarrow> bool" where
  "in_range from to x \<longleftrightarrow> from \<le> dayKey (cm_date x) \<and> dayKey (cm_date x) \<le> to"

definition cash_total :: "jsnum list \<Rightarrow> jsnum" where
  "cash_total xs = fold (\<lambda>a s. js_add s a) xs (Fin 0)"

definition known_amounts :: "cash_movement list \<Rightarrow> jsnum list" where
  "known_amounts xs = concat (map (\<lambda>x. case cm_amount x of None \<Rightarrow> [] | Some a \<Rightarrow> [a]) xs)"

definition cashReconcile :: "cash_movement list \<Rightarrow> cash_movement list \<Rightarrow> string \<Rightarrow> string \<Rightarrow> cash_report" where
  "cashReconcile withdrawals deposits from to =
     (let w = filter (in_range from to) withdrawals; d = filter (in_range from to) deposits;
          periods = map (period_of (sums_by_month w) (sums_by_month d)) (monthRange from to);
          withdrawn = js_round (cash_total (known_amounts w));
          deposited = js_round (cash_total (map (\<lambda>x. case cm_amount x of None \<Rightarrow> Fin 0 | Some a \<Rightarrow> a) d)) in
      \<lparr>ch_from = from, ch_to = to, ch_withdrawn = withdrawn, ch_withdrawnCount = length (known_amounts w),
       ch_withdrawnPendingCount = length w - length (known_amounts w), ch_hasWithdrawn = (w \<noteq> []), ch_deposited = deposited,
       ch_depositedCount = length d, ch_hasDeposited = (d \<noteq> []), ch_diff = js_sub deposited withdrawn, ch_periods = periods,
       ch_gaps = filter (\<lambda>p. cp_status p = NoWithdrawn \<or> cp_status p = NoDeposit) periods\<rparr>)"

section \<open>The service\<close>

record collection_row =
  co_collectedAt :: int
  co_status :: string
  co_amount :: "rat option"

record deposit_row =
  de_date :: int
  de_status :: string
  de_cashSymbol :: "string option"
  de_amount :: rat

datatype cash_error = BadPeriod | PeriodReversed | UnreadableDay

text \<open>An instant of a day that no calendar has makes the query fail.\<close>

definition cashReconcileFor ::
  "collection_row list \<Rightarrow> deposit_row list \<Rightarrow> string \<Rightarrow> string \<Rightarrow> cash_error + cash_report" where
  "cashReconcileFor collections deposits from to =
     (if \<not> is_iso_day from \<or> \<not> is_iso_day to then Inl BadPeriod
      else if to < from then Inl PeriodReversed
      else (case (utcOf from, utcOf to) of
        (Some a, Some b) \<Rightarrow>
          (let inside = (\<lambda>t. tashkentDayStart a \<le> t \<and> t \<le> tashkentDayEnd b) in
           Inr (cashReconcile
             (map (\<lambda>c. \<lparr>cm_date = co_collectedAt c, cm_amount = map_option to_double (co_amount c)\<rparr>)
               (filter (\<lambda>c. co_status c \<noteq> ''cancelled'' \<and> inside (co_collectedAt c)) collections))
             (map (\<lambda>d. \<lparr>cm_date = de_date d, cm_amount = Some (to_double (de_amount d))\<rparr>)
               (filter (\<lambda>d. de_cashSymbol d = Some ''0200'' \<and> de_status d \<noteq> ''cancelled'' \<and> inside (de_date d)) deposits))
             from to))
      | _ \<Rightarrow> Inl UnreadableDay))"

section \<open>Calendar months\<close>

lemma div_bounds: "0 < k \<Longrightarrow> k * (x div k) \<le> x" "0 < k \<Longrightarrow> x \<le> k * (x div k) + (k - 1)" for x k :: int
  using mult_div_mod_eq [of k x] pos_mod_sign [of k x] pos_mod_bound [of k x] by linarith+

lemma civil_month:
  assumes "civil days = (y, m, d)"
  shows "1 \<le> m \<and> m \<le> 12"
proof -
  define doe where "doe = (days + 719468) mod 146097"
  define yoe where "yoe = (doe - doe div 1460 + doe div 36524 - doe div 146096) div 365"
  define doy where "doy = doe - (365 * yoe + yoe div 4 - yoe div 100)"
  define mp where "mp = (5 * doy + 2) div 153"
  have "fst (snd (civil days)) = (if mp < 10 then mp + 3 else mp - 9)"
    unfolding civil_def Let_def doe_def yoe_def doy_def mp_def by (simp only: fst_conv snd_conv)
  then have m: "m = (if mp < 10 then mp + 3 else mp - 9)" by (simp only: assms fst_conv snd_conv)
  have range: "0 \<le> doe" "doe \<le> 146096" unfolding doe_def using pos_mod_bound [of 146097 "days + 719468"] by simp_all
  define a b c e f where "a = doe div 1460" and "b = doe div 36524" and "c = doe div 146096" and "e = yoe div 4" and "f = yoe div 100"
  have a: "1460 * a \<le> doe" "doe \<le> 1460 * a + 1459" using div_bounds [of 1460 doe] by (simp_all add: a_def)
  have b: "36524 * b \<le> doe" "doe \<le> 36524 * b + 36523" using div_bounds [of 36524 doe] by (simp_all add: b_def)
  have c: "146096 * c \<le> doe" "doe \<le> 146096 * c + 146095" using div_bounds [of 146096 doe] by (simp_all add: c_def)
  have z: "365 * yoe \<le> doe - a + b - c" "doe - a + b - c \<le> 365 * yoe + 364"
    using div_bounds [of 365 "doe - a + b - c"] by (simp_all add: yoe_def a_def b_def c_def)
  have e: "4 * e \<le> yoe" "yoe \<le> 4 * e + 3" using div_bounds [of 4 yoe] by (simp_all add: e_def)
  have f: "100 * f \<le> yoe" "yoe \<le> 100 * f + 99" using div_bounds [of 100 yoe] by (simp_all add: f_def)
  have doy: "doy = doe - 365 * yoe - e + f" by (simp add: doy_def e_def f_def)
  have "0 \<le> doy \<and> doy \<le> 365"
  proof (cases "doe = 146096")
    case True
    then have "yoe = 399" by (simp add: yoe_def)
    with True show ?thesis by (simp add: doy_def)
  next
    case False
    then have c0: "c = 0" and b03: "0 \<le> b" "b \<le> 3" using c b range by linarith+
    define r q z e1 f1 where "r = doe - 36524 * b" and "q = a - 25 * b" and "z = yoe - 100 * b" and "e1 = e - 25 * b" and "f1 = f - b"
    have r: "0 \<le> r" "r \<le> 36523" using b by (simp_all add: r_def)
    have q: "1460 * q \<le> 24 * b + r" "24 * b + r \<le> 1460 * q + 1459" using a by (simp_all add: r_def q_def)
    have z1: "365 * z \<le> r - q" "r - q \<le> 365 * z + 364" using z c0 by (simp_all add: r_def q_def z_def)
    have e1: "4 * e1 \<le> z" "z \<le> 4 * e1 + 3" using e by (simp_all add: z_def e1_def)
    have f1: "100 * f1 \<le> z" "z \<le> 100 * f1 + 99" using f by (simp_all add: z_def f1_def)
    have doy1: "doy = r - 365 * z - e1 + f1" by (simp add: doy r_def z_def e1_def f1_def)
    have q0: "0 \<le> q" "q \<le> 25" using q r b03 by linarith+
    have "0 \<le> z" "z \<le> 100" using z1 q q0 r b03 by linarith+
    moreover have qe: "e1 \<le> q" using z1 e1 q q0 b03 by linarith
    moreover have "q \<le> e1 + 1" using z1 e1 q b03 q0 by linarith
    moreover have "0 \<le> f1" "f1 \<le> 1" using f1 calculation by linarith+
    moreover have "q \<le> e1" if "f1 = 1" using that f1 e1 q0 calculation by linarith
    ultimately show ?thesis using z1 unfolding doy1 by (cases "f1 = 1") linarith+
  qed
  then have "0 \<le> mp \<and> mp \<le> 11" using div_bounds [of 153 "5 * doy + 2"] unfolding mp_def by linarith
  with m show ?thesis by auto
qed

end
