(* ===== verification/CashFacts.thy ===== *)
theory CashFacts
  imports CashReconcile
begin

text \<open>
  The reconciliation of the cash accounts for every movement: the order of ISO days is the order of
  their numbers, the months of a range are consecutive, and each movement of the range falls into
  exactly one of them.
\<close>

section \<open>The order of digit texts\<close>

lemma char_order: "c < d \<longleftrightarrow> digit_val c < digit_val d" "c \<le> d \<longleftrightarrow> digit_val c \<le> digit_val d"
proof -
  have i: "(of_char c :: int) = int (of_char c)" for c by (simp add: of_nat_of_char)
  show "c < d \<longleftrightarrow> digit_val c < digit_val d" "c \<le> d \<longleftrightarrow> digit_val c \<le> digit_val d"
    by (simp_all add: digit_val_def i less_char_def less_eq_char_def del: of_nat_of_char)
qed

lemma digit_val_inj: "digit_val c = digit_val d \<longleftrightarrow> c = d"
  by (simp add: digit_val_def)

text \<open>Texts of one length that start with digits compare by their numbers first.\<close>

lemma lex_digits:
  assumes "list_all is_digit a" "list_all is_digit b" "length a = length b"
  shows "a @ s \<le> b @ t \<longleftrightarrow> digits_val a < digits_val b \<or> (digits_val a = digits_val b \<and> s \<le> t)"
  using assms
proof (induction a arbitrary: b)
  case (Cons c a)
  then obtain d b' where b: "b = d # b'" by (cases b) auto
  with Cons have IH: "a @ s \<le> b' @ t \<longleftrightarrow> digits_val a < digits_val b' \<or> (digits_val a = digits_val b' \<and> s \<le> t)"
    and len: "length a = length b'" by auto
  define k :: int where "k = 10 ^ length a"
  have bd: "0 \<le> digits_val a" "digits_val a < k" "0 \<le> digits_val b'" "digits_val b' < k"
    using digits_val_bounds [of a] digits_val_bounds [of b'] Cons.prems b len by (simp_all add: k_def)
  have v: "digits_val (c # a) = digit_val c * k + digits_val a" "digits_val (d # b') = digit_val d * k + digits_val b'"
    by (simp_all add: digits_val_Cons k_def len)
  have carry: "x * k + digits_val a < y * k + digits_val b'" if "x < y" for x y
  proof -
    have "(x + 1) * k \<le> y * k" using that bd by (intro mult_right_mono) simp_all
    with bd show ?thesis by (simp add: algebra_simps)
  qed
  have carry': "y * k + digits_val b' < x * k + digits_val a" if "y < x" for x y
  proof -
    have "(y + 1) * k \<le> x * k" using that bd by (intro mult_right_mono) simp_all
    with bd show ?thesis by (simp add: algebra_simps)
  qed
  consider "digit_val c < digit_val d" | "c = d" | "digit_val d < digit_val c"
    by (metis digit_val_inj linorder_less_linear)
  then show ?case
  proof cases
    case 1
    then show ?thesis using carry [OF 1] by (simp add: b v char_order)
  next
    case 2
    with v show ?thesis by (auto simp add: b IH)
  next
    case 3
    then show ?thesis using carry' [OF 3] by (auto simp add: b v char_order)
  qed
qed simp

lemma take_mono: "s \<le> t \<Longrightarrow> take n s \<le> take n t" for s t :: string
proof (induction n arbitrary: s t)
  case (Suc n)
  then show ?case by (cases s; cases t) auto
qed simp

lemma pad_digits: "0 \<le> v \<Longrightarrow> list_all is_digit (pad_num n v)"
  using num_str_digits [of v] by (auto simp: pad_num_def pad_start_def list_all_iff is_digit_def)

lemma pad_length: "0 \<le> v \<Longrightarrow> v < 10 ^ n \<Longrightarrow> 0 < n \<Longrightarrow> length (pad_num n v) = n"
  using num_str_length [of v n] by (simp add: pad_num_def pad_start_def)

lemma pad_val [simp]: "0 \<le> v \<Longrightarrow> digits_val (pad_num n v) = v"
  by (simp add: pad_num_def)

section \<open>ISO days\<close>

lemma iso_split:
  assumes "is_iso_day s"
  obtains a b c where "s = a @ CHR ''-'' # b @ CHR ''-'' # c" "length a = 4" "length b = 2" "length c = 2"
    "list_all is_digit a" "list_all is_digit b" "digits_val a = iso_year s" "digits_val b = iso_month s"
proof -
  have l: "length s = 10" "s ! 4 = CHR ''-''" "s ! 7 = CHR ''-''" using assms by (simp_all add: is_iso_day_def)
  have "s = take 4 s @ s ! 4 # drop 5 s" using l(1) id_take_nth_drop [of 4 s] by simp
  moreover have "drop 5 s = take 2 (drop 5 s) @ drop 5 s ! 2 # drop 3 (drop 5 s)"
    using l(1) id_take_nth_drop [of 2 "drop 5 s"] by (simp del: drop_drop)
  ultimately have "s = take 4 s @ CHR ''-'' # take 2 (drop 5 s) @ CHR ''-'' # drop 8 s" using l by simp
  then show ?thesis using assms l(1)
    by (intro that [of "take 4 s" "take 2 (drop 5 s)" "drop 8 s"]) (simp_all add: is_iso_day_def iso_year_def iso_month_def)
qed


section \<open>The months of a range\<close>

definition month_name :: "int \<Rightarrow> string" where
  "month_name k = month_text (k div 12) (k mod 12 + 1)"

lemma month_name_of: "1 \<le> m \<Longrightarrow> m \<le> 12 \<Longrightarrow> month_name (12 * y + m - 1) = month_text y m"
proof -
  assume m: "1 \<le> m" "m \<le> 12"
  have "(12 * y + m - 1) div 12 = y" "(12 * y + m - 1) mod 12 = m - 1" using m by presburger+
  then show ?thesis by (simp add: month_name_def)
qed

lemma months_from_upto:
  assumes "1 \<le> m" "m \<le> 12" "1 \<le> mTo" "mTo \<le> 12"
  shows "months_from g y m yTo mTo = map month_name [12 * y + m - 1 .. min (12 * yTo + mTo - 1) (12 * y + m + int g - 2)]"
  using assms
proof (induction g arbitrary: y m)
  case (Suc g)
  let ?i = "12 * y + m - 1" and ?j = "min (12 * yTo + mTo - 1) (12 * y + m + int (Suc g) - 2)"
  have cond: "y < yTo \<or> (y = yTo \<and> m \<le> mTo) \<longleftrightarrow> ?i \<le> ?j" using Suc.prems by auto
  show ?case
  proof (cases "?i \<le> ?j")
    case True
    have rest: "(if m + 1 > 12 then months_from g (y + 1) 1 yTo mTo else months_from g y (m + 1) yTo mTo) = map month_name [?i + 1 .. ?j]"
    proof (cases "m = 12")
      case True
      then show ?thesis using Suc.IH [of 1 "y + 1"] Suc.prems by (simp add: algebra_simps)
    next
      case False
      then show ?thesis using Suc.IH [of "m + 1" y] Suc.prems by (simp add: algebra_simps)
    qed
    have "months_from (Suc g) y m yTo mTo = month_text y m # map month_name [?i + 1 .. ?j]"
      using True cond rest by (simp only: months_from.simps if_True)
    also have "\<dots> = map month_name [?i .. ?j]"
      using True by (simp only: upto_rec1 list.map month_name_of [OF Suc.prems(1,2)])
    finally show ?thesis .
  next
    case False
    then show ?thesis using cond by (simp only: months_from.simps if_False) simp
  qed
qed simp

text \<open>A range of ISO days that is readable: real months, a year of four digits, at most 1200 months.\<close>

definition readable_range :: "string \<Rightarrow> string \<Rightarrow> bool" where
  "readable_range from to \<longleftrightarrow> is_iso_day from \<and> is_iso_day to \<and> 1000 \<le> iso_year from
     \<and> 1 \<le> iso_month from \<and> iso_month from \<le> 12 \<and> 1 \<le> iso_month to \<and> iso_month to \<le> 12
     \<and> 12 * iso_year to + iso_month to < 12 * iso_year from + iso_month from + 1200"

definition month_index :: "string \<Rightarrow> int" where
  "month_index s = 12 * iso_year s + iso_month s - 1"

lemma monthRange_upto: "readable_range from to \<Longrightarrow> monthRange from to = map month_name [month_index from .. month_index to]"
  by (simp add: readable_range_def monthRange_def months_from_upto month_index_def min_def)

lemma long_year:
  assumes "1000 \<le> y" shows "4 \<le> length (num_str y)"
proof (rule ccontr)
  assume "\<not> ?thesis"
  then have "(10 :: int) ^ length (num_str y) \<le> 10 ^ 3" by (intro power_increasing) simp_all
  with assms digits_val_bounds [OF num_str_digits, of y] show False by simp
qed

lemma month_text_pad: "1000 \<le> y \<Longrightarrow> month_text y m = pad_num 4 y @ CHR ''-'' # pad_num 2 m"
  using long_year [of y] by (simp add: month_text_def pad_num_def pad_start_def)

lemma month_of_day:
  assumes "is_iso_day from" "is_iso_day to" "from \<le> dayKey t" "dayKey t \<le> to" "1000 \<le> iso_year from"
    "iso_month from \<le> 12" "1 \<le> iso_month to" "iso_month to \<le> 12" "1 \<le> iso_month from"
  shows "\<exists>k. month_of t = month_name k \<and> month_index from \<le> k \<and> k \<le> month_index to"
proof -
  obtain y m d where c: "civil (tashkentDay t) = (y, m, d)" by (metis prod_cases3)
  from civil_month [OF c] have m: "1 \<le> m" "m \<le> 12" by simp_all
  have key: "dayKey t = year_text y @ CHR ''-'' # pad_num 2 m @ CHR ''-'' # pad_num 2 d" by (simp add: dayKey_def day_text_def c)
  from iso_split [OF assms(1)] obtain a1 b1 c1 where f: "from = a1 @ CHR ''-'' # b1 @ CHR ''-'' # c1" "length a1 = 4" "length b1 = 2"
      "list_all is_digit a1" "list_all is_digit b1" "digits_val a1 = iso_year from" "digits_val b1 = iso_month from"
    by metis
  from iso_split [OF assms(2)] obtain a2 b2 c2 where u: "to = a2 @ CHR ''-'' # b2 @ CHR ''-'' # c2" "length a2 = 4" "length b2 = 2"
      "list_all is_digit a2" "list_all is_digit b2" "digits_val a2 = iso_year to" "digits_val b2 = iso_month to"
    by metis
  have y: "0 \<le> y \<and> y \<le> 9999"
  proof (rule ccontr)
    assume "\<not> ?thesis"
    then obtain x k where x: "dayKey t = x # k" "x = CHR ''-'' \<or> x = CHR ''+''"
      by (cases "y < 0") (simp_all add: key year_text_def)
    obtain e a where e: "a1 = e # a" "is_digit e" using f(2,4) by (cases a1) auto
    from x(2) have "\<not> 0 \<le> digit_val x" by (auto simp: digit_val_def)
    with digit_val_bounds [OF e(2)] have "x < e" unfolding char_order by linarith
    then have "dayKey t < from" unfolding x(1) f(1) e(1) by simp
    with assms(3) show False by simp
  qed
  define p q where "p = pad_num 4 y" and "q = pad_num 2 m"
  have pq: "length p = 4" "length q = 2" "list_all is_digit p" "list_all is_digit q" "digits_val p = y" "digits_val q = m"
    using y m by (simp_all add: p_def q_def pad_length pad_digits)
  have k7: "take 7 (dayKey t) = p @ CHR ''-'' # q" using y pq by (simp add: key year_text_def p_def q_def)
  have "take 7 from \<le> take 7 (dayKey t)" "take 7 (dayKey t) \<le> take 7 to" using assms(3,4) by (simp_all add: take_mono)
  then have "a1 @ CHR ''-'' # b1 \<le> p @ CHR ''-'' # q" "p @ CHR ''-'' # q \<le> a2 @ CHR ''-'' # b2"
    unfolding k7 using f(1-3) u(1-3) by simp_all
  moreover have "b1 \<le> q \<longleftrightarrow> iso_month from \<le> m" "q \<le> b2 \<longleftrightarrow> m \<le> iso_month to"
    using lex_digits [of b1 q "[]" "[]"] lex_digits [of q b2 "[]" "[]"] f u pq by auto
  ultimately have r: "iso_year from < y \<or> (iso_year from = y \<and> iso_month from \<le> m)" "y < iso_year to \<or> (y = iso_year to \<and> m \<le> iso_month to)"
    using f u pq by (simp_all add: lex_digits)
  then have "month_index from \<le> 12 * y + m - 1" "12 * y + m - 1 \<le> month_index to"
    using m assms(6-9) unfolding month_index_def by linarith+
  moreover have "month_of t = month_name (12 * y + m - 1)"
  proof -
    have "1000 \<le> y" using r(1) assms(5) by linarith
    then show ?thesis unfolding month_name_of [OF m] month_of_def k7 p_def q_def by (simp only: month_text_pad)
  qed
  ultimately show ?thesis by blast
qed

lemma month_name_inj:
  assumes "1000 * 12 \<le> i" "1000 * 12 \<le> j" "month_name i = month_name j"
  shows "i = j"
proof -
  have head: "takeWhile is_digit (month_name k) = num_str (k div 12)" "drop (Suc (length (num_str (k div 12)))) (month_name k) = pad_num 2 (k mod 12 + 1)"
    if "1000 * 12 \<le> k" for k
  proof -
    have "list_all is_digit (num_str (k div 12))" using that by (intro num_str_digits) simp
    moreover have "\<not> is_digit CHR ''-''" by (simp add: is_digit_def)
    ultimately show "takeWhile is_digit (month_name k) = num_str (k div 12)"
      by (simp add: month_name_def month_text_def list_all_iff takeWhile_append)
    show "drop (Suc (length (num_str (k div 12)))) (month_name k) = pad_num 2 (k mod 12 + 1)"
      by (simp add: month_name_def month_text_def pad_num_def)
  qed
  have "num_str (i div 12) = num_str (j div 12)" using head(1) [OF assms(1)] head(1) [OF assms(2)] by (simp only: assms(3))
  then have "digits_val (num_str (i div 12)) = digits_val (num_str (j div 12))" by (rule arg_cong)
  then have d: "i div 12 = j div 12" using assms(1,2) by (subst (asm) (1 2) num_str_val) simp_all
  have "pad_num 2 (i mod 12 + 1) = pad_num 2 (j mod 12 + 1)"
    using head(2) [OF assms(1)] head(2) [OF assms(2)] by (simp only: d assms(3))
  then have "digits_val (pad_num 2 (i mod 12 + 1)) = digits_val (pad_num 2 (j mod 12 + 1))" by (rule arg_cong)
  then have "i mod 12 + 1 = j mod 12 + 1" by (subst (asm) (1 2) pad_val) simp_all
  then show ?thesis using d mult_div_mod_eq [of 12 i] mult_div_mod_eq [of 12 j] by linarith
qed

lemma monthRange_distinct: "readable_range from to \<Longrightarrow> distinct (monthRange from to)"
  unfolding monthRange_upto distinct_map
  by (auto simp: readable_range_def month_index_def inj_on_def intro!: month_name_inj)

section \<open>Every movement is in one month\<close>

lemma sums_lookup:
  "su_count (map_get k zero_sum (sums_by_month rows)) = length (filter (\<lambda>x. cm_amount x \<noteq> None \<and> month_of (cm_date x) = k) rows)
    \<and> su_pendingCount (map_get k zero_sum (sums_by_month rows)) = length (filter (\<lambda>x. cm_amount x = None \<and> month_of (cm_date x) = k) rows)"
proof -
  let ?f = "\<lambda>rows m. fold (\<lambda>x. map_put (month_of (cm_date x)) (add_movement x) zero_sum) rows m"
  have "su_count (map_get k zero_sum (?f rows m))
        = su_count (map_get k zero_sum m) + length (filter (\<lambda>x. cm_amount x \<noteq> None \<and> month_of (cm_date x) = k) rows)
      \<and> su_pendingCount (map_get k zero_sum (?f rows m))
        = su_pendingCount (map_get k zero_sum m) + length (filter (\<lambda>x. cm_amount x = None \<and> month_of (cm_date x) = k) rows)" for m
    by (induction rows arbitrary: m) (auto simp: add_movement_def split: option.split)
  from this [of "[]"] show ?thesis by (simp add: sums_by_month_def zero_sum_def map_get_def)
qed

lemma count_keys:
  assumes "distinct ks" "\<forall>x \<in> set xs. f x \<in> set ks"
  shows "(\<Sum>k \<leftarrow> ks. length (filter (\<lambda>x. P x \<and> f x = k) xs)) = length (filter P xs)"
  using assms(2)
proof (induction xs)
  case (Cons x xs)
  have "(\<Sum>k \<leftarrow> ks. length (filter (\<lambda>y. P y \<and> f y = k) (x # xs)))
      = (\<Sum>k \<leftarrow> ks. (if P x \<and> f x = k then 1 else 0) + length (filter (\<lambda>y. P y \<and> f y = k) xs))"
    by (intro arg_cong [of _ _ sum_list] map_cong) auto
  also have "\<dots> = (\<Sum>k \<leftarrow> ks. if P x \<and> f x = k then 1 else 0) + length (filter P xs)"
    using Cons by (simp add: sum_list_addf)
  also have "(\<Sum>k \<leftarrow> ks. if P x \<and> f x = k then 1 else 0) = (if P x then 1 else (0 :: nat))"
    using Cons.prems assms(1) by (simp add: sum_list_distinct_conv_sum_set sum.delta)
  finally show ?case by simp
qed simp

lemma known_count: "length (known_amounts xs) = length (filter (\<lambda>x. cm_amount x \<noteq> None) xs)"
  by (induction xs) (auto simp: known_amounts_def split: option.split)

lemma pending_count: "length xs - length (filter (\<lambda>x. cm_amount x \<noteq> None) xs) = length (filter (\<lambda>x. cm_amount x = None) xs)"
  using sum_length_filter_compl [of "\<lambda>x. cm_amount x \<noteq> None" xs] by simp

text \<open>The movements of the range that fall into a month and have the property \<open>P\<close>.\<close>

definition movements_in :: "(cash_movement \<Rightarrow> bool) \<Rightarrow> string \<Rightarrow> string \<Rightarrow> string \<Rightarrow> cash_movement list \<Rightarrow> nat" where
  "movements_in P from to month xs = length (filter (\<lambda>x. in_range from to x \<and> P x \<and> month_of (cm_date x) = month) xs)"

definition counts_its_month :: "string \<Rightarrow> string \<Rightarrow> cash_movement list \<Rightarrow> cash_movement list \<Rightarrow> cash_period \<Rightarrow> bool" where
  "counts_its_month from to withdrawals deposits p \<longleftrightarrow>
     cp_withdrawnCount p = movements_in (\<lambda>x. cm_amount x \<noteq> None) from to (cp_period p) withdrawals
     \<and> cp_withdrawnPending p = movements_in (\<lambda>x. cm_amount x = None) from to (cp_period p) withdrawals
     \<and> cp_depositedCount p = movements_in (\<lambda>x. cm_amount x \<noteq> None) from to (cp_period p) deposits"

text \<open>C26. Over a readable range the reconciliation lists every month from the first to the last, in calendar
  order and once each, also a month without movements; the counts of a month are the numbers of accepted and
  of pending withdrawals and of deposits of the range that fall into this very month; and the months together
  count every movement of the range.\<close>
theorem months_account_for_every_movement:
  assumes "readable_range from to" "\<forall>x \<in> set deposits. cm_amount x \<noteq> None"
  shows "map cp_period (ch_periods (cashReconcile withdrawals deposits from to)) = map month_name [month_index from .. month_index to]
    \<and> distinct (map cp_period (ch_periods (cashReconcile withdrawals deposits from to)))
    \<and> list_all (counts_its_month from to withdrawals deposits) (ch_periods (cashReconcile withdrawals deposits from to))
    \<and> (\<Sum>p \<leftarrow> ch_periods (cashReconcile withdrawals deposits from to). cp_withdrawnCount p)
      = ch_withdrawnCount (cashReconcile withdrawals deposits from to)
    \<and> (\<Sum>p \<leftarrow> ch_periods (cashReconcile withdrawals deposits from to). cp_withdrawnPending p)
      = ch_withdrawnPendingCount (cashReconcile withdrawals deposits from to)
    \<and> (\<Sum>p \<leftarrow> ch_periods (cashReconcile withdrawals deposits from to). cp_depositedCount p)
      = ch_depositedCount (cashReconcile withdrawals deposits from to)"
proof -
  let ?ms = "monthRange from to"
  define w d where "w = filter (in_range from to) withdrawals" and "d = filter (in_range from to) deposits"
  have ms: "distinct ?ms" by (rule monthRange_distinct [OF assms(1)])
  have inside: "month_of (cm_date x) \<in> set ?ms" if "in_range from to x" for x
  proof -
    have "\<exists>k. month_of (cm_date x) = month_name k \<and> month_index from \<le> k \<and> k \<le> month_index to"
      using that assms(1) by (intro month_of_day) (simp_all add: in_range_def readable_range_def)
    then show ?thesis by (auto simp: monthRange_upto [OF assms(1)])
  qed
  have all: "\<forall>x \<in> set w. month_of (cm_date x) \<in> set ?ms" "\<forall>x \<in> set d. month_of (cm_date x) \<in> set ?ms"
    using inside by (simp_all add: w_def d_def)
  have known: "filter (\<lambda>x. cm_amount x \<noteq> None) d = d" using assms(2) by (intro filter_True) (simp add: d_def)
  have periods: "ch_periods (cashReconcile withdrawals deposits from to) = map (period_of (sums_by_month w) (sums_by_month d)) ?ms"
    and counts: "ch_withdrawnCount (cashReconcile withdrawals deposits from to) = length (known_amounts w)"
      "ch_withdrawnPendingCount (cashReconcile withdrawals deposits from to) = length w - length (known_amounts w)"
      "ch_depositedCount (cashReconcile withdrawals deposits from to) = length d"
    by (simp_all add: cashReconcile_def Let_def w_def d_def)
  have parts: "cp_period (period_of a b k) = k" "cp_withdrawnCount (period_of a b k) = su_count (map_get k zero_sum a)"
      "cp_withdrawnPending (period_of a b k) = su_pendingCount (map_get k zero_sum a)"
      "cp_depositedCount (period_of a b k) = su_count (map_get k zero_sum b)" for a b k
    by (simp_all add: period_of_def Let_def)
  have "counts_its_month from to withdrawals deposits (period_of (sums_by_month w) (sums_by_month d) k)" for k
    by (simp add: counts_its_month_def parts sums_lookup movements_in_def w_def d_def conj_ac)
  then have l: "list_all (counts_its_month from to withdrawals deposits) (map (period_of (sums_by_month w) (sums_by_month d)) ?ms)"
    by (simp add: list_all_iff)
  have p: "map cp_period (map (period_of (sums_by_month w) (sums_by_month d)) ?ms) = ?ms"
    by (simp add: o_def parts)
  have n: "(\<Sum>p \<leftarrow> map (period_of (sums_by_month w) (sums_by_month d)) ?ms. cp_withdrawnCount p) = length (known_amounts w)"
    "(\<Sum>p \<leftarrow> map (period_of (sums_by_month w) (sums_by_month d)) ?ms. cp_withdrawnPending p) = length w - length (known_amounts w)"
    "(\<Sum>p \<leftarrow> map (period_of (sums_by_month w) (sums_by_month d)) ?ms. cp_depositedCount p) = length d"
    unfolding map_map o_def parts known_count pending_count
    using count_keys [OF ms all(1), of "\<lambda>x. cm_amount x \<noteq> None"] count_keys [OF ms all(1), of "\<lambda>x. cm_amount x = None"]
      count_keys [OF ms all(2), of "\<lambda>x. cm_amount x \<noteq> None"] known
    by (simp_all add: sums_lookup)
  show ?thesis
    unfolding periods counts p using monthRange_upto [OF assms(1)] ms l n by (intro conjI)
qed

definition sample_withdrawals :: "cash_movement list" where
  "sample_withdrawals = [\<lparr>cm_date = 0, cm_amount = None\<rparr>, \<lparr>cm_date = 0, cm_amount = Some (Fin 5)\<rparr>]"

definition sample_deposits :: "cash_movement list" where
  "sample_deposits = [\<lparr>cm_date = 32 * DAY_MS, cm_amount = Some (Fin 5)\<rparr>]"

theorem months_account_for_every_movement_witness:
  "(\<Sum>p \<leftarrow> ch_periods (cashReconcile sample_withdrawals sample_deposits ''1970-01-01'' ''1970-03-31''). cp_withdrawnPending p) = 1
    \<and> (\<Sum>p \<leftarrow> ch_periods (cashReconcile sample_withdrawals sample_deposits ''1970-01-01'' ''1970-03-31''). cp_depositedCount p) = 1"
proof -
  have r: "readable_range ''1970-01-01'' ''1970-03-31''" by code_simp
  have k: "dayKey 0 = ''1970-01-01''" "dayKey (32 * DAY_MS) = ''1970-02-02''" by code_simp+
  have "ch_withdrawnPendingCount (cashReconcile sample_withdrawals sample_deposits ''1970-01-01'' ''1970-03-31'') = 1"
    "ch_depositedCount (cashReconcile sample_withdrawals sample_deposits ''1970-01-01'' ''1970-03-31'') = 1"
    by (simp_all add: cashReconcile_def Let_def in_range_def known_amounts_def sample_withdrawals_def sample_deposits_def k)
  then show ?thesis
    using months_account_for_every_movement [OF r, of sample_deposits sample_withdrawals] by (simp add: sample_deposits_def)
qed

end
