(* ===== verification/Spec2Isabelle.thy ===== *)
theory Spec2Isabelle
  imports LedgerSamples SystemConfig DurableLedger GlobProps GlobMoneyProps
    ApprovalProps VendingFacts FinanceFacts CashFacts
begin

text \<open>
  A model of the core of mydon, a system in which software agents, a Telegram bot and a control
  panel run vending and trading operations around one service, Core.

  \<^bold>\<open>What the code does, and which theory models it.\<close>

  Every paid LLM call is authorized by the ledger of Core
  (\<^verbatim>\<open>apps/core/src/llm-ledger\<close>): a client reserves the worst-case cost of a call under the
  daily caps, calls the provider, and settles or releases the reserve.
    \<^item> \<open>Prelude\<close>, \<open>JsNumber\<close>: results as sums, JavaScript text operations, doubles as rationals with
      their rounding and printing.
    \<^item> \<open>Money\<close> (\<^verbatim>\<open>llm-ledger.money.ts\<close>): USD text to nano-USD, reserve and settlement cost.
    \<^item> \<open>Json\<close>: JSON values and the canonical form that is hashed.
    \<^item> \<open>Config\<close> (\<^verbatim>\<open>system/config-spec.ts\<close>, \<^verbatim>\<open>system/settings.ts\<close>): the white list of settings, its
      validators, the priority of database over environment over default.
    \<^item> \<open>SystemConfig\<close> (\<^verbatim>\<open>system/system.service.ts\<close>, \<^verbatim>\<open>sales/accounting-source.ts\<close>): the writes of
      the settings panel as a step relation on the table, the events and the cache.
    \<^item> \<open>TashkentTime\<close> (\<^verbatim>\<open>packages/shared/src/tashkent-time.ts\<close>): days of the one time zone.
    \<^item> \<open>LedgerState\<close>: the rows of \<open>llm_spend\<close> and \<open>llm_model_price\<close> as records, the constraints of
      the table as errors of an insert or update.
    \<^item> \<open>LedgerPolicy\<close>, \<open>LedgerReserve\<close>, \<open>LedgerClose\<close> (\<^verbatim>\<open>llm-ledger.service.ts\<close>): the helpers
      and the four transactions \<open>reserveInTx\<close>, \<open>settleInTx\<close>, \<open>releaseInTx\<close> and
      \<open>recoverPreDispatchInTx\<close>.
    \<^item> \<open>LedgerMonitoring\<close>: the read-only view of the ledger.
    \<^item> \<open>RowHistory\<close>: the interface of a keyed table whose rows only move forward, with its lemmas;
      \<open>LedgerFacts\<close> interprets it on the ledger.
    \<^item> \<open>LedgerFacts\<close>, \<open>Ledger\<close>, \<open>LedgerGuard\<close>: the invariant of the table, the step relation, the
      properties of the transactions.  \<open>LedgerSamples\<close>: concrete ledgers on which they apply.

  The agents reach the ledger through a client that must not lose the close of a paid call
  (\<^verbatim>\<open>packages/shared/src/llm-ledger.ts\<close>, \<^verbatim>\<open>packages/llm-ledger-outbox/src/index.ts\<close>).
    \<^item> \<open>LedgerClient\<close>: one POST and its classification, \<open>Retry-After\<close>, the close loop of at most five
      attempts, the check of the reserve reply.
    \<^item> \<open>OutboxSpool\<close>: records on disk and their validation, file-system actions as data, so that a
      program is cut at any action by a crash.
    \<^item> \<open>Outbox\<close> (the producer), \<open>OutboxDrain\<close> (reclaim and drain), with \<open>OutboxFacts\<close>,
      \<open>OutboxDrainFacts\<close>, \<open>OutboxLiveness\<close>, \<open>OutboxProps\<close> for their invariants and properties.
    \<^item> \<open>DurableLedger\<close>: the durable client over the contracts of the ledger client and the outbox.

  The GLOBERENT contour of Core trades forklifts: equipment units, their reserves and sales, the import
  contracts they come from, and the money.
    \<^item> \<open>JsArith\<close>: arithmetic of JavaScript numbers, columns of fixed precision.
    \<^item> \<open>UnitStatus\<close>, \<open>ImportLifecycle\<close>, \<open>Commission\<close> (\<^verbatim>\<open>packages/shared/src/globerent\<close>): the status
      machine of a unit, the life cycle of a contract as a linear order, cost and commission.
    \<^item> \<open>GlobState\<close>: the tables as records and the indexes as errors.
    \<^item> \<open>Units\<close>, \<open>UnitOps\<close> (\<^verbatim>\<open>units.service.ts\<close>), \<open>Finance\<close> (\<^verbatim>\<open>finance.service.ts\<close>), \<open>Imports\<close>
      (\<^verbatim>\<open>imports.service.ts\<close>): one definition per operation of the three services; a contract calls the
      money service in its own transaction, as the code does.
    \<^item> \<open>CommissionFacts\<close>, \<open>GlobFacts\<close>, \<open>GlobInv\<close>: the arithmetic of costs, the step
      relation of the contour, and one lemma per operation for the invariant of the warehouse.
    \<^item> \<open>GlobRefine\<close>, \<open>GlobMoney\<close>, \<open>GlobContracts\<close>: three interpretations of the interface of
      \<open>RowHistory\<close>, for the units (with the abstract fleet they implement), the flows and the contracts.
    \<^item> \<open>GlobProps\<close>, \<open>GlobMoneyProps\<close>: the properties of the contour; \<open>GlobSamples\<close>: a concrete contour.
    \<^item> \<open>FinanceMath\<close>, \<open>CashReconcile\<close> (\<^verbatim>\<open>finance.math.ts\<close>, \<^verbatim>\<open>finance.service.ts\<close>): aging, concentration,
      cash flow, the refresh of the rates, the reconciliation of cash; \<open>FinanceFacts\<close> and \<open>CashFacts\<close>
      hold their properties.

  What an agent or a member of staff may not do alone becomes a request in the approvals queue, and the
  owner's decision executes it in the same transaction (\<^verbatim>\<open>approvals.service.ts\<close>).
    \<^item> \<open>JsCollections\<close>: \<open>Map\<close>, stable \<open>sort\<close> and \<open>slice\<close> of the standard library.
    \<^item> \<open>ApprovalState\<close>: the tables a decision writes, with their constraints; \<open>Approvals\<close>: request, the
      removal of a backdated record, entity drafts, imports and purchase orders; \<open>CoffeeImport\<close>: the
      import of coffee records and \<open>decide\<close>, which runs the executions in the order of the code.
    \<^item> \<open>ApprovalFacts\<close>: the step relation of the queue, the frame of every operation, the invariant, and the
      interpretation of the interface of \<open>RowHistory\<close>; \<open>ApprovalProps\<close>: the properties.
    \<^item> \<open>CoffeeJournal\<close> (\<^verbatim>\<open>coffee.service.ts\<close>): the deletions from the coffee journal, the only other way a
      refill is removed.

  The vending contour computes deficits, needs and purchases with pure functions
  (\<^verbatim>\<open>packages/shared/src/vending-calc.ts\<close>): \<open>VendingCalc\<close>, with the properties in \<open>VendingFacts\<close>.

  \<^bold>\<open>How state and effects are represented.\<close>  A transaction is a function from the tables, the clock
  readings it takes and its request to an error or to the new tables, the response and the advisory
  locks taken, in order.  An exception rolls the transaction back, so an error carries no state.
  Money columns are whole nano-USD (the scale of the columns), days are whole numbers of Tashkent
  days, instants are milliseconds.  SHA-256 of the canonical payload and the random row id are
  parameters.  Two loops wait for a lock and re-read the clock; they take the list of readings, and
  the termination properties show that they return once two readings fall in one day.  An operation
  of the outbox is a program of file-system actions; its crash points are the prefixes of its actions.
  In the GLOBERENT contour dates are ISO texts, money is rational in columns of fixed precision and a
  JavaScript number in between.

  \<^bold>\<open>What the lemmas show.\<close>  Money: exact conversion, and a reserve that covers every settlement of
  its route.  Ledger: a grant stays inside the caps of the day, of the agent and of a single reservation,
  rows are append-only and move only from reserved to a closed status, replays change nothing, an unknown
  outcome keeps its exposure, after a wrong model no new reservation of the provider is granted that day
  (the replay of an open one still is), locks are taken in one order except by a task reserve that
  waits over midnight, monitoring reports the numbers admission decides with.  Settings: no sequence of panel writes reaches an unsafe profile,
  and the panel and the ledger read the same caps.  Outbox: a stored close survives every crash, is
  never replaced, and ends in the ledger or among the dead letters; the durable client returns a
  reservation only with its fallback on disk.  GLOBERENT: a reserved unit has exactly one active
  reserve, units move only along the matrix of transitions, flows are append-only and contracts never
  go back, a bank statement imports once, signing creates the pieces of the specification, costs are
  exact on whole sums, a sale moved back and closed again accrues a second commission.  Finance: aging is a
  partition by filters, the cash reconciliation lists every month of the range and counts in it exactly its
  own movements, refreshing the rates twice writes once.  Approvals: a request with a client key is made once,
  every request is decided once, orders belong to approved requests, an import repeated creates nothing;
  a refill that the queue or a deletion from the coffee journal removed is in the audit log, with the
  rejection or the deletion that removed it.  Vending: the need of a product in a machine is the deficit of
  the slots assigned to it there, and the allocation policy changes only where pieces come from.

  \<^bold>\<open>Simplifications.\<close>  What the code does in several statements without a transaction is one step here: the
  accrual of a commission after the stage is committed (so an audit or event write that fails after
  the flow is inserted is left out), the life cycle recomputed after an operation on an import, the parallel
  reads of the monitoring view, a deletion from the coffee journal with its audit entry.  Texts are code units
  below 256, which excludes the folding of Cyrillic place names; identifiers are compared as texts, while the
  database also equates the upper-case form of a UUID; the numbers of a payload are finite, so a literal
  that overflows to infinity is excluded.  The code tests the reason of an open circuit for truth and the model
  for presence; the settlement that opens a circuit writes a reason that is never empty.

  \<^bold>\<open>Not modelled.\<close>  Everything that only renders, transports or stores: the web panel (\<open>apps/cc\<close>),
  the dialogues of the bot, NestJS controllers and modules, connectors to outside services, SQL migrations
  and seeds, deployment, the prompts of the agents runtime.  Of Core, the services that keep records of
  tasks, vending, coffee (but for the deletions above), stock, maintenance and documents are left out apart from the pure cores named
  above: their operations are mainly SQL reports over tables of their own.
\<close>

end
